theory Spec2Isabelle
  imports Complex_Main "HOL-Library.Log_Nat"
begin

section \<open>Python values and the builtins the simulator calls\<close>

text \<open>
  The simulator (\<^verbatim>\<open>opcua_plc_simulator.py\<close>) handles configuration values and node
  values of type \<^verbatim>\<open>Any\<close>. The model covers \<^verbatim>\<open>None\<close>, booleans, unbounded
  integers, floats, strings and lists of these; a dict occurs only as a variable
  descriptor and as its \<^verbatim>\<open>simulation\<close> entry.

  A finite float is modelled by the real number it denotes; the two infinities and nan
  are values of their own, and the two zeros are one. What \<^verbatim>\<open>float()\<close> and the
  operators \<^verbatim>\<open>+\<close>, \<^verbatim>\<open>-\<close>, \<^verbatim>\<open>*\<close>, \<^verbatim>\<open>/\<close> return is rounded to the nearest
  double, ties to even, and is an infinity beyond the range of a double
  (\<open>round_double\<close>); \<^verbatim>\<open>float()\<close> of an integer raises \<^verbatim>\<open>OverflowError\<close> there.
  \<^verbatim>\<open>math.sin\<close> is taken as correctly rounded. Clock readings and \<^verbatim>\<open>next_due\<close>
  are real numbers, and the sum \<^verbatim>\<open>now + interval_ms / 1000.0\<close> is formed without
  rounding.

  A string is a sequence of code points below 256; case conversion, whitespace and
  digits are those of Python on these code points. The interpreter's limit on the
  number of digits in a conversion between \<^verbatim>\<open>int\<close> and \<^verbatim>\<open>str\<close> is taken as
  switched off.

  An exception is a value \<open>Inl e\<close> of a sum type; \<open>and_then\<close> passes it on, as the
  statements after a raising call are skipped. The simulator runs as one asyncio task,
  so its \<^verbatim>\<open>await\<close>s are modelled as plain calls; its \<^verbatim>\<open>print\<close>s are left out.
\<close>

datatype error = ValueError | TypeError | OverflowError | ZeroDivisionError

definition and_then :: "error + 'a \<Rightarrow> ('a \<Rightarrow> error + 'b) \<Rightarrow> error + 'b" where
  "and_then m k = (case m of Inl e \<Rightarrow> Inl e | Inr x \<Rightarrow> k x)"

datatype pyfloat = Fin real | PosInf | NegInf | NaN

datatype pyval =
    PNone
  | PBool bool
  | PInt int
  | PFloat pyfloat
  | PStr string
  | PList "pyval list"

subsection \<open>Strings\<close>

definition ascii_upper :: string where
  "ascii_upper = ''ABCDEFGHIJKLMNOPQRSTUVWXYZ''"

definition ascii_lower :: string where
  "ascii_lower = ''abcdefghijklmnopqrstuvwxyz''"

text \<open>The cased letters above the ASCII range: 0xC0 to 0xDE without 0xD7, each 0x20
  below its lower-case letter.\<close>

definition latin_upper :: string where
  "latin_upper =
     [CHR 0xC0, CHR 0xC1, CHR 0xC2, CHR 0xC3, CHR 0xC4, CHR 0xC5, CHR 0xC6, CHR 0xC7,
      CHR 0xC8, CHR 0xC9, CHR 0xCA, CHR 0xCB, CHR 0xCC, CHR 0xCD, CHR 0xCE, CHR 0xCF,
      CHR 0xD0, CHR 0xD1, CHR 0xD2, CHR 0xD3, CHR 0xD4, CHR 0xD5, CHR 0xD6,
      CHR 0xD8, CHR 0xD9, CHR 0xDA, CHR 0xDB, CHR 0xDC, CHR 0xDD, CHR 0xDE]"

definition latin_lower :: string where
  "latin_lower =
     [CHR 0xE0, CHR 0xE1, CHR 0xE2, CHR 0xE3, CHR 0xE4, CHR 0xE5, CHR 0xE6, CHR 0xE7,
      CHR 0xE8, CHR 0xE9, CHR 0xEA, CHR 0xEB, CHR 0xEC, CHR 0xED, CHR 0xEE, CHR 0xEF,
      CHR 0xF0, CHR 0xF1, CHR 0xF2, CHR 0xF3, CHR 0xF4, CHR 0xF5, CHR 0xF6,
      CHR 0xF8, CHR 0xF9, CHR 0xFA, CHR 0xFB, CHR 0xFC, CHR 0xFD, CHR 0xFE]"

definition char_lower :: "char \<Rightarrow> char" where
  "char_lower c =
     (case map_of (zip (ascii_upper @ latin_upper) (ascii_lower @ latin_lower)) c of
        Some d \<Rightarrow> d
      | None \<Rightarrow> c)"

definition str_lower :: "string \<Rightarrow> string" where
  "str_lower s = map char_lower s"

text \<open>The whitespace that \<^verbatim>\<open>str.strip()\<close> removes.\<close>

definition is_space :: "char \<Rightarrow> bool" where
  "is_space c = (c \<in> set [CHR 0x09, CHR 0x0A, CHR 0x0B, CHR 0x0C, CHR 0x0D,
                            CHR 0x1C, CHR 0x1D, CHR 0x1E, CHR 0x1F, CHR 0x20,
                            CHR 0x85, CHR 0xA0])"

definition str_strip :: "string \<Rightarrow> string" where
  "str_strip s = rev (dropWhile is_space (rev (dropWhile is_space s)))"

text \<open>The whitespace that \<^verbatim>\<open>int()\<close> and \<^verbatim>\<open>float()\<close> accept around a numeral:
  the separators 0x1C to 0x1F are not part of it.\<close>

definition is_numeral_space :: "char \<Rightarrow> bool" where
  "is_numeral_space c = (c \<in> set [CHR 0x09, CHR 0x0A, CHR 0x0B, CHR 0x0C, CHR 0x0D, CHR 0x20,
                                    CHR 0x85, CHR 0xA0])"

definition numeral_strip :: "string \<Rightarrow> string" where
  "numeral_strip s = rev (dropWhile is_numeral_space (rev (dropWhile is_numeral_space s)))"

text \<open>\<^verbatim>\<open>s.split(sep)\<close> for a one-character separator: \<^verbatim>\<open>"".split("/") == [""]\<close>.\<close>

fun str_split :: "char \<Rightarrow> string \<Rightarrow> string list" where
  "str_split sep [] = [[]]"
| "str_split sep (c # cs) =
     (if c = sep then [] # str_split sep cs
      else (case str_split sep cs of [] \<Rightarrow> [[c]] | w # ws \<Rightarrow> (c # w) # ws))"

fun str_join :: "string \<Rightarrow> string list \<Rightarrow> string" where
  "str_join sep [] = []"
| "str_join sep [w] = w"
| "str_join sep (w # v # ws) = w @ sep @ str_join sep (v # ws)"

definition str_replace :: "char \<Rightarrow> char \<Rightarrow> string \<Rightarrow> string" where
  "str_replace old new s = map (\<lambda>c. if c = old then new else c) s"

definition str_startswith :: "string \<Rightarrow> string \<Rightarrow> bool" where
  "str_startswith s p = (take (length p) s = p)"

subsection \<open>Rounding to a double\<close>

text \<open>The integer nearest to a real number, the even one of two that are equally near.\<close>

definition round_half_even :: "real \<Rightarrow> int" where
  "round_half_even x =
     (let f = \<lfloor>x\<rfloor>; d = x - of_int f
      in if d < 1 / 2 then f else if 1 / 2 < d then f + 1 else if even f then f else f + 1)"

text \<open>For \<open>0 < a\<close>, the exponent \<open>k\<close> with \<open>2 ^ k \<le> a < 2 ^ (k + 1)\<close>.\<close>

definition log2_floor :: "real \<Rightarrow> int" where
  "log2_floor a = (if 1 \<le> a then bitlen \<lfloor>a\<rfloor> - 1 else - bitlen (\<lceil>1 / a\<rceil> - 1))"

text \<open>
  The double nearest to a real number: 53 significant bits, the last one of weight
  \<open>2 ^ e\<close>, where \<open>e\<close> is at least -1074 (below \<open>2 ^ -1022\<close> the doubles are
  subnormal); a magnitude that rounds to \<open>2 ^ 1024\<close> or more is an infinity.
\<close>

definition round_double :: "real \<Rightarrow> pyfloat" where
  "round_double x =
     (if x = 0 then Fin 0
      else (let a = \<bar>x\<bar>;
                e = max (log2_floor a - 52) (- 1074);
                m = of_int (round_half_even (a / 2 powi e)) * 2 powi e
            in if 2 ^ 1024 \<le> m then (if 0 < x then PosInf else NegInf)
               else Fin (if 0 < x then m else - m)))"

text \<open>\<^verbatim>\<open>float(n)\<close> for an integer, also where an operator converts an integer operand:
  \<^verbatim>\<open>OverflowError\<close> instead of an infinity.\<close>

definition float_of_int :: "int \<Rightarrow> error + pyfloat" where
  "float_of_int n =
     (case round_double (of_int n) of Fin r \<Rightarrow> Inr (Fin r) | _ \<Rightarrow> Inl OverflowError)"

subsection \<open>Decimal numerals\<close>

definition digit_val :: "char \<Rightarrow> nat option" where
  "digit_val c = map_of (zip ''0123456789'' [0, 1, 2, 3, 4, 5, 6, 7, 8, 9]) c"

definition is_digit :: "char \<Rightarrow> bool" where
  "is_digit c = (digit_val c \<noteq> None)"

text \<open>The grammar \<^verbatim>\<open>digitpart ::= digit (["_"] digit)*\<close> of \<^verbatim>\<open>int()\<close> and \<^verbatim>\<open>float()\<close>.\<close>

fun digitpart :: "string \<Rightarrow> bool" where
  "digitpart [] = False"
| "digitpart [c] = is_digit c"
| "digitpart (c # d # cs) =
     (is_digit c \<and> (if d = CHR ''_'' then digitpart cs else digitpart (d # cs)))"

definition digits_val :: "string \<Rightarrow> nat" where
  "digits_val s = foldl (\<lambda>a c. 10 * a + the (digit_val c)) 0 (filter is_digit s)"

definition digits_count :: "string \<Rightarrow> nat" where
  "digits_count s = length (filter is_digit s)"

definition split_sign :: "string \<Rightarrow> bool \<times> string" where
  "split_sign s =
     (case s of
        [] \<Rightarrow> (False, [])
      | c # r \<Rightarrow> if c = CHR ''-'' then (True, r) else if c = CHR ''+'' then (False, r) else (False, s))"

text \<open>\<^verbatim>\<open>int(s)\<close> for a string, base 10.\<close>

definition parse_int :: "string \<Rightarrow> error + int" where
  "parse_int s =
     (let (neg, body) = split_sign (numeral_strip s)
      in if digitpart body
         then Inr (if neg then - int (digits_val body) else int (digits_val body))
         else Inl ValueError)"

text \<open>
  The mantissa \<^verbatim>\<open>[digitpart] "." digitpart | digitpart ["."]\<close> and the exponent
  \<^verbatim>\<open>("e" | "E") [sign] digitpart\<close> of a float literal.
\<close>

definition parse_mantissa :: "string \<Rightarrow> real option" where
  "parse_mantissa m =
     (let ip = takeWhile (\<lambda>c. c \<noteq> CHR ''.'') m;
          r = dropWhile (\<lambda>c. c \<noteq> CHR ''.'') m
      in if r = [] then (if digitpart ip then Some (real (digits_val ip)) else None)
         else (let fp = tl r
               in if (ip = [] \<or> digitpart ip) \<and> (fp = [] \<or> digitpart fp) \<and> (ip \<noteq> [] \<or> fp \<noteq> [])
                  then Some (real (digits_val ip) + real (digits_val fp) / 10 ^ digits_count fp)
                  else None))"

definition parse_exponent :: "string \<Rightarrow> int option" where
  "parse_exponent x =
     (if x = [] then Some 0
      else (let (neg, body) = split_sign (tl x)
            in if digitpart body
               then Some (if neg then - int (digits_val body) else int (digits_val body))
               else None))"

definition scale10 :: "real \<Rightarrow> int \<Rightarrow> real" where
  "scale10 m e = (if 0 \<le> e then m * 10 ^ nat e else m / 10 ^ nat (- e))"

definition is_exp_char :: "char \<Rightarrow> bool" where
  "is_exp_char c = (c = CHR ''e'' \<or> c = CHR ''E'')"

text \<open>\<^verbatim>\<open>float(s)\<close> for a string: the double nearest to the decimal, an infinity when
  that is out of range.\<close>

definition parse_float :: "string \<Rightarrow> error + pyfloat" where
  "parse_float s =
     (let (neg, body) = split_sign (numeral_strip s);
          lb = str_lower body
      in if lb = ''inf'' \<or> lb = ''infinity'' then Inr (if neg then NegInf else PosInf)
         else if lb = ''nan'' then Inr NaN
         else (case (parse_mantissa (takeWhile (\<lambda>c. \<not> is_exp_char c) body),
                     parse_exponent (dropWhile (\<lambda>c. \<not> is_exp_char c) body)) of
                 (Some m, Some e) \<Rightarrow> Inr (round_double (if neg then - scale10 m e else scale10 m e))
               | _ \<Rightarrow> Inl ValueError))"

text \<open>\<^verbatim>\<open>str(n)\<close> for an integer.\<close>

definition digit_char :: "nat \<Rightarrow> char" where
  "digit_char d = ''0123456789'' ! d"

function str_nat :: "nat \<Rightarrow> string" where
  "str_nat n = (if n < 10 then [digit_char n] else str_nat (n div 10) @ [digit_char (n mod 10)])"
  by pat_completeness auto
termination
  by (relation "measure id") auto

definition str_int :: "int \<Rightarrow> string" where
  "str_int i = (if i < 0 then CHR ''-'' # str_nat (nat (- i)) else str_nat (nat i))"

subsection \<open>Floats\<close>

fun fneg :: "pyfloat \<Rightarrow> pyfloat" where
  "fneg (Fin a) = Fin (- a)"
| "fneg PosInf = NegInf"
| "fneg NegInf = PosInf"
| "fneg NaN = NaN"

fun fadd :: "pyfloat \<Rightarrow> pyfloat \<Rightarrow> pyfloat" where
  "fadd (Fin a) (Fin b) = round_double (a + b)"
| "fadd NaN y = NaN"
| "fadd x NaN = NaN"
| "fadd PosInf NegInf = NaN"
| "fadd NegInf PosInf = NaN"
| "fadd PosInf y = PosInf"
| "fadd NegInf y = NegInf"
| "fadd (Fin a) y = y"

definition fsub :: "pyfloat \<Rightarrow> pyfloat \<Rightarrow> pyfloat" where
  "fsub x y = fadd x (fneg y)"

text \<open>The sign of a float: 1, -1, or 0 for a zero and for nan.\<close>

fun fsign :: "pyfloat \<Rightarrow> int" where
  "fsign (Fin a) = (if 0 < a then 1 else if a < 0 then - 1 else 0)"
| "fsign PosInf = 1"
| "fsign NegInf = - 1"
| "fsign NaN = 0"

fun fmul :: "pyfloat \<Rightarrow> pyfloat \<Rightarrow> pyfloat" where
  "fmul (Fin a) (Fin b) = round_double (a * b)"
| "fmul NaN y = NaN"
| "fmul x NaN = NaN"
| "fmul x y =
     (if fsign x * fsign y = 0 then NaN else if 0 < fsign x * fsign y then PosInf else NegInf)"

text \<open>\<^verbatim>\<open>x / y\<close> on floats raises on a zero divisor.\<close>

fun fdiv :: "pyfloat \<Rightarrow> pyfloat \<Rightarrow> error + pyfloat" where
  "fdiv x (Fin b) =
     (if b = 0 then Inl ZeroDivisionError
      else (case x of
              Fin a \<Rightarrow> Inr (round_double (a / b))
            | NaN \<Rightarrow> Inr NaN
            | _ \<Rightarrow> Inr (if 0 < fsign x * fsign (Fin b) then PosInf else NegInf)))"
| "fdiv x NaN = Inr NaN"
| "fdiv (Fin a) y = Inr (Fin 0)"
| "fdiv x y = Inr NaN"

text \<open>\<^verbatim>\<open>x < y\<close> on floats: every comparison with nan is false.\<close>

fun flt :: "pyfloat \<Rightarrow> pyfloat \<Rightarrow> bool" where
  "flt (Fin a) (Fin b) = (a < b)"
| "flt NaN y = False"
| "flt x NaN = False"
| "flt x NegInf = False"
| "flt PosInf y = False"
| "flt x y = True"

text \<open>\<^verbatim>\<open>max(a, b)\<close> and \<^verbatim>\<open>min(a, b)\<close> keep the first argument unless the second is
  strictly beyond it.\<close>

definition py_max :: "pyfloat \<Rightarrow> pyfloat \<Rightarrow> pyfloat" where
  "py_max a b = (if flt a b then b else a)"

definition py_min :: "pyfloat \<Rightarrow> pyfloat \<Rightarrow> pyfloat" where
  "py_min a b = (if flt b a then b else a)"

text \<open>\<^verbatim>\<open>math.pi\<close> is the double nearest to \<open>\<pi>\<close>; \<^verbatim>\<open>math.sin\<close> raises
  \<^verbatim>\<open>ValueError\<close> on an infinity.\<close>

definition math_pi :: pyfloat where
  "math_pi = round_double pi"

fun math_sin :: "pyfloat \<Rightarrow> error + pyfloat" where
  "math_sin (Fin a) = Inr (round_double (sin a))"
| "math_sin NaN = Inr NaN"
| "math_sin x = Inl ValueError"

text \<open>\<^verbatim>\<open>int(x)\<close> of a float truncates toward zero.\<close>

fun float_trunc :: "pyfloat \<Rightarrow> error + int" where
  "float_trunc (Fin a) = Inr (if 0 \<le> a then \<lfloor>a\<rfloor> else \<lceil>a\<rceil>)"
| "float_trunc NaN = Inl ValueError"
| "float_trunc x = Inl OverflowError"

subsection \<open>Conversions\<close>

text \<open>
  \<^verbatim>\<open>str(x)\<close>. The text of a finite float (its shortest round-trip decimal) and of a
  list is not computed by the model: it is the parameter \<open>rp\<close>, and every theorem
  holds for every \<open>rp\<close>.
\<close>

fun py_str :: "(pyval \<Rightarrow> string) \<Rightarrow> pyval \<Rightarrow> string" where
  "py_str rp PNone = ''None''"
| "py_str rp (PBool b) = (if b then ''True'' else ''False'')"
| "py_str rp (PInt n) = str_int n"
| "py_str rp (PStr s) = s"
| "py_str rp (PFloat PosInf) = ''inf''"
| "py_str rp (PFloat NegInf) = ''-inf''"
| "py_str rp (PFloat NaN) = ''nan''"
| "py_str rp v = rp v"

text \<open>\<^verbatim>\<open>bool(x)\<close>, the truth value that \<^verbatim>\<open>x or y\<close> and \<^verbatim>\<open>if x\<close> test.\<close>

fun truthy :: "pyval \<Rightarrow> bool" where
  "truthy PNone = False"
| "truthy (PBool b) = b"
| "truthy (PInt n) = (n \<noteq> 0)"
| "truthy (PFloat f) = (f \<noteq> Fin 0)"
| "truthy (PStr s) = (s \<noteq> [])"
| "truthy (PList xs) = (xs \<noteq> [])"

text \<open>\<^verbatim>\<open>isinstance(x, (int, float))\<close>; \<^verbatim>\<open>bool\<close> is a subclass of \<^verbatim>\<open>int\<close>.\<close>

fun is_number :: "pyval \<Rightarrow> bool" where
  "is_number (PBool b) = True"
| "is_number (PInt n) = True"
| "is_number (PFloat f) = True"
| "is_number v = False"

fun py_float :: "pyval \<Rightarrow> error + pyfloat" where
  "py_float PNone = Inl TypeError"
| "py_float (PBool b) = Inr (Fin (if b then 1 else 0))"
| "py_float (PInt n) = float_of_int n"
| "py_float (PFloat f) = Inr f"
| "py_float (PStr s) = parse_float s"
| "py_float (PList xs) = Inl TypeError"

fun py_int :: "pyval \<Rightarrow> error + int" where
  "py_int PNone = Inl TypeError"
| "py_int (PBool b) = Inr (if b then 1 else 0)"
| "py_int (PInt n) = Inr n"
| "py_int (PFloat f) = float_trunc f"
| "py_int (PStr s) = parse_int s"
| "py_int (PList xs) = Inl TypeError"

section \<open>Type coercion\<close>

text \<open>
  \<^verbatim>\<open>_to_bool\<close>: booleans pass, numbers are tested for nonzero, everything else is
  stringified, stripped, lower-cased and looked up in the set of true words.
\<close>

fun to_bool :: "(pyval \<Rightarrow> string) \<Rightarrow> pyval \<Rightarrow> bool" where
  "to_bool rp (PBool b) = b"
| "to_bool rp (PInt n) = (n \<noteq> 0)"
| "to_bool rp (PFloat f) = (f \<noteq> Fin 0)"
| "to_bool rp v = (str_lower (str_strip (py_str rp v)) \<in> {''1'', ''true'', ''yes'', ''on''})"

text \<open>\<^verbatim>\<open>_cast\<close>: the declared type is lower-cased and stripped, then looked up in the
  three sets of type names; any other name converts to a string.\<close>

definition cast :: "(pyval \<Rightarrow> string) \<Rightarrow> string \<Rightarrow> pyval \<Rightarrow> error + pyval" where
  "cast rp dtype v =
     (let dt = str_strip (str_lower dtype)
      in if dt \<in> {''bool'', ''boolean''} then Inr (PBool (to_bool rp v))
         else if dt \<in> {''int'', ''integer'', ''int32'', ''int64'', ''uint16'', ''uint32''}
           then and_then (py_float v) (\<lambda>f. and_then (float_trunc f) (\<lambda>n. Inr (PInt n)))
         else if dt \<in> {''float'', ''double'', ''number''}
           then and_then (py_float v) (\<lambda>f. Inr (PFloat f))
         else Inr (PStr (py_str rp v)))"

section \<open>The substrate\<close>

text \<open>
  The OPC UA server library is outside the repository. The model keeps what the
  simulator can observe of it: the nodes created so far, the value each variable node
  holds, and the trace of \<^verbatim>\<open>read_value\<close> and \<^verbatim>\<open>write_value\<close> calls. A node handle
  is the node's identifier string. A successful write replaces the held value, a failed
  one leaves it; whether a call fails is an input of each tick (\<open>tick_env\<close>).
\<close>

datatype call = ReadValue string | WriteValue string pyval

record ua_node =
  n_id :: string
  n_name :: string
  n_parent :: string
  n_initial :: "pyval option"
  n_writable :: bool

record substrate =
  nodes :: "ua_node list"
  held :: "string \<rightharpoonup> pyval"
  calls :: "call list"

record tick_env =
  read_fails :: bool
  write_fails :: bool
  rand_unit :: real
  rand_pick :: nat

text \<open>\<^verbatim>\<open>await node.read_value()\<close>: \<open>None\<close> when the call raises, which it also does
  for a handle that holds no value.\<close>

definition read_value :: "tick_env \<Rightarrow> substrate \<Rightarrow> string \<Rightarrow> pyval option \<times> substrate" where
  "read_value env sub h =
     (if read_fails env then None else held sub h, sub\<lparr>calls := calls sub @ [ReadValue h]\<rparr>)"

text \<open>\<^verbatim>\<open>await node.write_value(v)\<close> inside \<^verbatim>\<open>try: ... except Exception: pass\<close>.\<close>

definition write_value :: "tick_env \<Rightarrow> substrate \<Rightarrow> string \<Rightarrow> pyval \<Rightarrow> substrate" where
  "write_value env sub h v =
     (if write_fails env then sub\<lparr>calls := calls sub @ [WriteValue h v]\<rparr>
      else sub\<lparr>held := (held sub)(h \<mapsto> v), calls := calls sub @ [WriteValue h v]\<rparr>)"

section \<open>Bindings and the tick\<close>

record SimBinding =
  node :: string
  node_id :: string
  dtype :: string
  simulation :: "string \<rightharpoonup> pyval"
  next_due :: real
  cycle_index :: int
  phase :: pyfloat

text \<open>\<^verbatim>\<open>d.get(key, default)\<close>.\<close>

definition dict_get :: "(string \<rightharpoonup> pyval) \<Rightarrow> string \<Rightarrow> pyval \<Rightarrow> pyval" where
  "dict_get d k dflt = (case d k of None \<Rightarrow> dflt | Some v \<Rightarrow> v)"

text \<open>\<^verbatim>\<open>int(b.simulation.get("interval_ms", self.default_tick_ms))\<close>.\<close>

definition interval_of :: "int \<Rightarrow> (string \<rightharpoonup> pyval) \<Rightarrow> error + int" where
  "interval_of default_tick_ms sim = py_int (dict_get sim ''interval_ms'' (PInt default_tick_ms))"

text \<open>\<^verbatim>\<open>str(b.simulation.get("mode", "")).lower().strip()\<close>.\<close>

definition mode_of :: "(pyval \<Rightarrow> string) \<Rightarrow> (string \<rightharpoonup> pyval) \<Rightarrow> string" where
  "mode_of rp sim = str_strip (str_lower (py_str rp (dict_get sim ''mode'' (PStr []))))"

text \<open>\<^verbatim>\<open>random.uniform(a, b)\<close> is \<^verbatim>\<open>a + (b - a) * random()\<close>; \<open>u\<close> is the draw.\<close>

definition uniform :: "real \<Rightarrow> pyfloat \<Rightarrow> pyfloat \<Rightarrow> pyfloat" where
  "uniform u a b = fadd a (fmul (fsub b a) (Fin u))"

definition gen_random_walk ::
  "tick_env \<Rightarrow> (string \<rightharpoonup> pyval) \<Rightarrow> pyval \<Rightarrow> error + pyval" where
  "gen_random_walk env sim current =
     and_then (py_float (dict_get sim ''step'' (PFloat (Fin 1)))) (\<lambda>step.
     and_then (py_float (dict_get sim ''min'' (PFloat (Fin 0)))) (\<lambda>minimum.
     and_then (py_float (dict_get sim ''max'' (PFloat (Fin 100)))) (\<lambda>maximum.
     and_then (py_float current) (\<lambda>cur.
       Inr (PFloat (py_max minimum
              (py_min maximum (fadd cur (uniform (rand_unit env) (fneg step) step)))))))))"

definition gen_ramp :: "(string \<rightharpoonup> pyval) \<Rightarrow> pyval \<Rightarrow> error + pyval" where
  "gen_ramp sim current =
     and_then (py_float (dict_get sim ''step'' (PFloat (Fin 1)))) (\<lambda>step.
     and_then (py_float (dict_get sim ''min'' (PFloat (Fin 0)))) (\<lambda>minimum.
     and_then (py_float (dict_get sim ''max'' (PFloat (Fin 100)))) (\<lambda>maximum.
     and_then (py_float current) (\<lambda>c.
       (let cur = fadd c step;
            cur1 = (if flt maximum cur then minimum else cur);
            cur2 = (if flt cur1 minimum then maximum else cur1)
        in Inr (PFloat cur2))))))"

definition gen_sine :: "int \<Rightarrow> SimBinding \<Rightarrow> error + pyval \<times> SimBinding" where
  "gen_sine interval_ms b =
     and_then (py_float (dict_get (simulation b) ''min'' (PFloat (Fin 0)))) (\<lambda>minimum.
     and_then (py_float (dict_get (simulation b) ''max'' (PFloat (Fin 100)))) (\<lambda>maximum.
     and_then (py_float (dict_get (simulation b) ''period_ms'' (PFloat (Fin 5000)))) (\<lambda>period_ms.
     and_then (float_of_int interval_ms) (\<lambda>ms.
     and_then (fdiv ms (py_max period_ms (Fin 10))) (\<lambda>q.
       (let b1 = b\<lparr>phase := fadd (phase b) (fmul (fmul (Fin 2) math_pi) q)\<rparr>
        in and_then (fdiv (fadd maximum minimum) (Fin 2)) (\<lambda>center.
           and_then (fdiv (fsub maximum minimum) (Fin 2)) (\<lambda>amp.
           and_then (math_sin (phase b1)) (\<lambda>s.
             Inr (PFloat (fadd center (fmul amp s)), b1))))))))))"

definition gen_cycle :: "SimBinding \<Rightarrow> pyval \<Rightarrow> pyval \<times> SimBinding" where
  "gen_cycle b current =
     (case dict_get (simulation b) ''values'' (PList []) of
        PList vs \<Rightarrow>
          if vs \<noteq> []
          then (let b1 = b\<lparr>cycle_index := (cycle_index b + 1) mod int (length vs)\<rparr>
                in (vs ! nat (cycle_index b1), b1))
          else (current, b)
      | _ \<Rightarrow> (current, b))"

definition gen_random_choice :: "tick_env \<Rightarrow> (string \<rightharpoonup> pyval) \<Rightarrow> pyval \<Rightarrow> pyval" where
  "gen_random_choice env sim current =
     (case dict_get sim ''values'' (PList []) of
        PList vs \<Rightarrow> if vs \<noteq> [] then vs ! (rand_pick env mod length vs) else current
      | _ \<Rightarrow> current)"

text \<open>The mode dispatch of \<^verbatim>\<open>_tick\<close> (the \<^verbatim>\<open>if/elif\<close> chain): the new value and the
  binding with its generator state updated.\<close>

definition generate ::
  "(pyval \<Rightarrow> string) \<Rightarrow> tick_env \<Rightarrow> int \<Rightarrow> SimBinding \<Rightarrow> pyval \<Rightarrow> error + pyval \<times> SimBinding" where
  "generate rp env interval_ms b current =
     (let mode = mode_of rp (simulation b)
      in if mode = ''toggle'' then Inr (PBool (\<not> to_bool rp current), b)
         else if mode = ''random_walk''
           then and_then (gen_random_walk env (simulation b) current) (\<lambda>v. Inr (v, b))
         else if mode = ''random_choice''
           then Inr (gen_random_choice env (simulation b) current, b)
         else if mode = ''cycle'' then Inr (gen_cycle b current)
         else if mode = ''ramp''
           then and_then (gen_ramp (simulation b) current) (\<lambda>v. Inr (v, b))
         else if mode = ''sine'' then gen_sine interval_ms b
         else Inr (current, b))"

text \<open>
  The body of the \<^verbatim>\<open>for b in self.bindings\<close> loop of \<^verbatim>\<open>_tick\<close>. \<open>Inl e\<close> is an
  exception that leaves \<^verbatim>\<open>_tick\<close>; \<^verbatim>\<open>continue\<close> returns the state reached so far.
\<close>

definition tick_binding ::
  "(pyval \<Rightarrow> string) \<Rightarrow> int \<Rightarrow> real \<Rightarrow> tick_env \<Rightarrow> SimBinding \<times> substrate
     \<Rightarrow> error + SimBinding \<times> substrate" where
  "tick_binding rp default_tick_ms now env bs =
     (let b = fst bs; sub = snd bs
      in and_then (interval_of default_tick_ms (simulation b)) (\<lambda>interval_ms.
         if now < next_due b then Inr (b, sub)
         else (case read_value env sub (node b) of
                 (None, sub1) \<Rightarrow> Inr (b, sub1)
               | (Some current, sub1) \<Rightarrow>
                   and_then (generate rp env interval_ms b current) (\<lambda>(new_value, b1).
                   and_then (cast rp (dtype b1) new_value) (\<lambda>casted.
                     Inr (b1\<lparr>next_due := now + of_int interval_ms / 1000\<rparr>,
                          write_value env sub1 (node b1) casted))))))"

text \<open>\<^verbatim>\<open>_tick\<close>: the bindings in registration order; \<open>envs i\<close> is what the substrate
  and the random source do for the binding at position \<open>i\<close>.\<close>

fun tick_from ::
  "(pyval \<Rightarrow> string) \<Rightarrow> int \<Rightarrow> real \<Rightarrow> (nat \<Rightarrow> tick_env) \<Rightarrow> nat \<Rightarrow> SimBinding list \<Rightarrow> substrate
     \<Rightarrow> error + SimBinding list \<times> substrate" where
  "tick_from rp default_tick_ms now envs i [] sub = Inr ([], sub)"
| "tick_from rp default_tick_ms now envs i (b # bs) sub =
     and_then (tick_binding rp default_tick_ms now (envs i) (b, sub)) (\<lambda>(b1, sub1).
     and_then (tick_from rp default_tick_ms now envs (Suc i) bs sub1) (\<lambda>(bs1, sub2).
       Inr (b1 # bs1, sub2)))"

definition tick ::
  "(pyval \<Rightarrow> string) \<Rightarrow> int \<Rightarrow> real \<Rightarrow> (nat \<Rightarrow> tick_env) \<Rightarrow> SimBinding list \<times> substrate
     \<Rightarrow> error + SimBinding list \<times> substrate" where
  "tick rp default_tick_ms now envs st = tick_from rp default_tick_ms now envs 0 (fst st) (snd st)"

text \<open>
  \<^verbatim>\<open>run\<close>: \<^verbatim>\<open>while True: await self._tick(); await asyncio.sleep(...)\<close>. The loop
  has no exit of its own, so the model runs it over a finite list of ticks, each with
  its clock reading and its environment; an exception of a tick ends the run.
\<close>

fun run ::
  "(pyval \<Rightarrow> string) \<Rightarrow> int \<Rightarrow> (real \<times> (nat \<Rightarrow> tick_env)) list \<Rightarrow> SimBinding list \<times> substrate
     \<Rightarrow> error + SimBinding list \<times> substrate" where
  "run rp default_tick_ms [] st = Inr st"
| "run rp default_tick_ms ((now, envs) # ts) st =
     and_then (tick rp default_tick_ms now envs st) (\<lambda>st1. run rp default_tick_ms ts st1)"

text \<open>Two bindings have the same configuration when they differ at most in the fields
  that \<^verbatim>\<open>_tick\<close> assigns (\<^verbatim>\<open>next_due\<close>, \<^verbatim>\<open>cycle_index\<close>, \<^verbatim>\<open>phase\<close>).\<close>

definition same_config :: "SimBinding \<Rightarrow> SimBinding \<Rightarrow> bool" where
  "same_config b b' \<longleftrightarrow>
     node b' = node b \<and> node_id b' = node_id b \<and> dtype b' = dtype b \<and> simulation b' = simulation b"

section \<open>Building the address space\<close>

text \<open>The normalisation shared by \<^verbatim>\<open>_ensure_object_path\<close> and \<^verbatim>\<open>_split_path\<close>:
  \<^verbatim>\<open>"/".join([p for p in str(path).split("/") if p])\<close>.\<close>

definition clean_path :: "string \<Rightarrow> string" where
  "clean_path path = str_join ''/'' (filter (\<lambda>p. p \<noteq> []) (str_split CHR ''/'' path))"

text \<open>\<^verbatim>\<open>clean.rsplit("/", 1)\<close> for a string that contains a slash.\<close>

definition rsplit1 :: "string \<Rightarrow> string \<times> string" where
  "rsplit1 s =
     (rev (tl (dropWhile (\<lambda>c. c \<noteq> CHR ''/'') (rev s))),
      rev (takeWhile (\<lambda>c. c \<noteq> CHR ''/'') (rev s)))"

definition split_path :: "string \<Rightarrow> string \<times> string" where
  "split_path path =
     (let clean = clean_path path
      in if CHR ''/'' \<notin> set clean then ([], clean) else rsplit1 clean)"

text \<open>The handle of \<^verbatim>\<open>self.server.nodes.objects\<close>, the root container.\<close>

definition objects_node :: string where
  "objects_node = ''i=85''"

definition derived_id :: "int \<Rightarrow> string \<Rightarrow> string" where
  "derived_id ns_idx s = ''ns='' @ str_int ns_idx @ '';s='' @ s"

text \<open>\<^verbatim>\<open>await parent.add_object(node_id, leaf)\<close> and
  \<^verbatim>\<open>await parent.add_variable(node_id, leaf, initial)\<close>; the handle of the new node is
  its identifier. The substrate's own refusals at setup are not modelled.\<close>

definition add_object :: "substrate \<Rightarrow> string \<Rightarrow> string \<Rightarrow> string \<Rightarrow> substrate" where
  "add_object sub parent nid leaf =
     sub\<lparr>nodes := nodes sub @
           [\<lparr>n_id = nid, n_name = leaf, n_parent = parent, n_initial = None, n_writable = False\<rparr>]\<rparr>"

definition add_variable ::
  "substrate \<Rightarrow> string \<Rightarrow> string \<Rightarrow> string \<Rightarrow> pyval \<Rightarrow> bool \<Rightarrow> substrate" where
  "add_variable sub parent nid leaf initial writable =
     sub\<lparr>nodes := nodes sub @
           [\<lparr>n_id = nid, n_name = leaf, n_parent = parent, n_initial = Some initial,
             n_writable = writable\<rparr>],
         held := (held sub)(nid \<mapsto> initial)\<rparr>"

text \<open>\<^verbatim>\<open>_ensure_object_path\<close>: the cache maps a normalised path to the handle of its
  container; the result is the handle, the cache and the substrate after the call.\<close>

function ensure_object_path ::
  "(string \<rightharpoonup> string) \<times> substrate \<Rightarrow> int \<Rightarrow> string \<Rightarrow> string \<times> (string \<rightharpoonup> string) \<times> substrate" where
  "ensure_object_path cs ns_idx path =
     (let norm = clean_path path
      in case fst cs norm of
           Some h \<Rightarrow> (h, cs)
         | None \<Rightarrow>
             if norm = [] then (objects_node, cs)
             else (case ensure_object_path cs ns_idx (fst (split_path norm)) of
                     (parent, cache1, sub1) \<Rightarrow>
                       (let nid = derived_id ns_idx (str_replace CHR ''/'' CHR ''.'' norm)
                        in (nid, cache1(norm \<mapsto> nid),
                            add_object sub1 parent nid (snd (split_path norm))))))"
  by pat_completeness auto

text \<open>The recursive call is on the parent path, which is shorter than the normalised
  path: normalising never lengthens a string, and the parent lacks at least the last
  character.\<close>

termination ensure_object_path
proof (relation "measure (\<lambda>(cs, ns_idx, path). length (clean_path path))")
  show "wf (measure (\<lambda>(cs, ns_idx, path). length (clean_path path)))" by simp
next
  fix cs :: "(string \<rightharpoonup> string) \<times> substrate" and ns_idx :: int and path norm :: string
  assume norm: "norm = clean_path path" and ne: "norm \<noteq> []"
  have join_length:
    "length (str_join sep ws) = sum_list (map length ws) + length sep * (length ws - 1)"
    for sep :: string and ws
    by (induction sep ws rule: str_join.induct) simp_all
  have split_not_Nil: "str_split sep s \<noteq> []" for sep s
    by (induction s) (auto split: list.splits)
  have join_split: "str_join [sep] (str_split sep s) = s" for sep s
  proof (induction s)
    case Nil
    show ?case by simp
  next
    case (Cons c s)
    obtain w ws where ws: "str_split sep s = w # ws"
      using split_not_Nil[of sep s] by (cases "str_split sep s") auto
    show ?case using Cons ws by (cases ws) auto
  qed
  have sum_filter:
    "sum_list (map length (filter (\<lambda>p. p \<noteq> []) ws)) = sum_list (map length ws)"
    for ws :: "string list"
    by (induction ws) auto
  have clean_length: "length (clean_path s) \<le> length s" for s
  proof -
    let ?ws = "str_split CHR ''/'' s"
    let ?fs = "filter (\<lambda>p. p \<noteq> []) ?ws"
    have len: "length ?fs \<le> length ?ws" by simp
    have "length s = length (str_join ''/'' ?ws)"
      using join_split[of "CHR ''/''" s] by simp
    also have "\<dots> = sum_list (map length ?ws) + (length ?ws - 1)"
      by (simp add: join_length)
    finally have "length s = sum_list (map length ?ws) + (length ?ws - 1)" .
    moreover have "length (clean_path s) = sum_list (map length ?fs) + (length ?fs - 1)"
      by (simp add: clean_path_def join_length)
    ultimately show ?thesis using sum_filter[of ?ws] len by linarith
  qed
  have parent_length: "length (fst (split_path norm)) < length norm"
  proof (cases "CHR ''/'' \<in> set (clean_path norm)")
    case False
    then show ?thesis using ne by (simp add: split_path_def)
  next
    case True
    let ?c = "clean_path norm"
    from True have "dropWhile (\<lambda>c. c \<noteq> CHR ''/'') (rev ?c) \<noteq> []"
      by (simp add: dropWhile_eq_Nil_conv)
    then have "length (tl (dropWhile (\<lambda>c. c \<noteq> CHR ''/'') (rev ?c))) < length (rev ?c)"
      using length_dropWhile_le[of "\<lambda>c. c \<noteq> CHR ''/''" "rev ?c"]
      by (cases "dropWhile (\<lambda>c. c \<noteq> CHR ''/'') (rev ?c)") auto
    then have "length (fst (split_path norm)) < length ?c"
      using True by (simp add: split_path_def rsplit1_def Let_def)
    then show ?thesis using clean_length[of norm] by linarith
  qed
  have "length (fst (split_path norm)) < length (clean_path path)"
    using parent_length norm by simp
  then have "length (clean_path (fst (split_path norm))) < length (clean_path path)"
    using clean_length[of "fst (split_path norm)"] by linarith
  then show "((cs, ns_idx, fst (split_path norm)), (cs, ns_idx, path))
               \<in> measure (\<lambda>(cs, ns_idx, path). length (clean_path path))"
    by simp
qed

declare ensure_object_path.simps [simp del]

text \<open>
  A variable descriptor is a dict that \<^verbatim>\<open>setup\<close> reads through \<^verbatim>\<open>.get\<close> on seven
  keys; a field is \<open>None\<close> when the key is absent. \<^verbatim>\<open>simulation\<close> is \<open>Some\<close> of the
  dict when its value is a dict (\<^verbatim>\<open>isinstance(sim_cfg, dict)\<close>).
\<close>

record var_item =
  item_name :: "pyval option"
  item_path :: "pyval option"
  item_type :: "pyval option"
  item_initial :: "pyval option"
  item_writable :: "pyval option"
  item_node_id :: "pyval option"
  item_simulation :: "(string \<rightharpoonup> pyval) option"

text \<open>\<^verbatim>\<open>item.get(key) or default\<close>.\<close>

definition get_or :: "pyval option \<Rightarrow> pyval \<Rightarrow> pyval" where
  "get_or x dflt = (case x of None \<Rightarrow> dflt | Some v \<Rightarrow> if truthy v then v else dflt)"

definition var_name :: "(pyval \<Rightarrow> string) \<Rightarrow> var_item \<Rightarrow> string" where
  "var_name rp item = py_str rp (get_or (item_name item) (PStr ''Variable''))"

definition var_path :: "(pyval \<Rightarrow> string) \<Rightarrow> string \<Rightarrow> var_item \<Rightarrow> string" where
  "var_path rp root_name item =
     py_str rp (get_or (item_path item) (PStr (root_name @ ''/'' @ var_name rp item)))"

definition var_dtype :: "(pyval \<Rightarrow> string) \<Rightarrow> var_item \<Rightarrow> string" where
  "var_dtype rp item = str_lower (py_str rp (get_or (item_type item) (PStr ''float'')))"

definition var_writable :: "var_item \<Rightarrow> bool" where
  "var_writable item = truthy (case item_writable item of None \<Rightarrow> PBool True | Some v \<Rightarrow> v)"

text \<open>\<^verbatim>\<open>_cast(dtype, item.get("initial", False if dtype == "bool" else 0))\<close>.\<close>

definition var_initial :: "(pyval \<Rightarrow> string) \<Rightarrow> var_item \<Rightarrow> error + pyval" where
  "var_initial rp item =
     (let dtype = var_dtype rp item
      in cast rp dtype
           (case item_initial item of
              None \<Rightarrow> if dtype = ''bool'' then PBool False else PInt 0
            | Some v \<Rightarrow> v))"

text \<open>The identifier of the variable node (lines 170 to 177 of the source).\<close>

definition var_node_id :: "(pyval \<Rightarrow> string) \<Rightarrow> int \<Rightarrow> string \<Rightarrow> var_item \<Rightarrow> string" where
  "var_node_id rp ns_idx root_name item =
     (let raw_node_id = (case item_node_id item of None \<Rightarrow> PNone | Some v \<Rightarrow> v)
      in if truthy raw_node_id
         then (let nid = py_str rp raw_node_id
               in if str_startswith nid ''ns='' then nid else derived_id ns_idx nid)
         else derived_id ns_idx (str_replace CHR ''/'' CHR ''.'' (var_path rp root_name item)))"

text \<open>The binding that \<^verbatim>\<open>setup\<close> appends for a descriptor with a simulation dict whose
  mode is truthy; \<open>now\<close> is \<^verbatim>\<open>time.monotonic()\<close>.\<close>

definition var_binding ::
  "(pyval \<Rightarrow> string) \<Rightarrow> int \<Rightarrow> real \<Rightarrow> string \<Rightarrow> string \<Rightarrow> var_item \<Rightarrow> error + SimBinding option" where
  "var_binding rp default_tick_ms now nid dt item =
     (case item_simulation item of
        None \<Rightarrow> Inr None
      | Some sim_cfg \<Rightarrow>
          if truthy (dict_get sim_cfg ''mode'' PNone)
          then and_then (py_int (dict_get sim_cfg ''interval_ms'' (PInt default_tick_ms)))
                 (\<lambda>interval_ms.
                    Inr (Some \<lparr>node = nid, node_id = nid, dtype = dt, simulation = sim_cfg,
                               next_due = now + of_int interval_ms / 1000,
                               cycle_index = 0, phase = Fin 0\<rparr>))
          else Inr None)"

record setup_state =
  cache :: "string \<rightharpoonup> string"
  space :: substrate
  bindings :: "SimBinding list"

text \<open>The body of the \<^verbatim>\<open>for item in variables\<close> loop of \<^verbatim>\<open>setup\<close>, for an item that is
  a dict.\<close>

definition setup_item ::
  "(pyval \<Rightarrow> string) \<Rightarrow> int \<Rightarrow> int \<Rightarrow> string \<Rightarrow> real \<Rightarrow> var_item \<Rightarrow> setup_state \<Rightarrow> error + setup_state" where
  "setup_item rp default_tick_ms ns_idx root_name now item st =
     (let path = var_path rp root_name item;
          dt = var_dtype rp item;
          writable = var_writable item
      in and_then (var_initial rp item) (\<lambda>initial.
         case ensure_object_path (cache st, space st) ns_idx (fst (split_path path)) of
           (parent, cache1, sub1) \<Rightarrow>
             (let nid = var_node_id rp ns_idx root_name item;
                  sub2 = add_variable sub1 parent nid (snd (split_path path)) initial writable
              in and_then (var_binding rp default_tick_ms now nid dt item) (\<lambda>nb.
                   Inr \<lparr>cache = cache1, space = sub2,
                        bindings = (case nb of None \<Rightarrow> bindings st | Some b \<Rightarrow> bindings st @ [b])\<rparr>))))"

text \<open>The loop: an entry that is not a dict (\<open>None\<close>) is skipped; \<open>clock k\<close> is the clock
  reading while entry \<open>k\<close> is processed.\<close>

fun setup_vars ::
  "(pyval \<Rightarrow> string) \<Rightarrow> int \<Rightarrow> int \<Rightarrow> string \<Rightarrow> (nat \<Rightarrow> real) \<Rightarrow> nat \<Rightarrow> var_item option list
     \<Rightarrow> setup_state \<Rightarrow> error + setup_state" where
  "setup_vars rp default_tick_ms ns_idx root_name clock k [] st = Inr st"
| "setup_vars rp default_tick_ms ns_idx root_name clock k (None # items) st =
     setup_vars rp default_tick_ms ns_idx root_name clock (Suc k) items st"
| "setup_vars rp default_tick_ms ns_idx root_name clock k (Some item # items) st =
     and_then (setup_item rp default_tick_ms ns_idx root_name (clock k) item st)
       (setup_vars rp default_tick_ms ns_idx root_name clock (Suc k) items)"

text \<open>\<^verbatim>\<open>setup\<close> from the registration of the namespace on: the root container, then
  the variables. \<open>variables\<close> is \<open>None\<close> when \<^verbatim>\<open>model.variables\<close> is not a list.\<close>

definition sim_setup ::
  "(pyval \<Rightarrow> string) \<Rightarrow> int \<Rightarrow> int \<Rightarrow> string \<Rightarrow> (nat \<Rightarrow> real) \<Rightarrow> var_item option list option
     \<Rightarrow> error + setup_state" where
  "sim_setup rp default_tick_ms ns_idx root_name clock variables =
     (case ensure_object_path ([[] \<mapsto> objects_node], \<lparr>nodes = [], held = Map.empty, calls = []\<rparr>)
             ns_idx root_name of
        (root_node, cache1, sub1) \<Rightarrow>
          (case variables of
             None \<Rightarrow> Inl ValueError
           | Some items \<Rightarrow>
               setup_vars rp default_tick_ms ns_idx root_name clock 0 items
                 \<lparr>cache = cache1, space = sub1, bindings = []\<rparr>))"

section \<open>The example configuration\<close>

text \<open>The simulated variables of \<^verbatim>\<open>EXAMPLE_CONFIG\<close> that the statements below use, as
  the YAML loader delivers them.\<close>

definition item0 :: var_item where
  "item0 = \<lparr>item_name = None, item_path = None, item_type = None, item_initial = None,
            item_writable = None, item_node_id = None, item_simulation = None\<rparr>"

definition running_sim :: "string \<rightharpoonup> pyval" where
  "running_sim = [''mode'' \<mapsto> PStr ''toggle'', ''interval_ms'' \<mapsto> PInt 3000]"

definition rpm_sim :: "string \<rightharpoonup> pyval" where
  "rpm_sim = [''mode'' \<mapsto> PStr ''ramp'', ''min'' \<mapsto> PInt 0, ''max'' \<mapsto> PInt 3000,
              ''step'' \<mapsto> PInt 150, ''interval_ms'' \<mapsto> PInt 800]"

definition mode_sim :: "string \<rightharpoonup> pyval" where
  "mode_sim = [''mode'' \<mapsto> PStr ''cycle'',
               ''values'' \<mapsto> PList [PStr ''Idle'', PStr ''Setup'', PStr ''Auto'', PStr ''Alarm''],
               ''interval_ms'' \<mapsto> PInt 6000]"

definition example_running :: var_item where
  "example_running =
     \<lparr>item_name = Some (PStr ''Running''), item_path = Some (PStr ''Machine/Running''),
      item_type = Some (PStr ''bool''), item_initial = Some (PBool False),
      item_writable = Some (PBool True), item_node_id = None,
      item_simulation = Some running_sim\<rparr>"

definition example_rpm :: var_item where
  "example_rpm =
     \<lparr>item_name = Some (PStr ''RPM''), item_path = Some (PStr ''Machine/RPM''),
      item_type = Some (PStr ''int''), item_initial = Some (PInt 0),
      item_writable = Some (PBool True), item_node_id = None,
      item_simulation = Some rpm_sim\<rparr>"

definition example_mode :: var_item where
  "example_mode =
     \<lparr>item_name = Some (PStr ''Mode''), item_path = Some (PStr ''Machine/Mode''),
      item_type = Some (PStr ''string''), item_initial = Some (PStr ''Idle''),
      item_writable = Some (PBool True), item_node_id = None,
      item_simulation = Some mode_sim\<rparr>"

definition example_green :: var_item where
  "example_green =
     \<lparr>item_name = Some (PStr ''StackLightGreen''),
      item_path = Some (PStr ''Machine/StackLight/Green''),
      item_type = Some (PStr ''bool''), item_initial = Some (PBool True),
      item_writable = Some (PBool True), item_node_id = None, item_simulation = None\<rparr>"

text \<open>A stand-in for the text of floats and lists, for the closed statements; none of
  them depends on it.\<close>

definition plain_repr :: "pyval \<Rightarrow> string" where
  "plain_repr v = ''?''"

text \<open>An environment in which the read and the write succeed.\<close>

definition calm :: tick_env where
  "calm = \<lparr>read_fails = False, write_fails = False, rand_unit = 0, rand_pick = 0\<rparr>"

text \<open>The bindings that \<^verbatim>\<open>setup\<close> creates for these variables with namespace index 2
  when the clock reads 0.\<close>

definition running_binding :: SimBinding where
  "running_binding =
     \<lparr>node = ''ns=2;s=Machine.Running'', node_id = ''ns=2;s=Machine.Running'', dtype = ''bool'',
      simulation = running_sim, next_due = 3, cycle_index = 0, phase = Fin 0\<rparr>"

definition rpm_binding :: SimBinding where
  "rpm_binding =
     \<lparr>node = ''ns=2;s=Machine.RPM'', node_id = ''ns=2;s=Machine.RPM'', dtype = ''int'',
      simulation = rpm_sim, next_due = 4 / 5, cycle_index = 0, phase = Fin 0\<rparr>"

definition mode_binding :: SimBinding where
  "mode_binding =
     \<lparr>node = ''ns=2;s=Machine.Mode'', node_id = ''ns=2;s=Machine.Mode'', dtype = ''string'',
      simulation = mode_sim, next_due = 6, cycle_index = 0, phase = Fin 0\<rparr>"

text \<open>A substrate in which the node \<open>h\<close> holds \<open>v\<close>.\<close>

definition holding :: "string \<Rightarrow> pyval \<Rightarrow> substrate" where
  "holding h v = \<lparr>nodes = [], held = [h \<mapsto> v], calls = []\<rparr>"

text \<open>A toggling boolean variable with a negative interval, as \<^verbatim>\<open>setup\<close> creates it
  from \<^verbatim>\<open>interval_ms: -1000\<close> when the clock reads 6.\<close>

definition hasty_binding :: SimBinding where
  "hasty_binding =
     \<lparr>node = ''ns=2;s=Machine.Running'', node_id = ''ns=2;s=Machine.Running'', dtype = ''bool'',
      simulation = [''mode'' \<mapsto> PStr ''toggle'', ''interval_ms'' \<mapsto> PInt (- 1000)],
      next_due = 5, cycle_index = 0, phase = Fin 0\<rparr>"

text \<open>The descriptor of that variable, and the state of \<^verbatim>\<open>setup\<close> after the root
  container and this variable.\<close>

definition hasty_item :: var_item where
  "hasty_item =
     example_running\<lparr>item_simulation :=
       Some [''mode'' \<mapsto> PStr ''toggle'', ''interval_ms'' \<mapsto> PInt (- 1000)]\<rparr>"

definition hasty_state :: setup_state where
  "hasty_state =
     \<lparr>cache = [[] \<mapsto> ''i=85'', ''Machine'' \<mapsto> ''ns=2;s=Machine''],
      space = \<lparr>nodes = [\<lparr>n_id = ''ns=2;s=Machine'', n_name = ''Machine'', n_parent = ''i=85'',
                         n_initial = None, n_writable = False\<rparr>,
                        \<lparr>n_id = ''ns=2;s=Machine.Running'', n_name = ''Running'',
                         n_parent = ''ns=2;s=Machine'', n_initial = Some (PBool False),
                         n_writable = True\<rparr>],
               held = [''ns=2;s=Machine.Running'' \<mapsto> PBool False], calls = []\<rparr>,
      bindings = [hasty_binding]\<rparr>"

text \<open>A string variable holding text, with mode ramp and the default parameters.\<close>

definition text_ramp_binding :: SimBinding where
  "text_ramp_binding =
     \<lparr>node = ''ns=2;s=Machine.Mode'', node_id = ''ns=2;s=Machine.Mode'', dtype = ''string'',
      simulation = [''mode'' \<mapsto> PStr ''ramp''], next_due = 1 / 2, cycle_index = 0, phase = Fin 0\<rparr>"

text \<open>The state of \<^verbatim>\<open>setup\<close> after it created the root container \<^verbatim>\<open>Machine\<close> in the
  namespace with index 2, and three descriptors that name no identifier and no initial
  value.\<close>

definition machine_state :: setup_state where
  "machine_state =
     \<lparr>cache = [[] \<mapsto> ''i=85'', ''Machine'' \<mapsto> ''ns=2;s=Machine''],
      space = \<lparr>nodes = [\<lparr>n_id = ''ns=2;s=Machine'', n_name = ''Machine'', n_parent = ''i=85'',
                         n_initial = None, n_writable = False\<rparr>],
               held = Map.empty, calls = []\<rparr>,
      bindings = []\<rparr>"

definition label_item :: var_item where
  "label_item = item0\<lparr>item_name := Some (PStr ''Label''), item_type := Some (PStr ''string'')\<rparr>"

definition slashed_item :: var_item where
  "slashed_item = item0\<lparr>item_name := Some (PStr ''Running''),
                         item_path := Some (PStr ''Machine//Running'')\<rparr>"

definition plain_item :: var_item where
  "plain_item = item0\<lparr>item_name := Some (PStr ''Running''),
                       item_path := Some (PStr ''Machine/Running'')\<rparr>"

section \<open>Predicates of the statements\<close>

text \<open>What a tick preserves of a binding, and how it moves \<^verbatim>\<open>next_due\<close>.\<close>

definition advanced :: "SimBinding \<Rightarrow> SimBinding \<Rightarrow> bool" where
  "advanced b b' \<longleftrightarrow> same_config b b' \<and> next_due b \<le> next_due b'"

text \<open>The binding's \<^verbatim>\<open>next_due\<close> was assigned, from the binding's interval, when the
  clock read \<open>t\<close> or earlier: by \<^verbatim>\<open>setup\<close> or by a tick.\<close>

definition scheduled :: "int \<Rightarrow> real \<Rightarrow> SimBinding \<Rightarrow> bool" where
  "scheduled d t b \<longleftrightarrow>
     (\<exists>i. interval_of d (simulation b) = Inr i \<and> next_due b \<le> t + of_int i / 1000)"

text \<open>None of the conversions that a tick applies for this binding raises, whatever
  value is read and whatever state the generator is in.\<close>

definition conversions_succeed :: "(pyval \<Rightarrow> string) \<Rightarrow> int \<Rightarrow> SimBinding \<Rightarrow> bool" where
  "conversions_succeed rp d b \<longleftrightarrow>
     (\<exists>i. interval_of d (simulation b) = Inr i \<and>
          (\<forall>env cur b0. same_config b b0 \<longrightarrow>
             (\<exists>v b1 c. generate rp env i b0 cur = Inr (v, b1) \<and> cast rp (dtype b) v = Inr c)))"

section \<open>Basic facts\<close>

lemmas str_defs =
  str_lower_def str_strip_def is_space_def char_lower_def ascii_upper_def ascii_lower_def
  latin_upper_def latin_lower_def str_replace_def str_startswith_def

lemmas num_defs =
  parse_int_def parse_float_def parse_mantissa_def parse_exponent_def split_sign_def
  is_digit_def digit_val_def digits_val_def digits_count_def scale10_def is_exp_char_def
  str_int_def digit_char_def numeral_strip_def is_numeral_space_def

lemma and_then_Inl [simp]: "and_then (Inl e) k = Inl e"
  by (simp add: and_then_def)

lemma and_then_Inr [simp]: "and_then (Inr x) k = k x"
  by (simp add: and_then_def)

lemma and_then_eq_Inr: "and_then m k = Inr y \<longleftrightarrow> (\<exists>x. m = Inr x \<and> k x = Inr y)"
  by (cases m) simp_all

lemma cast_bool_tag: "cast rp ''bool'' v = Inr (PBool (to_bool rp v))"
  by (simp add: cast_def str_defs)

lemma cast_int_tag:
  "cast rp ''int'' v = and_then (py_float v) (\<lambda>f. and_then (float_trunc f) (\<lambda>n. Inr (PInt n)))"
  by (simp add: cast_def str_defs)

lemma cast_float_tag: "cast rp ''float'' v = and_then (py_float v) (\<lambda>f. Inr (PFloat f))"
  by (simp add: cast_def str_defs)

lemma cast_string_tag: "cast rp ''string'' v = Inr (PStr (py_str rp v))"
  by (simp add: cast_def str_defs)

section \<open>Integers as doubles\<close>

lemma round_half_even_of_int: "round_half_even (of_int j) = j"
  by (simp add: round_half_even_def)

lemma round_half_even_bounds:
  "x - 1 / 2 \<le> of_int (round_half_even x) \<and> of_int (round_half_even x) \<le> x + 1 / 2"
proof -
  define f where "f = \<lfloor>x\<rfloor>"
  have fl: "of_int f \<le> x" "x < of_int f + 1" unfolding f_def by linarith+
  have r: "round_half_even x =
             (if x - of_int f < 1 / 2 then f else if 1 / 2 < x - of_int f then f + 1
              else if even f then f else f + 1)"
    by (simp add: round_half_even_def f_def Let_def)
  show ?thesis unfolding r using fl by auto
qed

lemma round_half_even_le: "x \<le> of_int N \<Longrightarrow> round_half_even x \<le> N"
  using round_half_even_bounds[of x] by linarith

lemma round_half_even_ge: "of_int N \<le> x \<Longrightarrow> N \<le> round_half_even x"
  using round_half_even_bounds[of x] by linarith

lemma round_half_even_less: "x < of_int N - 1 / 2 \<Longrightarrow> round_half_even x < N"
  using round_half_even_bounds[of x] by linarith

lemma round_half_even_ge_even:
  assumes "even N" and "of_int N - 1 / 2 \<le> x"
  shows "N \<le> round_half_even x"
proof (cases "x = of_int N - 1 / 2")
  case True
  then have f: "\<lfloor>x\<rfloor> = N - 1" by linarith
  have "odd (N - 1)" using assms(1) by simp
  then show ?thesis using True f by (simp add: round_half_even_def Let_def)
next
  case False
  then have "of_int N - 1 / 2 < x" using assms(2) by simp
  then show ?thesis using round_half_even_bounds[of x] by linarith
qed

lemma log2_floor_of_int: "0 < n \<Longrightarrow> log2_floor (of_int n) = bitlen n - 1"
  by (simp add: log2_floor_def)

text \<open>For an integer the last bit kept has the weight \<open>2 ^ (bitlen \<bar>n\<bar> - 53)\<close>.\<close>

lemma round_double_of_int:
  assumes "n \<noteq> 0"
  shows "round_double (of_int n) =
           (if 2 ^ 1024 \<le> of_int (round_half_even (of_int \<bar>n\<bar> / 2 powi (bitlen \<bar>n\<bar> - 53)))
                              * (2::real) powi (bitlen \<bar>n\<bar> - 53)
            then (if 0 < n then PosInf else NegInf)
            else Fin ((if 0 < n then 1 else - 1) *
                      (of_int (round_half_even (of_int \<bar>n\<bar> / 2 powi (bitlen \<bar>n\<bar> - 53)))
                         * 2 powi (bitlen \<bar>n\<bar> - 53))))"
proof -
  have pos: "0 < \<bar>n\<bar>" using assms by simp
  have "0 \<le> bitlen \<bar>n\<bar>" by (rule bitlen_nonneg)
  then have e: "max (log2_floor (of_int \<bar>n\<bar>) - 52) (- 1074) = bitlen \<bar>n\<bar> - 53"
    using log2_floor_of_int[OF pos] by simp
  have a: "\<bar>of_int n :: real\<bar> = of_int \<bar>n\<bar>" by simp
  show ?thesis
    unfolding round_double_def Let_def a e using assms by simp
qed

lemma bitlen_real_bounds:
  assumes "0 < n"
  shows "(2::real) powi (bitlen n - 1) \<le> of_int n" "of_int n < (2::real) powi (bitlen n)"
proof -
  have b: "2 ^ nat (bitlen n - 1) \<le> n" "n < 2 ^ nat (bitlen n)"
    using bitlen_bounds[OF assms] by simp_all
  have ge: "1 \<le> bitlen n" using assms by (simp add: bitlen_alt_def)
  have "(2::real) powi (bitlen n - 1) = 2 ^ nat (bitlen n - 1)"
    using ge by (simp add: power_int_def)
  also have "\<dots> \<le> of_int n" using b(1) by (metis of_int_le_iff of_int_numeral of_int_power)
  finally show "(2::real) powi (bitlen n - 1) \<le> of_int n" .
  have "of_int n < (2::real) ^ nat (bitlen n)"
    using b(2) by (metis of_int_less_iff of_int_numeral of_int_power)
  also have "\<dots> = 2 powi (bitlen n)" using ge by (simp add: power_int_def)
  finally show "of_int n < (2::real) powi (bitlen n)" .
qed

text \<open>An integer of magnitude at most \<open>2 ^ 53\<close> is a double.\<close>

lemma magnitude_exact:
  assumes "0 < n" and "n \<le> 2 ^ 53"
  shows "of_int (round_half_even (of_int n / 2 powi (bitlen n - 53))) * (2::real) powi (bitlen n - 53)
           = of_int n"
proof (cases "n = 2 ^ 53")
  case True
  have b: "bitlen ((2::int) ^ 53) = 54" using bitlen_twopow_add_eq[of 0 53] by simp
  show ?thesis unfolding True b by (simp add: round_half_even_def)
next
  case False
  then have lt: "n < 2 ^ 53" using assms(2) by simp
  have "bitlen n \<le> 53" using lt by (simp add: bitlen_le_iff_power)
  moreover have "1 \<le> bitlen n" using assms(1) by (simp add: bitlen_alt_def)
  ultimately obtain k :: nat where k: "bitlen n - 53 = - int k"
    by (metis add.inverse_inverse diff_le_0_iff_le neg_0_le_iff_le zero_le_imp_eq_int)
  have p: "(2::real) powi (- int k) = 1 / 2 ^ k"
    by (simp add: power_int_minus divide_inverse)
  have "of_int n / (2::real) powi (bitlen n - 53) = of_int (n * 2 ^ k)"
    unfolding k p by simp
  then have "round_half_even (of_int n / (2::real) powi (bitlen n - 53)) = n * 2 ^ k"
    by (simp only: round_half_even_of_int)
  then show ?thesis unfolding k p by simp
qed

text \<open>The largest double is \<open>2 ^ 1024 - 2 ^ 971\<close>; the integers up to halfway to
  \<open>2 ^ 1024\<close> round down to it, those from \<open>2 ^ 1024 - 2 ^ 970\<close> on round to
  \<open>2 ^ 1024\<close>.\<close>

lemma magnitude_finite:
  assumes "0 < n" and "n < 2 ^ 1024 - 2 ^ 970"
  shows "of_int (round_half_even (of_int n / 2 powi (bitlen n - 53))) * (2::real) powi (bitlen n - 53)
           < 2 ^ 1024"
proof -
  let ?e = "bitlen n - 53"
  let ?q = "of_int n / (2::real) powi ?e"
  have pe: "0 < (2::real) powi ?e" by simp
  have "n < 2 ^ 1024" using assms(2) by simp
  then have le: "bitlen n \<le> 1024" by (simp add: bitlen_le_iff_power)
  show ?thesis
  proof (cases "bitlen n = 1024")
    case True
    then have e: "?e = 971" by simp
    have "(of_int n :: real) < of_int (2 ^ 1024 - 2 ^ 970)" using assms(2) by (simp only: of_int_less_iff)
    then have "(of_int n :: real) < (2 ^ 53 - 1 / 2) * 2 ^ 971" by simp
    then have "?q < of_int (2 ^ 53) - 1 / 2"
      unfolding e by (simp add: field_simps)
    then have "round_half_even ?q < 2 ^ 53" by (rule round_half_even_less)
    then have "round_half_even ?q \<le> 2 ^ 53 - 1" by simp
    then have "(of_int (round_half_even ?q) :: real) \<le> of_int (2 ^ 53 - 1)" by (simp only: of_int_le_iff)
    then have "of_int (round_half_even ?q) * (2::real) powi ?e \<le> of_int (2 ^ 53 - 1) * 2 powi ?e"
      using pe by (simp only: mult_le_cancel_right_pos)
    also have "\<dots> < 2 ^ 1024" unfolding e by simp
    finally show ?thesis .
  next
    case False
    then have le': "bitlen n \<le> 1023" using le by simp
    have "of_int n < (2::real) powi (bitlen n)" using assms(1) by (rule bitlen_real_bounds)
    also have "\<dots> = 2 ^ 53 * 2 powi ?e"
      using power_int_add[of "2::real" 53 ?e] by simp
    finally have "?q < 2 ^ 53" using pe by (simp add: field_simps)
    then have "?q \<le> of_int (2 ^ 53)" by simp
    then have "round_half_even ?q \<le> 2 ^ 53" by (rule round_half_even_le)
    then have "(of_int (round_half_even ?q) :: real) \<le> of_int (2 ^ 53)" by (simp only: of_int_le_iff)
    then have "of_int (round_half_even ?q) * (2::real) powi ?e \<le> of_int (2 ^ 53) * 2 powi ?e"
      using pe by (simp only: mult_le_cancel_right_pos)
    also have "\<dots> = 2 powi (bitlen n)"
      using power_int_add[of "2::real" 53 ?e] by simp
    also have "\<dots> \<le> 2 powi 1023"
      using power_int_increasing[of "bitlen n" 1023 "2::real"] le' by simp
    also have "\<dots> < 2 ^ 1024" by simp
    finally show ?thesis .
  qed
qed

lemma magnitude_overflow:
  assumes "2 ^ 1024 - 2 ^ 970 \<le> n"
  shows "2 ^ 1024 \<le>
           of_int (round_half_even (of_int n / 2 powi (bitlen n - 53))) * (2::real) powi (bitlen n - 53)"
proof -
  let ?e = "bitlen n - 53"
  let ?q = "of_int n / (2::real) powi ?e"
  have pe: "0 < (2::real) powi ?e" by simp
  have pos: "0 < n" using assms by simp
  have "(2::int) ^ 1023 \<le> n" using assms by simp
  then have ge: "1024 \<le> bitlen n" by (simp add: bitlen_ge_iff_power)
  show ?thesis
  proof (cases "bitlen n = 1024")
    case True
    then have e: "?e = 971" by simp
    have "(of_int (2 ^ 1024 - 2 ^ 970) :: real) \<le> of_int n" using assms by (simp only: of_int_le_iff)
    then have "(2 ^ 53 - 1 / 2) * 2 ^ 971 \<le> (of_int n :: real)" by simp
    then have "of_int (2 ^ 53) - 1 / 2 \<le> ?q"
      unfolding e by (simp add: field_simps)
    then have "2 ^ 53 \<le> round_half_even ?q"
      by (rule round_half_even_ge_even[rotated]) simp
    then have "(of_int (2 ^ 53) :: real) \<le> of_int (round_half_even ?q)" by (simp only: of_int_le_iff)
    then have "of_int (2 ^ 53) * (2::real) powi ?e \<le> of_int (round_half_even ?q) * 2 powi ?e"
      using pe by (simp only: mult_le_cancel_right_pos)
    then show ?thesis unfolding e by simp
  next
    case False
    then have ge': "1025 \<le> bitlen n" using ge by simp
    have "(2::real) powi (bitlen n - 1) \<le> of_int n" using pos by (rule bitlen_real_bounds)
    moreover have "(2::real) powi (bitlen n - 1) = 2 ^ 52 * 2 powi ?e"
      using power_int_add[of "2::real" 52 ?e] by simp
    ultimately have "of_int (2 ^ 52) \<le> ?q" using pe by (simp add: field_simps)
    then have "2 ^ 52 \<le> round_half_even ?q" by (rule round_half_even_ge)
    then have "(of_int (2 ^ 52) :: real) \<le> of_int (round_half_even ?q)" by (simp only: of_int_le_iff)
    then have last: "of_int (2 ^ 52) * (2::real) powi ?e \<le> of_int (round_half_even ?q) * 2 powi ?e"
      using pe by (simp only: mult_le_cancel_right_pos)
    have "(2::real) ^ 1024 = 2 powi 1024" by simp
    also have "\<dots> \<le> 2 powi (bitlen n - 1)"
      using power_int_increasing[of 1024 "bitlen n - 1" "2::real"] ge' by simp
    also have "\<dots> = of_int (2 ^ 52) * 2 powi ?e"
      using power_int_add[of "2::real" 52 ?e] by simp
    also note last
    finally show ?thesis .
  qed
qed

lemma round_double_int_exact:
  assumes "\<bar>n\<bar> \<le> 2 ^ 53"
  shows "round_double (of_int n) = Fin (of_int n)"
proof (cases "n = 0")
  case True
  then show ?thesis by (simp add: round_double_def)
next
  case False
  then have pos: "0 < \<bar>n\<bar>" by simp
  have m: "of_int (round_half_even (of_int \<bar>n\<bar> / 2 powi (bitlen \<bar>n\<bar> - 53)))
             * (2::real) powi (bitlen \<bar>n\<bar> - 53) = of_int \<bar>n\<bar>"
    using pos assms by (rule magnitude_exact)
  have "(of_int \<bar>n\<bar> :: real) \<le> of_int (2 ^ 53)" using assms by (simp only: of_int_le_iff)
  then have "(of_int \<bar>n\<bar> :: real) < 2 ^ 1024" by simp
  then show ?thesis
    unfolding round_double_of_int[OF False] m by auto
qed

lemma round_double_int_finite:
  assumes "\<bar>n\<bar> < 2 ^ 1024 - 2 ^ 970"
  shows "\<exists>r. round_double (of_int n) = Fin r"
proof (cases "n = 0")
  case True
  then show ?thesis by (simp add: round_double_def)
next
  case False
  then have pos: "0 < \<bar>n\<bar>" by simp
  have "of_int (round_half_even (of_int \<bar>n\<bar> / 2 powi (bitlen \<bar>n\<bar> - 53)))
             * (2::real) powi (bitlen \<bar>n\<bar> - 53) < 2 ^ 1024"
    using pos assms by (rule magnitude_finite)
  then show ?thesis
    unfolding round_double_of_int[OF False] by simp
qed

lemma round_double_int_overflow:
  assumes "2 ^ 1024 - 2 ^ 970 \<le> \<bar>n\<bar>"
  shows "round_double (of_int n) = (if 0 < n then PosInf else NegInf)"
proof -
  have nz: "n \<noteq> 0" using assms by auto
  have "2 ^ 1024 \<le> of_int (round_half_even (of_int \<bar>n\<bar> / 2 powi (bitlen \<bar>n\<bar> - 53)))
             * (2::real) powi (bitlen \<bar>n\<bar> - 53)"
    using assms by (rule magnitude_overflow)
  then show ?thesis
    unfolding round_double_of_int[OF nz] by simp
qed

lemma float_of_int_exact: "\<bar>n\<bar> \<le> 2 ^ 53 \<Longrightarrow> float_of_int n = Inr (Fin (of_int n))"
  by (simp add: float_of_int_def round_double_int_exact)

lemma float_of_int_finite:
  assumes "\<bar>n\<bar> < 2 ^ 1024 - 2 ^ 970"
  shows "\<exists>r. float_of_int n = Inr (Fin r)"
  using round_double_int_finite[OF assms] by (auto simp: float_of_int_def)

lemma float_of_int_overflow:
  assumes "2 ^ 1024 - 2 ^ 970 \<le> \<bar>n\<bar>"
  shows "float_of_int n = Inl OverflowError"
  using round_double_int_overflow[OF assms] by (simp add: float_of_int_def)

lemma float_of_int_0 [simp]: "float_of_int 0 = Inr (Fin 0)"
  using float_of_int_exact[of 0] by simp

lemma float_of_int_cases:
  "(\<exists>r. float_of_int n = Inr (Fin r)) \<or> float_of_int n = Inl OverflowError"
  by (cases "round_double (of_int n)") (simp_all add: float_of_int_def)

text \<open>\<open>2 ^ 53 + 1\<close> lies halfway between two doubles and rounds to the even one; so does
  \<open>1 + 2 ^ -53\<close>, and \<open>1 + 2 ^ -60\<close> is nearer to 1 than to the next double.\<close>

lemma round_double_examples:
  "round_double 9007199254740993 = Fin 9007199254740992"
  "round_double (1 + 1 / 2 ^ 60) = Fin 1"
  by code_simp+

section \<open>Type coercion: what returns and what raises\<close>

lemma cast_int_of_int:
  "cast rp ''int'' (PInt n) =
     and_then (float_of_int n) (\<lambda>f. and_then (float_trunc f) (\<lambda>m. Inr (PInt m)))"
  "cast rp ''float'' (PInt n) = and_then (float_of_int n) (\<lambda>f. Inr (PFloat f))"
  by (simp_all add: cast_int_tag cast_float_tag)

lemma cast_small_int:
  assumes "\<bar>n\<bar> \<le> 2 ^ 53"
  shows "cast rp ''int'' (PInt n) = Inr (PInt n)"
    and "cast rp ''float'' (PInt n) = Inr (PFloat (Fin (of_int n)))"
  by (simp_all add: cast_int_of_int float_of_int_exact[OF assms])

lemma cast_int_in_range:
  assumes "\<bar>n\<bar> < 2 ^ 1024 - 2 ^ 970"
  shows "\<exists>m. cast rp ''int'' (PInt n) = Inr (PInt m)"
    and "\<exists>r. cast rp ''float'' (PInt n) = Inr (PFloat (Fin r))"
proof -
  obtain r where r: "float_of_int n = Inr (Fin r)"
    using float_of_int_finite[OF assms] by blast
  show "\<exists>m. cast rp ''int'' (PInt n) = Inr (PInt m)"
    by (simp add: cast_int_of_int r)
  show "\<exists>r. cast rp ''float'' (PInt n) = Inr (PFloat (Fin r))"
    by (simp add: cast_int_of_int r)
qed

lemma cast_int_out_of_range:
  assumes "2 ^ 1024 - 2 ^ 970 \<le> \<bar>n\<bar>"
  shows "cast rp ''int'' (PInt n) = Inl OverflowError"
    and "cast rp ''float'' (PInt n) = Inl OverflowError"
  by (simp_all add: cast_int_of_int float_of_int_overflow[OF assms])

text \<open>What \<^verbatim>\<open>int()\<close> and \<^verbatim>\<open>float()\<close> accept around a numeral: the separator 0x1C is
  not blank for them, the no-break space 0xA0 is; a decimal beyond the range of a double
  is an infinity.\<close>

lemma numeral_text_examples:
  "parse_float [CHR 0x1C, CHR ''5''] = Inl ValueError"
  "parse_int [CHR 0x1C, CHR ''5''] = Inl ValueError"
  "parse_float [CHR 0xA0, CHR ''5''] = Inr (Fin 5)"
  "parse_int [CHR 0xA0, CHR ''5''] = Inr 5"
  "parse_float ''1e309'' = Inr PosInf"
proof -
  show "parse_float [CHR 0x1C, CHR ''5''] = Inl ValueError"
    by (simp add: num_defs str_defs)
  show "parse_int [CHR 0x1C, CHR ''5''] = Inl ValueError"
    by (simp add: num_defs str_defs)
  show "parse_float [CHR 0xA0, CHR ''5''] = Inr (Fin 5)"
    using round_double_int_exact[of 5] by (simp add: num_defs str_defs)
  show "parse_int [CHR 0xA0, CHR ''5''] = Inr 5"
    by (simp add: num_defs str_defs)
  have "round_double (of_int (10 ^ 309)) = PosInf"
    by (subst round_double_int_overflow) simp_all
  then show "parse_float ''1e309'' = Inr PosInf"
    by (simp add: num_defs str_defs)
qed

text \<open>
  C3, as amended. Coercion to bool and to string returns a value for every raw value,
  and a string that is not one of the four true words becomes false. Coercion to int
  and to float returns a value for every boolean, every finite float and every integer
  \<open>n\<close> with \<open>\<bar>n\<bar> < 2 ^ 1024 - 2 ^ 970\<close>, the integers that round to a finite double (an
  integer with \<open>\<bar>n\<bar> \<le> 2 ^ 53\<close> converts exactly); coercion to float also for an infinity,
  for nan and for every string that spells a float, coercion to int for every string
  that spells a finite float. They raise otherwise: \<^verbatim>\<open>OverflowError\<close> for the other integers,
  \<^verbatim>\<open>TypeError\<close> for \<^verbatim>\<open>None\<close> and for a list, \<^verbatim>\<open>ValueError\<close> for a string that
  does not spell a number, and, to int, \<^verbatim>\<open>ValueError\<close> for nan and
  \<^verbatim>\<open>OverflowError\<close> for an infinity.
\<close>

theorem cast_returns_or_raises:
  "cast rp ''bool'' v = Inr (PBool (to_bool rp v)) \<and>
   cast rp ''string'' v = Inr (PStr (py_str rp v)) \<and>
   (str_lower (str_strip s) \<notin> {''1'', ''true'', ''yes'', ''on''}
      \<longrightarrow> cast rp ''bool'' (PStr s) = Inr (PBool False)) \<and>
   cast rp ''int'' (PBool b) = Inr (PInt (if b then 1 else 0)) \<and>
   cast rp ''float'' (PBool b) = Inr (PFloat (Fin (if b then 1 else 0))) \<and>
   (\<bar>n\<bar> \<le> 2 ^ 53
      \<longrightarrow> cast rp ''int'' (PInt n) = Inr (PInt n) \<and>
          cast rp ''float'' (PInt n) = Inr (PFloat (Fin (of_int n)))) \<and>
   (\<bar>n\<bar> < 2 ^ 1024 - 2 ^ 970
      \<longrightarrow> (\<exists>m. cast rp ''int'' (PInt n) = Inr (PInt m)) \<and>
          (\<exists>r. cast rp ''float'' (PInt n) = Inr (PFloat (Fin r)))) \<and>
   (2 ^ 1024 - 2 ^ 970 \<le> \<bar>n\<bar>
      \<longrightarrow> cast rp ''int'' (PInt n) = Inl OverflowError \<and>
          cast rp ''float'' (PInt n) = Inl OverflowError) \<and>
   cast rp ''int'' (PFloat (Fin r)) = Inr (PInt (if 0 \<le> r then \<lfloor>r\<rfloor> else \<lceil>r\<rceil>)) \<and>
   cast rp ''float'' (PFloat f) = Inr (PFloat f) \<and>
   cast rp ''int'' PNone = Inl TypeError \<and>
   cast rp ''float'' PNone = Inl TypeError \<and>
   cast rp ''int'' (PList xs) = Inl TypeError \<and>
   cast rp ''float'' (PList xs) = Inl TypeError \<and>
   (parse_float s = Inl ValueError
      \<longrightarrow> cast rp ''int'' (PStr s) = Inl ValueError \<and> cast rp ''float'' (PStr s) = Inl ValueError) \<and>
   (parse_float s = Inr f \<longrightarrow> cast rp ''float'' (PStr s) = Inr (PFloat f)) \<and>
   (parse_float s = Inr (Fin r)
      \<longrightarrow> cast rp ''int'' (PStr s) = Inr (PInt (if 0 \<le> r then \<lfloor>r\<rfloor> else \<lceil>r\<rceil>))) \<and>
   cast rp ''int'' (PFloat NaN) = Inl ValueError \<and>
   cast rp ''int'' (PFloat PosInf) = Inl OverflowError \<and>
   cast rp ''int'' (PFloat NegInf) = Inl OverflowError"
proof -
  have int_b: "cast rp ''int'' (PBool b) = Inr (PInt (if b then 1 else 0))"
    by (cases b) (simp_all add: cast_int_tag)
  have flt_b: "cast rp ''float'' (PBool b) = Inr (PFloat (Fin (if b then 1 else 0)))"
    by (simp add: cast_float_tag)
  have small: "\<bar>n\<bar> \<le> 2 ^ 53
      \<longrightarrow> cast rp ''int'' (PInt n) = Inr (PInt n) \<and>
          cast rp ''float'' (PInt n) = Inr (PFloat (Fin (of_int n)))"
    using cast_small_int[of n rp] by blast
  have inside: "\<bar>n\<bar> < 2 ^ 1024 - 2 ^ 970
      \<longrightarrow> (\<exists>m. cast rp ''int'' (PInt n) = Inr (PInt m)) \<and>
          (\<exists>r. cast rp ''float'' (PInt n) = Inr (PFloat (Fin r)))"
    using cast_int_in_range[of n rp] by blast
  have outside: "2 ^ 1024 - 2 ^ 970 \<le> \<bar>n\<bar>
      \<longrightarrow> cast rp ''int'' (PInt n) = Inl OverflowError \<and>
          cast rp ''float'' (PInt n) = Inl OverflowError"
    using cast_int_out_of_range[of n rp] by blast
  have int_r: "cast rp ''int'' (PFloat (Fin r)) = Inr (PInt (if 0 \<le> r then \<lfloor>r\<rfloor> else \<lceil>r\<rceil>))"
    by (simp add: cast_int_tag)
  have flt_f: "cast rp ''float'' (PFloat f) = Inr (PFloat f)"
    by (simp add: cast_float_tag)
  have none: "cast rp ''int'' PNone = Inl TypeError" "cast rp ''float'' PNone = Inl TypeError"
    "cast rp ''int'' (PList xs) = Inl TypeError" "cast rp ''float'' (PList xs) = Inl TypeError"
    by (simp_all add: cast_int_tag cast_float_tag)
  have special: "cast rp ''int'' (PFloat NaN) = Inl ValueError"
    "cast rp ''int'' (PFloat PosInf) = Inl OverflowError"
    "cast rp ''int'' (PFloat NegInf) = Inl OverflowError"
    by (simp_all add: cast_int_tag)
  have str: "parse_float s = Inl ValueError
      \<longrightarrow> cast rp ''int'' (PStr s) = Inl ValueError \<and> cast rp ''float'' (PStr s) = Inl ValueError"
    by (simp add: cast_int_tag cast_float_tag)
  have str_ok: "parse_float s = Inr f \<longrightarrow> cast rp ''float'' (PStr s) = Inr (PFloat f)"
    by (simp add: cast_float_tag)
  have str_int: "parse_float s = Inr (Fin r)
      \<longrightarrow> cast rp ''int'' (PStr s) = Inr (PInt (if 0 \<le> r then \<lfloor>r\<rfloor> else \<lceil>r\<rceil>))"
    by (simp add: cast_int_tag)
  have word: "str_lower (str_strip s) \<notin> {''1'', ''true'', ''yes'', ''on''}
      \<longrightarrow> cast rp ''bool'' (PStr s) = Inr (PBool False)"
    by (simp add: cast_bool_tag)
  show ?thesis
    by (intro conjI cast_bool_tag cast_string_tag word int_b flt_b small inside outside int_r
        flt_f none str str_ok str_int special)
qed

theorem cast_returns_or_raises_witness:
  "str_lower (str_strip ''maybe'') \<notin> {''1'', ''true'', ''yes'', ''on''} \<and>
   cast plain_repr ''bool'' (PStr ''maybe'') = Inr (PBool False) \<and>
   parse_float ''maybe'' = Inl ValueError \<and>
   cast plain_repr ''int'' (PStr ''maybe'') = Inl ValueError \<and>
   cast plain_repr ''float'' (PStr ''maybe'') = Inl ValueError \<and>
   \<bar>3000 :: int\<bar> \<le> 2 ^ 53 \<and>
   \<bar>3000 :: int\<bar> < 2 ^ 1024 - 2 ^ 970 \<and>
   cast plain_repr ''int'' (PInt 3000) = Inr (PInt 3000) \<and>
   cast plain_repr ''float'' (PInt 3000) = Inr (PFloat (Fin 3000)) \<and>
   2 ^ 1024 - 2 ^ 970 \<le> \<bar>2 ^ 1024 :: int\<bar> \<and>
   cast plain_repr ''int'' (PInt (2 ^ 1024)) = Inl OverflowError \<and>
   cast plain_repr ''float'' (PInt (2 ^ 1024)) = Inl OverflowError \<and>
   parse_float ''1e309'' = Inr PosInf \<and>
   cast plain_repr ''float'' (PStr ''1e309'') = Inr (PFloat PosInf) \<and>
   parse_float [CHR 0xA0, CHR ''5''] = Inr (Fin 5) \<and>
   cast plain_repr ''int'' (PStr [CHR 0xA0, CHR ''5'']) = Inr (PInt 5)"
proof -
  have word: "str_lower (str_strip ''maybe'') \<notin> {''1'', ''true'', ''yes'', ''on''}"
    by (simp add: str_defs)
  have num: "parse_float ''maybe'' = Inl ValueError"
    by (simp add: num_defs str_defs)
  have small: "\<bar>3000 :: int\<bar> \<le> 2 ^ 53" "\<bar>3000 :: int\<bar> < 2 ^ 1024 - 2 ^ 970" by simp_all
  have big: "2 ^ 1024 - 2 ^ 970 \<le> \<bar>2 ^ 1024 :: int\<bar>" by simp
  have inf: "parse_float ''1e309'' = Inr PosInf" by (rule numeral_text_examples)
  have a: "cast plain_repr ''bool'' (PStr ''maybe'') = Inr (PBool False) \<and>
           cast plain_repr ''int'' (PStr ''maybe'') = Inl ValueError \<and>
           cast plain_repr ''float'' (PStr ''maybe'') = Inl ValueError \<and>
           cast plain_repr ''int'' (PInt 3000) = Inr (PInt 3000) \<and>
           cast plain_repr ''float'' (PInt 3000) = Inr (PFloat (Fin (of_int 3000)))"
    using word num small
      cast_returns_or_raises[of plain_repr PNone "''maybe''" True 3000 0 NaN "[]"]
    by blast
  have b: "cast plain_repr ''int'' (PInt (2 ^ 1024)) = Inl OverflowError \<and>
           cast plain_repr ''float'' (PInt (2 ^ 1024)) = Inl OverflowError \<and>
           cast plain_repr ''float'' (PStr ''1e309'') = Inr (PFloat PosInf)"
    using big inf
      cast_returns_or_raises[of plain_repr PNone "''1e309''" True "2 ^ 1024" 0 PosInf "[]"]
    by blast
  have five: "parse_float [CHR 0xA0, CHR ''5''] = Inr (Fin 5)" by (rule numeral_text_examples)
  have c: "cast plain_repr ''int'' (PStr [CHR 0xA0, CHR ''5'']) =
             Inr (PInt (if 0 \<le> (5::real) then \<lfloor>5::real\<rfloor> else \<lceil>5::real\<rceil>))"
    using five
      cast_returns_or_raises[of plain_repr PNone "[CHR 0xA0, CHR ''5'']" True 0 5 "Fin 5" "[]"]
    by blast
  then have c': "cast plain_repr ''int'' (PStr [CHR 0xA0, CHR ''5'']) = Inr (PInt 5)" by simp
  show ?thesis using word num small big inf a b five c' by simp
qed

text \<open>C3 as stated fails: \<^verbatim>\<open>_cast("int", "abc")\<close> raises \<^verbatim>\<open>ValueError\<close>, from
  \<^verbatim>\<open>float("abc")\<close>.\<close>

theorem cast_int_of_word_raises:
  "cast plain_repr ''int'' (PStr ''abc'') = Inl ValueError"
  by (simp add: cast_int_tag num_defs str_defs)

section \<open>One binding in one tick\<close>

lemma gen_sine_shape:
  "gen_sine i b = Inr (v, b1) \<Longrightarrow> \<exists>ph. b1 = b\<lparr>phase := ph\<rparr>"
  by (auto simp: gen_sine_def and_then_eq_Inr Let_def)

lemma gen_cycle_shape:
  "gen_cycle b cur = (v, b1) \<Longrightarrow> b1 = b \<or> (\<exists>ci. b1 = b\<lparr>cycle_index := ci\<rparr>)"
  by (auto simp: gen_cycle_def Let_def split: pyval.splits if_splits)

lemma generate_shape:
  assumes "generate rp env i b cur = Inr (v, b1)"
  shows "\<exists>ci ph. b1 = b\<lparr>cycle_index := ci, phase := ph\<rparr>"
proof -
  define m where "m = mode_of rp (simulation b)"
  have same: "b1 = b \<Longrightarrow> ?thesis"
  proof -
    assume "b1 = b"
    then have "b1 = b\<lparr>cycle_index := cycle_index b, phase := phase b\<rparr>" by simp
    then show ?thesis by blast
  qed
  consider (toggle) "m = ''toggle''" | (walk) "m = ''random_walk''"
    | (choice) "m = ''random_choice''" | (cycle) "m = ''cycle''" | (ramp) "m = ''ramp''"
    | (sine) "m = ''sine''"
    | (other) "m \<noteq> ''toggle''" "m \<noteq> ''random_walk''" "m \<noteq> ''random_choice''"
        "m \<noteq> ''cycle''" "m \<noteq> ''ramp''" "m \<noteq> ''sine''"
    by blast
  then show ?thesis
  proof cases
    case toggle
    then have "b1 = b" using assms by (simp add: generate_def m_def)
    then show ?thesis by (rule same)
  next
    case walk
    then have "b1 = b" using assms by (auto simp: generate_def m_def and_then_eq_Inr)
    then show ?thesis by (rule same)
  next
    case choice
    then have "b1 = b" using assms by (simp add: generate_def m_def)
    then show ?thesis by (rule same)
  next
    case cycle
    then have "gen_cycle b cur = (v, b1)" using assms by (simp add: generate_def m_def)
    then consider "b1 = b" | ci where "b1 = b\<lparr>cycle_index := ci\<rparr>"
      using gen_cycle_shape by blast
    then show ?thesis
    proof cases
      case 1
      then show ?thesis by (rule same)
    next
      case 2
      then have "b1 = b\<lparr>cycle_index := ci, phase := phase b\<rparr>" by simp
      then show ?thesis by blast
    qed
  next
    case ramp
    then have "b1 = b" using assms by (auto simp: generate_def m_def and_then_eq_Inr)
    then show ?thesis by (rule same)
  next
    case sine
    then have "gen_sine i b = Inr (v, b1)" using assms by (simp add: generate_def m_def)
    then obtain ph where "b1 = b\<lparr>phase := ph\<rparr>" using gen_sine_shape by blast
    then have "b1 = b\<lparr>cycle_index := cycle_index b, phase := ph\<rparr>" by simp
    then show ?thesis by blast
  next
    case other
    then have "b1 = b" using assms by (simp add: generate_def m_def)
    then show ?thesis by (rule same)
  qed
qed

lemma generate_same_config:
  "generate rp env i b cur = Inr (v, b1) \<Longrightarrow> same_config b b1"
  by (drule generate_shape) (auto simp: same_config_def)

lemma tick_binding_not_due:
  assumes "interval_of d (simulation b) = Inr i" and "now < next_due b"
  shows "tick_binding rp d now env (b, sub) = Inr (b, sub)"
  using assms by (simp add: tick_binding_def)

lemma tick_binding_read_failed:
  assumes "interval_of d (simulation b) = Inr i" and "\<not> now < next_due b"
    and "read_fails env \<or> held sub (node b) = None"
  shows "tick_binding rp d now env (b, sub) =
           Inr (b, sub\<lparr>calls := calls sub @ [ReadValue (node b)]\<rparr>)"
  using assms by (auto simp: tick_binding_def read_value_def)

lemma tick_binding_written:
  assumes "interval_of d (simulation b) = Inr i" and "\<not> now < next_due b"
    and "\<not> read_fails env" and "held sub (node b) = Some cur"
    and "generate rp env i b cur = Inr (v, b1)" and "cast rp (dtype b) v = Inr c"
  shows "tick_binding rp d now env (b, sub) =
           Inr (b1\<lparr>next_due := now + of_int i / 1000\<rparr>,
                write_value env (sub\<lparr>calls := calls sub @ [ReadValue (node b)]\<rparr>) (node b) c)"
proof -
  have "same_config b b1" using assms(5) by (rule generate_same_config)
  then have "dtype b1 = dtype b" "node b1 = node b" by (simp_all add: same_config_def)
  then show ?thesis using assms by (simp add: tick_binding_def read_value_def)
qed

lemma tick_binding_no_interval:
  "interval_of d (simulation b) = Inl e \<Longrightarrow> tick_binding rp d now env (b, sub) = Inl e"
  by (simp add: tick_binding_def)

lemma tick_binding_generate_raised:
  assumes "interval_of d (simulation b) = Inr i" and "\<not> now < next_due b"
    and "\<not> read_fails env" and "held sub (node b) = Some cur"
    and "generate rp env i b cur = Inl e"
  shows "tick_binding rp d now env (b, sub) = Inl e"
  using assms by (simp add: tick_binding_def read_value_def)

lemma tick_binding_cast_raised:
  assumes "interval_of d (simulation b) = Inr i" and "\<not> now < next_due b"
    and "\<not> read_fails env" and "held sub (node b) = Some cur"
    and "generate rp env i b cur = Inr (v, b1)" and "cast rp (dtype b) v = Inl e"
  shows "tick_binding rp d now env (b, sub) = Inl e"
proof -
  have "same_config b b1" using assms(5) by (rule generate_same_config)
  then have "dtype b1 = dtype b" by (simp add: same_config_def)
  then show ?thesis using assms by (simp add: tick_binding_def read_value_def)
qed

text \<open>Every way in which the loop body returns normally.\<close>

lemma tick_binding_cases:
  assumes "tick_binding rp d now env (b, sub) = Inr (b', sub')"
  obtains
    (not_due) i where "interval_of d (simulation b) = Inr i" "now < next_due b" "b' = b" "sub' = sub"
  | (read_failed) i where "interval_of d (simulation b) = Inr i" "\<not> now < next_due b"
      "read_fails env \<or> held sub (node b) = None"
      "b' = b" "sub' = sub\<lparr>calls := calls sub @ [ReadValue (node b)]\<rparr>"
  | (written) i cur v b1 c where "interval_of d (simulation b) = Inr i" "\<not> now < next_due b"
      "\<not> read_fails env" "held sub (node b) = Some cur"
      "generate rp env i b cur = Inr (v, b1)" "cast rp (dtype b) v = Inr c"
      "b' = b1\<lparr>next_due := now + of_int i / 1000\<rparr>"
      "sub' = write_value env (sub\<lparr>calls := calls sub @ [ReadValue (node b)]\<rparr>) (node b) c"
proof -
  obtain i where i: "interval_of d (simulation b) = Inr i"
  proof (cases "interval_of d (simulation b)")
    case (Inl e)
    then show ?thesis using assms tick_binding_no_interval[of d b e rp now env sub] by simp
  next
    case (Inr i)
    then show ?thesis using that by simp
  qed
  show ?thesis
  proof (cases "now < next_due b")
    case True
    have "tick_binding rp d now env (b, sub) = Inr (b, sub)"
      using i True by (rule tick_binding_not_due)
    then show ?thesis using assms not_due[OF i True] by simp
  next
    case due: False
    show ?thesis
    proof (cases "read_fails env \<or> held sub (node b) = None")
      case True
      have "tick_binding rp d now env (b, sub) =
              Inr (b, sub\<lparr>calls := calls sub @ [ReadValue (node b)]\<rparr>)"
        using i due True by (rule tick_binding_read_failed)
      then show ?thesis using assms read_failed[OF i due True] by simp
    next
      case False
      then obtain cur where cur: "\<not> read_fails env" "held sub (node b) = Some cur" by auto
      show ?thesis
      proof (cases "generate rp env i b cur")
        case (Inl e)
        then show ?thesis
          using assms tick_binding_generate_raised[OF i due cur, of rp e] by simp
      next
        case (Inr r)
        obtain v b1 where r: "r = (v, b1)" by (cases r)
        have g: "generate rp env i b cur = Inr (v, b1)" using Inr r by simp
        show ?thesis
        proof (cases "cast rp (dtype b) v")
          case (Inl e)
          then show ?thesis
            using assms tick_binding_cast_raised[OF i due cur g, of e] by simp
        next
          case c: (Inr c)
          have "tick_binding rp d now env (b, sub) =
                  Inr (b1\<lparr>next_due := now + of_int i / 1000\<rparr>,
                       write_value env (sub\<lparr>calls := calls sub @ [ReadValue (node b)]\<rparr>) (node b) c)"
            using i due cur g c by (rule tick_binding_written)
          then show ?thesis using assms written[OF i due cur g c] by simp
        qed
      qed
    qed
  qed
qed

lemma tick_binding_same_config:
  assumes "tick_binding rp d now env (b, sub) = Inr (b', sub')"
  shows "same_config b b'"
  using assms
proof (cases rule: tick_binding_cases)
  case (written i cur v b1 c)
  then show ?thesis using generate_same_config[of rp env i b cur v b1] by (simp add: same_config_def)
qed (simp_all add: same_config_def)

lemma tick_binding_reads_when_due:
  assumes "tick_binding rp d now env (b, sub) = Inr (b', sub')" and "\<not> now < next_due b"
  shows "\<exists>rest. calls sub' = calls sub @ ReadValue (node b) # rest"
  using assms(1)
proof (cases rule: tick_binding_cases)
  case (not_due i)
  then show ?thesis using assms(2) by simp
next
  case (read_failed i)
  then show ?thesis by simp
next
  case (written i cur v b1 c)
  then show ?thesis by (simp add: write_value_def)
qed

section \<open>A failed read\<close>

text \<open>
  C4. A due binding whose read fails is left as it was: \<^verbatim>\<open>next_due\<close>,
  \<^verbatim>\<open>cycle_index\<close> and \<^verbatim>\<open>phase\<close> keep their values, the node keeps its value, and
  the only call made is the read, so no write is issued. The binding is therefore due
  at every later clock reading, and the next tick reads the node again. (The interval
  is converted before the read, so a tick that reaches the read has an interval.)
\<close>

theorem read_failure_changes_nothing:
  assumes "interval_of d (simulation b) = Inr i"
    and "\<not> now < next_due b"
    and "read_fails env"
  shows "tick_binding rp d now env (b, sub) =
           Inr (b, sub\<lparr>calls := calls sub @ [ReadValue (node b)]\<rparr>) \<and>
         (\<forall>now' env' b2 sub2. now \<le> now' \<longrightarrow>
            tick_binding rp d now' env' (b, sub\<lparr>calls := calls sub @ [ReadValue (node b)]\<rparr>)
              = Inr (b2, sub2) \<longrightarrow>
            \<not> now' < next_due b \<and>
            (\<exists>rest. calls sub2 = calls sub @ [ReadValue (node b)] @ ReadValue (node b) # rest))"
proof (intro conjI allI impI)
  show "tick_binding rp d now env (b, sub) =
          Inr (b, sub\<lparr>calls := calls sub @ [ReadValue (node b)]\<rparr>)"
    using assms by (simp add: tick_binding_read_failed)
next
  fix now' :: real and env' b2 sub2
  assume later: "now \<le> now'"
    and next_tick: "tick_binding rp d now' env' (b, sub\<lparr>calls := calls sub @ [ReadValue (node b)]\<rparr>)
                      = Inr (b2, sub2)"
  show due: "\<not> now' < next_due b" using later assms(2) by linarith
  show "\<exists>rest. calls sub2 = calls sub @ [ReadValue (node b)] @ ReadValue (node b) # rest"
    using tick_binding_reads_when_due[OF next_tick due] by simp
qed

theorem read_failure_changes_nothing_witness:
  "interval_of 500 (simulation running_binding) = Inr 3000 \<and>
   \<not> (3::real) < next_due running_binding \<and>
   read_fails (calm\<lparr>read_fails := True\<rparr>) \<and>
   tick_binding plain_repr 500 3 (calm\<lparr>read_fails := True\<rparr>)
       (running_binding, holding (node running_binding) (PBool False)) =
     Inr (running_binding,
          (holding (node running_binding) (PBool False))
            \<lparr>calls := [ReadValue (node running_binding)]\<rparr>)"
proof -
  have i: "interval_of 500 (simulation running_binding) = Inr 3000"
    by (simp add: interval_of_def dict_get_def running_binding_def running_sim_def)
  have due: "\<not> (3::real) < next_due running_binding"
    by (simp add: running_binding_def)
  have f: "read_fails (calm\<lparr>read_fails := True\<rparr>)" by simp
  show ?thesis
    using i due f
      read_failure_changes_nothing[OF i due f, of plain_repr
        "holding (node running_binding) (PBool False)"]
    by (simp add: holding_def)
qed

section \<open>The example, evaluated\<close>

lemma running_facts:
  "mode_of rp running_sim = ''toggle''" "interval_of d running_sim = Inr 3000"
  by (simp_all add: mode_of_def interval_of_def dict_get_def running_sim_def str_defs)

lemma rpm_facts:
  "mode_of rp rpm_sim = ''ramp''" "interval_of d rpm_sim = Inr 800"
  by (simp_all add: mode_of_def interval_of_def dict_get_def rpm_sim_def str_defs)

lemma mode_facts:
  "mode_of rp mode_sim = ''cycle''" "interval_of d mode_sim = Inr 6000"
  "mode_sim ''values'' = Some (PList [PStr ''Idle'', PStr ''Setup'', PStr ''Auto'', PStr ''Alarm''])"
  by (simp_all add: mode_of_def interval_of_def dict_get_def mode_sim_def str_defs)

text \<open>The bindings used in the statements are the ones \<^verbatim>\<open>setup\<close> creates.\<close>

lemma example_bindings_from_setup:
  "var_node_id rp 2 root_name example_running = ''ns=2;s=Machine.Running''"
  "var_dtype rp example_running = ''bool''"
  "var_binding rp d 0 ''ns=2;s=Machine.Running'' ''bool'' example_running = Inr (Some running_binding)"
  "var_node_id rp 2 root_name example_rpm = ''ns=2;s=Machine.RPM''"
  "var_dtype rp example_rpm = ''int''"
  "var_binding rp d 0 ''ns=2;s=Machine.RPM'' ''int'' example_rpm = Inr (Some rpm_binding)"
  "var_node_id rp 2 root_name example_mode = ''ns=2;s=Machine.Mode''"
  "var_dtype rp example_mode = ''string''"
  "var_binding rp d 0 ''ns=2;s=Machine.Mode'' ''string'' example_mode = Inr (Some mode_binding)"
proof -
  have run: "item_path example_running = Some (PStr ''Machine/Running'')"
    "item_node_id example_running = None" "item_type example_running = Some (PStr ''bool'')"
    "item_simulation example_running = Some running_sim"
    by (simp_all add: example_running_def)
  have rpm: "item_path example_rpm = Some (PStr ''Machine/RPM'')"
    "item_node_id example_rpm = None" "item_type example_rpm = Some (PStr ''int'')"
    "item_simulation example_rpm = Some rpm_sim"
    by (simp_all add: example_rpm_def)
  have mode: "item_path example_mode = Some (PStr ''Machine/Mode'')"
    "item_node_id example_mode = None" "item_type example_mode = Some (PStr ''string'')"
    "item_simulation example_mode = Some mode_sim"
    by (simp_all add: example_mode_def)
  have p1: "var_path rp root_name example_running = ''Machine/Running''"
    unfolding var_path_def run get_or_def by simp
  have p2: "var_path rp root_name example_rpm = ''Machine/RPM''"
    unfolding var_path_def rpm get_or_def by simp
  have p3: "var_path rp root_name example_mode = ''Machine/Mode''"
    unfolding var_path_def mode get_or_def by simp
  show "var_node_id rp 2 root_name example_running = ''ns=2;s=Machine.Running''"
    by (simp add: var_node_id_def p1 run derived_id_def str_defs num_defs)
  show "var_node_id rp 2 root_name example_rpm = ''ns=2;s=Machine.RPM''"
    by (simp add: var_node_id_def p2 rpm derived_id_def str_defs num_defs)
  show "var_node_id rp 2 root_name example_mode = ''ns=2;s=Machine.Mode''"
    by (simp add: var_node_id_def p3 mode derived_id_def str_defs num_defs)
  show "var_dtype rp example_running = ''bool''"
    unfolding var_dtype_def run get_or_def by (simp add: str_defs)
  show "var_dtype rp example_rpm = ''int''"
    unfolding var_dtype_def rpm get_or_def by (simp add: str_defs)
  show "var_dtype rp example_mode = ''string''"
    unfolding var_dtype_def mode get_or_def by (simp add: str_defs)
  show "var_binding rp d 0 ''ns=2;s=Machine.Running'' ''bool'' example_running
          = Inr (Some running_binding)"
    unfolding var_binding_def run
    by (simp add: running_sim_def dict_get_def running_binding_def)
  show "var_binding rp d 0 ''ns=2;s=Machine.RPM'' ''int'' example_rpm = Inr (Some rpm_binding)"
    unfolding var_binding_def rpm
    by (simp add: rpm_sim_def dict_get_def rpm_binding_def)
  show "var_binding rp d 0 ''ns=2;s=Machine.Mode'' ''string'' example_mode = Inr (Some mode_binding)"
    unfolding var_binding_def mode
    by (simp add: mode_sim_def dict_get_def mode_binding_def)
qed

lemma other_bindings_from_setup:
  "var_binding rp d 6 ''ns=2;s=Machine.Running'' ''bool''
     (example_running\<lparr>item_simulation :=
        Some [''mode'' \<mapsto> PStr ''toggle'', ''interval_ms'' \<mapsto> PInt (- 1000)]\<rparr>)
     = Inr (Some hasty_binding)"
  "var_binding rp 500 0 ''ns=2;s=Machine.Mode'' ''string''
     (example_mode\<lparr>item_simulation := Some [''mode'' \<mapsto> PStr ''ramp'']\<rparr>)
     = Inr (Some text_ramp_binding)"
  by (simp_all add: var_binding_def dict_get_def hasty_binding_def text_ramp_binding_def)

lemma generate_toggle:
  "mode_of rp (simulation b) = ''toggle'' \<Longrightarrow>
     generate rp env i b cur = Inr (PBool (\<not> to_bool rp cur), b)"
  by (simp add: generate_def)

section \<open>A failed write\<close>

lemma gen_random_walk_ignores_write_fails:
  "gen_random_walk (env\<lparr>write_fails := w\<rparr>) sim cur = gen_random_walk env sim cur"
  by (simp add: gen_random_walk_def)

lemma gen_random_choice_ignores_write_fails:
  "gen_random_choice (env\<lparr>write_fails := w\<rparr>) sim cur = gen_random_choice env sim cur"
  by (simp add: gen_random_choice_def split: pyval.splits)

lemma generate_ignores_write_fails:
  "generate rp (env\<lparr>write_fails := w\<rparr>) i b cur = generate rp env i b cur"
  unfolding generate_def gen_random_walk_ignores_write_fails gen_random_choice_ignores_write_fails
  by (rule refl)

text \<open>
  C5. When the write of a due binding fails, the exception is swallowed: the tick
  returns normally, the node keeps the value it held, and the binding is exactly the
  one a successful write would leave, with \<^verbatim>\<open>next_due = now + interval_ms / 1000\<close>.
  Until that time the binding is not due, so the write is not retried. (A tick that
  reaches the write has converted the interval, read the node, generated and coerced.)
\<close>

theorem write_failure_still_advances:
  assumes "interval_of d (simulation b) = Inr i"
    and "\<not> now < next_due b"
    and "\<not> read_fails env" and "held sub (node b) = Some cur"
    and "generate rp env i b cur = Inr (v, b1)"
    and "cast rp (dtype b) v = Inr c"
    and "write_fails env"
  shows "\<exists>b' sub'.
           tick_binding rp d now env (b, sub) = Inr (b', sub') \<and>
           next_due b' = now + of_int i / 1000 \<and>
           held sub' = held sub \<and>
           calls sub' = calls sub @ [ReadValue (node b), WriteValue (node b) c] \<and>
           (\<exists>sub''. tick_binding rp d now (env\<lparr>write_fails := False\<rparr>) (b, sub) = Inr (b', sub'')) \<and>
           (\<forall>now' env'. now' < now + of_int i / 1000 \<longrightarrow>
              tick_binding rp d now' env' (b', sub') = Inr (b', sub'))"
proof -
  let ?b' = "b1\<lparr>next_due := now + of_int i / 1000\<rparr>"
  let ?sub1 = "sub\<lparr>calls := calls sub @ [ReadValue (node b)]\<rparr>"
  let ?sub' = "write_value env ?sub1 (node b) c"
  have step: "tick_binding rp d now env (b, sub) = Inr (?b', ?sub')"
    using assms(1-6) by (rule tick_binding_written)
  have cfg: "simulation ?b' = simulation b"
    using generate_same_config[OF assms(5)] by (simp add: same_config_def)
  have ok_env: "\<not> read_fails (env\<lparr>write_fails := False\<rparr>)" using assms(3) by simp
  have g': "generate rp (env\<lparr>write_fails := False\<rparr>) i b cur = Inr (v, b1)"
    using assms(5) by (simp add: generate_ignores_write_fails)
  have success: "tick_binding rp d now (env\<lparr>write_fails := False\<rparr>) (b, sub) =
      Inr (?b', write_value (env\<lparr>write_fails := False\<rparr>) ?sub1 (node b) c)"
    using assms(1,2) ok_env assms(4) g' assms(6) by (rule tick_binding_written)
  have later: "\<forall>now' env'. now' < now + of_int i / 1000 \<longrightarrow>
      tick_binding rp d now' env' (?b', ?sub') = Inr (?b', ?sub')"
  proof (intro allI impI)
    fix now' :: real and env'
    assume "now' < now + of_int i / 1000"
    then have nd: "now' < next_due ?b'" by simp
    have iv: "interval_of d (simulation ?b') = Inr i" using assms(1) cfg by simp
    show "tick_binding rp d now' env' (?b', ?sub') = Inr (?b', ?sub')"
      using iv nd by (rule tick_binding_not_due)
  qed
  have "next_due ?b' = now + of_int i / 1000" by simp
  moreover have "held ?sub' = held sub" using assms(7) by (simp add: write_value_def)
  moreover have "calls ?sub' = calls sub @ [ReadValue (node b), WriteValue (node b) c]"
    using assms(7) by (simp add: write_value_def)
  ultimately show ?thesis using step success later by blast
qed

theorem write_failure_still_advances_witness:
  "interval_of 500 (simulation running_binding) = Inr 3000 \<and>
   \<not> (3::real) < next_due running_binding \<and>
   \<not> read_fails (calm\<lparr>write_fails := True\<rparr>) \<and>
   held (holding (node running_binding) (PBool False)) (node running_binding) = Some (PBool False) \<and>
   generate plain_repr (calm\<lparr>write_fails := True\<rparr>) 3000 running_binding (PBool False)
     = Inr (PBool True, running_binding) \<and>
   cast plain_repr (dtype running_binding) (PBool True) = Inr (PBool True) \<and>
   write_fails (calm\<lparr>write_fails := True\<rparr>) \<and>
   (\<exists>b' sub'.
      tick_binding plain_repr 500 3 (calm\<lparr>write_fails := True\<rparr>)
          (running_binding, holding (node running_binding) (PBool False)) = Inr (b', sub') \<and>
      next_due b' = 6 \<and>
      held sub' (node running_binding) = Some (PBool False))"
proof -
  let ?env = "calm\<lparr>write_fails := True\<rparr>"
  let ?sub = "holding (node running_binding) (PBool False)"
  have i: "interval_of 500 (simulation running_binding) = Inr 3000"
    by (simp add: running_binding_def running_facts)
  have due: "\<not> (3::real) < next_due running_binding"
    by (simp add: running_binding_def)
  have r: "\<not> read_fails ?env" by (simp add: calm_def)
  have h: "held ?sub (node running_binding) = Some (PBool False)"
    by (simp add: holding_def)
  have g: "generate plain_repr ?env 3000 running_binding (PBool False) = Inr (PBool True, running_binding)"
    by (simp add: generate_toggle running_binding_def running_facts)
  have c: "cast plain_repr (dtype running_binding) (PBool True) = Inr (PBool True)"
    by (simp add: running_binding_def cast_bool_tag)
  have w: "write_fails ?env" by simp
  obtain b' sub' where
    t: "tick_binding plain_repr 500 3 ?env (running_binding, ?sub) = Inr (b', sub')"
    and n: "next_due b' = 3 + of_int 3000 / 1000" and k: "held sub' = held ?sub"
    using write_failure_still_advances[OF i due r h g c w] by blast
  have "next_due b' = 6" using n by simp
  moreover have "held sub' (node running_binding) = Some (PBool False)" using k h by simp
  ultimately show ?thesis using i due r h g c w t by blast
qed

section \<open>The generators for cycle and ramp\<close>

lemma generate_cycle:
  assumes "mode_of rp (simulation b) = ''cycle''"
    and "simulation b ''values'' = Some (PList vs)" and "vs \<noteq> []"
  shows "generate rp env i b cur =
           Inr (vs ! nat ((cycle_index b + 1) mod int (length vs)),
                b\<lparr>cycle_index := (cycle_index b + 1) mod int (length vs)\<rparr>)"
  using assms by (simp add: generate_def gen_cycle_def dict_get_def Let_def)

lemma cycle_index_in_range:
  assumes "vs \<noteq> []"
  shows "0 \<le> (k + 1) mod int (length vs) \<and> nat ((k + 1) mod int (length vs)) < length vs"
proof -
  have pos: "0 < int (length vs)" using assms by simp
  have "0 \<le> (k + 1) mod int (length vs)" using pos by simp
  moreover have "(k + 1) mod int (length vs) < int (length vs)" using pos by simp
  ultimately show ?thesis by linarith
qed

lemma mode_tick:
  assumes "same_config mode_binding b" and "\<not> now < next_due b"
    and "held sub (node b) = Some cur"
  shows "tick_binding rp d now calm (b, sub) =
           Inr (b\<lparr>cycle_index := (cycle_index b + 1) mod 4, next_due := now + 6\<rparr>,
                sub\<lparr>held := (held sub)(node b \<mapsto>
                        [PStr ''Idle'', PStr ''Setup'', PStr ''Auto'', PStr ''Alarm'']
                          ! nat ((cycle_index b + 1) mod 4)),
                    calls := calls sub @
                      [ReadValue (node b),
                       WriteValue (node b)
                         ([PStr ''Idle'', PStr ''Setup'', PStr ''Auto'', PStr ''Alarm'']
                            ! nat ((cycle_index b + 1) mod 4))]\<rparr>)"
proof -
  let ?vs = "[PStr ''Idle'', PStr ''Setup'', PStr ''Auto'', PStr ''Alarm'']"
  let ?k = "(cycle_index b + 1) mod 4"
  have sim: "simulation b = mode_sim" and dt: "dtype b = ''string''"
    using assms(1) by (simp_all add: same_config_def mode_binding_def)
  have i: "interval_of d (simulation b) = Inr 6000" by (simp add: sim mode_facts)
  have r: "\<not> read_fails calm" by (simp add: calm_def)
  have g: "generate rp calm 6000 b cur = Inr (?vs ! nat ?k, b\<lparr>cycle_index := ?k\<rparr>)"
    using generate_cycle[of rp b ?vs calm 6000 cur] by (simp add: sim mode_facts)
  have rng: "nat ?k < 4" using cycle_index_in_range[of ?vs "cycle_index b"] by simp
  then have "nat ?k = 0 \<or> nat ?k = 1 \<or> nat ?k = 2 \<or> nat ?k = 3" by linarith
  then have "py_str rp (?vs ! nat ?k) = (case ?vs ! nat ?k of PStr s \<Rightarrow> s | _ \<Rightarrow> [])
             \<and> (\<exists>s. ?vs ! nat ?k = PStr s)"
    by (elim disjE) simp_all
  then have c: "cast rp (dtype b) (?vs ! nat ?k) = Inr (?vs ! nat ?k)"
    by (auto simp: dt cast_string_tag)
  show ?thesis
    using tick_binding_written[OF i assms(2) r assms(3) g c]
    by (simp add: write_value_def calm_def)
qed

lemma tick_single:
  "tick_binding rp d now (envs 0) (b, sub) = Inr (b', sub') \<Longrightarrow>
     tick rp d now envs ([b], sub) = Inr ([b'], sub')"
  by (simp add: tick_def)

lemma mode_four_ticks:
  "run rp d [(6, \<lambda>k. calm), (12, \<lambda>k. calm), (18, \<lambda>k. calm), (24, \<lambda>k. calm)]
       ([mode_binding], holding (node mode_binding) (PStr ''Idle'')) =
     Inr ([mode_binding\<lparr>cycle_index := 0, next_due := 30\<rparr>],
          \<lparr>nodes = [],
           held = [''ns=2;s=Machine.Mode'' \<mapsto> PStr ''Idle''],
           calls = [ReadValue ''ns=2;s=Machine.Mode'', WriteValue ''ns=2;s=Machine.Mode'' (PStr ''Setup''),
                    ReadValue ''ns=2;s=Machine.Mode'', WriteValue ''ns=2;s=Machine.Mode'' (PStr ''Auto''),
                    ReadValue ''ns=2;s=Machine.Mode'', WriteValue ''ns=2;s=Machine.Mode'' (PStr ''Alarm''),
                    ReadValue ''ns=2;s=Machine.Mode'', WriteValue ''ns=2;s=Machine.Mode'' (PStr ''Idle'')]\<rparr>)"
proof -
  let ?n = "''ns=2;s=Machine.Mode''"
  let ?b0 = "mode_binding"
  let ?s0 = "holding (node mode_binding) (PStr ''Idle'')"
  let ?b1 = "mode_binding\<lparr>cycle_index := 1, next_due := 12\<rparr>"
  let ?s1 = "\<lparr>nodes = [], held = [?n \<mapsto> PStr ''Setup''],
              calls = [ReadValue ?n, WriteValue ?n (PStr ''Setup'')]\<rparr>"
  let ?b2 = "mode_binding\<lparr>cycle_index := 2, next_due := 18\<rparr>"
  let ?s2 = "\<lparr>nodes = [], held = [?n \<mapsto> PStr ''Auto''],
              calls = [ReadValue ?n, WriteValue ?n (PStr ''Setup''),
                       ReadValue ?n, WriteValue ?n (PStr ''Auto'')]\<rparr>"
  let ?b3 = "mode_binding\<lparr>cycle_index := 3, next_due := 24\<rparr>"
  let ?s3 = "\<lparr>nodes = [], held = [?n \<mapsto> PStr ''Alarm''],
              calls = [ReadValue ?n, WriteValue ?n (PStr ''Setup''),
                       ReadValue ?n, WriteValue ?n (PStr ''Auto''),
                       ReadValue ?n, WriteValue ?n (PStr ''Alarm'')]\<rparr>"
  let ?b4 = "mode_binding\<lparr>cycle_index := 0, next_due := 30\<rparr>"
  let ?s4 = "\<lparr>nodes = [], held = [?n \<mapsto> PStr ''Idle''],
              calls = [ReadValue ?n, WriteValue ?n (PStr ''Setup''),
                       ReadValue ?n, WriteValue ?n (PStr ''Auto''),
                       ReadValue ?n, WriteValue ?n (PStr ''Alarm''),
                       ReadValue ?n, WriteValue ?n (PStr ''Idle'')]\<rparr>"
  have t1: "tick_binding rp d 6 calm (?b0, ?s0) = Inr (?b1, ?s1)"
    using mode_tick[of ?b0 6 ?s0 "PStr ''Idle''" rp d]
    by (simp add: same_config_def mode_binding_def holding_def)
  have t2: "tick_binding rp d 12 calm (?b1, ?s1) = Inr (?b2, ?s2)"
    using mode_tick[of ?b1 12 ?s1 "PStr ''Setup''" rp d]
    by (simp add: same_config_def mode_binding_def)
  have t3: "tick_binding rp d 18 calm (?b2, ?s2) = Inr (?b3, ?s3)"
    using mode_tick[of ?b2 18 ?s2 "PStr ''Auto''" rp d]
    by (simp add: same_config_def mode_binding_def)
  have t4: "tick_binding rp d 24 calm (?b3, ?s3) = Inr (?b4, ?s4)"
    using mode_tick[of ?b3 24 ?s3 "PStr ''Alarm''" rp d]
    by (simp add: same_config_def mode_binding_def)
  show ?thesis
    by (simp add: tick_single[where envs = "\<lambda>k. calm", OF t1]
        tick_single[where envs = "\<lambda>k. calm", OF t2]
        tick_single[where envs = "\<lambda>k. calm", OF t3]
        tick_single[where envs = "\<lambda>k. calm", OF t4])
qed

text \<open>
  C6. In mode cycle with a non-empty list, the generator first assigns
  \<^verbatim>\<open>cycle_index = (cycle_index + 1) % len(values)\<close> and then yields
  \<^verbatim>\<open>values[cycle_index]\<close>, an index within the list. For the Mode variable of the
  example configuration, whose index starts at 0, four due ticks write Setup, Auto,
  Alarm and Idle, in this order.
\<close>

theorem cycle_increments_before_use:
  "(mode_of rp (simulation b) = ''cycle'' \<and> simulation b ''values'' = Some (PList vs) \<and> vs \<noteq> []
      \<longrightarrow> generate rp env i b cur =
            Inr (vs ! nat ((cycle_index b + 1) mod int (length vs)),
                 b\<lparr>cycle_index := (cycle_index b + 1) mod int (length vs)\<rparr>) \<and>
          0 \<le> (cycle_index b + 1) mod int (length vs) \<and>
          nat ((cycle_index b + 1) mod int (length vs)) < length vs) \<and>
   cycle_index mode_binding = 0 \<and>
   run rp d [(6, \<lambda>k. calm), (12, \<lambda>k. calm), (18, \<lambda>k. calm), (24, \<lambda>k. calm)]
       ([mode_binding], holding (node mode_binding) (PStr ''Idle'')) =
     Inr ([mode_binding\<lparr>cycle_index := 0, next_due := 30\<rparr>],
          \<lparr>nodes = [],
           held = [''ns=2;s=Machine.Mode'' \<mapsto> PStr ''Idle''],
           calls = [ReadValue ''ns=2;s=Machine.Mode'', WriteValue ''ns=2;s=Machine.Mode'' (PStr ''Setup''),
                    ReadValue ''ns=2;s=Machine.Mode'', WriteValue ''ns=2;s=Machine.Mode'' (PStr ''Auto''),
                    ReadValue ''ns=2;s=Machine.Mode'', WriteValue ''ns=2;s=Machine.Mode'' (PStr ''Alarm''),
                    ReadValue ''ns=2;s=Machine.Mode'', WriteValue ''ns=2;s=Machine.Mode'' (PStr ''Idle'')]\<rparr>)"
proof (intro conjI impI)
  assume a: "mode_of rp (simulation b) = ''cycle'' \<and> simulation b ''values'' = Some (PList vs) \<and> vs \<noteq> []"
  show "generate rp env i b cur =
          Inr (vs ! nat ((cycle_index b + 1) mod int (length vs)),
               b\<lparr>cycle_index := (cycle_index b + 1) mod int (length vs)\<rparr>)"
    using a by (simp add: generate_cycle)
  show "0 \<le> (cycle_index b + 1) mod int (length vs)"
    using a cycle_index_in_range[of vs "cycle_index b"] by simp
  show "nat ((cycle_index b + 1) mod int (length vs)) < length vs"
    using a cycle_index_in_range[of vs "cycle_index b"] by simp
next
  show "cycle_index mode_binding = 0" by (simp add: mode_binding_def)
next
  show "run rp d [(6, \<lambda>k. calm), (12, \<lambda>k. calm), (18, \<lambda>k. calm), (24, \<lambda>k. calm)]
       ([mode_binding], holding (node mode_binding) (PStr ''Idle'')) =
     Inr ([mode_binding\<lparr>cycle_index := 0, next_due := 30\<rparr>],
          \<lparr>nodes = [],
           held = [''ns=2;s=Machine.Mode'' \<mapsto> PStr ''Idle''],
           calls = [ReadValue ''ns=2;s=Machine.Mode'', WriteValue ''ns=2;s=Machine.Mode'' (PStr ''Setup''),
                    ReadValue ''ns=2;s=Machine.Mode'', WriteValue ''ns=2;s=Machine.Mode'' (PStr ''Auto''),
                    ReadValue ''ns=2;s=Machine.Mode'', WriteValue ''ns=2;s=Machine.Mode'' (PStr ''Alarm''),
                    ReadValue ''ns=2;s=Machine.Mode'', WriteValue ''ns=2;s=Machine.Mode'' (PStr ''Idle'')]\<rparr>)"
    by (rule mode_four_ticks)
qed

theorem cycle_increments_before_use_witness:
  "mode_of plain_repr (simulation mode_binding) = ''cycle'' \<and>
   simulation mode_binding ''values'' =
     Some (PList [PStr ''Idle'', PStr ''Setup'', PStr ''Auto'', PStr ''Alarm'']) \<and>
   [PStr ''Idle'', PStr ''Setup'', PStr ''Auto'', PStr ''Alarm''] \<noteq> [] \<and>
   generate plain_repr calm 6000 mode_binding (PStr ''Idle'') =
     Inr (PStr ''Setup'', mode_binding\<lparr>cycle_index := 1\<rparr>)"
proof -
  have m: "mode_of plain_repr (simulation mode_binding) = ''cycle''"
    by (simp add: mode_binding_def mode_facts)
  have v: "simulation mode_binding ''values'' =
     Some (PList [PStr ''Idle'', PStr ''Setup'', PStr ''Auto'', PStr ''Alarm''])"
    by (simp add: mode_binding_def mode_facts)
  have z: "cycle_index mode_binding = 0" by (simp add: mode_binding_def)
  show ?thesis
    using m v z
      cycle_increments_before_use[of plain_repr mode_binding
        "[PStr ''Idle'', PStr ''Setup'', PStr ''Auto'', PStr ''Alarm'']" calm 6000 "PStr ''Idle''" 500]
    by simp
qed

lemma flt_irrefl: "\<not> flt x x"
  by (cases x) simp_all

lemma gen_ramp_rule:
  assumes "py_float (dict_get sim ''step'' (PFloat (Fin 1))) = Inr step"
    and "py_float (dict_get sim ''min'' (PFloat (Fin 0))) = Inr mn"
    and "py_float (dict_get sim ''max'' (PFloat (Fin 100))) = Inr mx"
    and "py_float cur = Inr c"
  shows "gen_ramp sim cur =
           Inr (PFloat (if flt mx (fadd c step) then mn
                        else if flt (fadd c step) mn then mx else fadd c step))"
  using assms by (simp add: gen_ramp_def Let_def flt_irrefl)

lemma rpm_params:
  "py_float (dict_get rpm_sim ''step'' (PFloat (Fin 1))) = Inr (Fin 150)"
  "py_float (dict_get rpm_sim ''min'' (PFloat (Fin 0))) = Inr (Fin 0)"
  "py_float (dict_get rpm_sim ''max'' (PFloat (Fin 100))) = Inr (Fin 3000)"
  using float_of_int_exact[of 150] float_of_int_exact[of 3000]
  by (simp_all add: dict_get_def rpm_sim_def)

text \<open>2850 + 150 and 3000 + 150 are sums of small integers, which no rounding changes.\<close>

lemma rpm_ramp:
  "py_float (PInt 2850) = Inr (Fin 2850)"
  "py_float (PInt 3000) = Inr (Fin 3000)"
  "gen_ramp rpm_sim (PInt 2850) = Inr (PFloat (Fin 3000))"
  "gen_ramp rpm_sim (PInt 3000) = Inr (PFloat (Fin 0))"
proof -
  have r: "round_double 3000 = Fin 3000" "round_double 3150 = Fin 3150"
    using round_double_int_exact[of 3000] round_double_int_exact[of 3150] by simp_all
  show c1: "py_float (PInt 2850) = Inr (Fin 2850)"
    using float_of_int_exact[of 2850] by simp
  show c2: "py_float (PInt 3000) = Inr (Fin 3000)"
    using float_of_int_exact[of 3000] by simp
  show "gen_ramp rpm_sim (PInt 2850) = Inr (PFloat (Fin 3000))"
    using gen_ramp_rule[OF rpm_params c1] r by simp
  show "gen_ramp rpm_sim (PInt 3000) = Inr (PFloat (Fin 0))"
    using gen_ramp_rule[OF rpm_params c2] r by simp
qed

lemma rpm_tick:
  assumes "n = 2850 \<or> n = 3000"
  shows "tick_binding rp d 1 calm (rpm_binding, holding (node rpm_binding) (PInt n)) =
           Inr (rpm_binding\<lparr>next_due := 9 / 5\<rparr>,
                \<lparr>nodes = [],
                 held = [''ns=2;s=Machine.RPM'' \<mapsto> PInt (if n = 2850 then 3000 else 0)],
                 calls = [ReadValue ''ns=2;s=Machine.RPM'',
                          WriteValue ''ns=2;s=Machine.RPM'' (PInt (if n = 2850 then 3000 else 0))]\<rparr>)"
proof -
  let ?sub = "holding (node rpm_binding) (PInt n)"
  let ?out = "if n = 2850 then 3000 else (0::int)"
  have i: "interval_of d (simulation rpm_binding) = Inr 800"
    by (simp add: rpm_binding_def rpm_facts)
  have due: "\<not> (1::real) < next_due rpm_binding" by (simp add: rpm_binding_def)
  have r: "\<not> read_fails calm" by (simp add: calm_def)
  have h: "held ?sub (node rpm_binding) = Some (PInt n)" by (simp add: holding_def)
  have "gen_ramp rpm_sim (PInt n) = Inr (PFloat (Fin (of_int ?out)))"
    using assms rpm_ramp(3,4) by auto
  then have g: "generate rp calm 800 rpm_binding (PInt n) = Inr (PFloat (Fin (of_int ?out)), rpm_binding)"
    by (simp add: generate_def rpm_binding_def rpm_facts)
  have c: "cast rp (dtype rpm_binding) (PFloat (Fin (of_int ?out))) = Inr (PInt ?out)"
    by (simp add: rpm_binding_def cast_int_tag)
  show ?thesis
    using tick_binding_written[OF i due r h g c]
    by (simp add: write_value_def calm_def holding_def rpm_binding_def)
qed

lemma generate_ramp:
  assumes "py_float (dict_get (simulation b) ''step'' (PFloat (Fin 1))) = Inr step"
    and "py_float (dict_get (simulation b) ''min'' (PFloat (Fin 0))) = Inr mn"
    and "py_float (dict_get (simulation b) ''max'' (PFloat (Fin 100))) = Inr mx"
    and "mode_of rp (simulation b) = ''ramp''"
    and "py_float cur = Inr c"
  shows "generate rp env i b cur =
           Inr (PFloat (if flt mx (fadd c step) then mn
                        else if flt (fadd c step) mn then mx else fadd c step), b)"
  using gen_ramp_rule[OF assms(1-3,5)] assms(4) by (simp add: generate_def)

lemma ramp_below_one_ulp:
  "gen_ramp [''step'' \<mapsto> PFloat (Fin (1 / 2 ^ 60)), ''max'' \<mapsto> PFloat (Fin 1)] (PFloat (Fin 1))
     = Inr (PFloat (Fin 1))"
proof -
  let ?sim = "[''step'' \<mapsto> PFloat (Fin (1 / 2 ^ 60)), ''max'' \<mapsto> PFloat (Fin 1)]"
  have p: "py_float (dict_get ?sim ''step'' (PFloat (Fin 1))) = Inr (Fin (1 / 2 ^ 60))"
    "py_float (dict_get ?sim ''min'' (PFloat (Fin 0))) = Inr (Fin 0)"
    "py_float (dict_get ?sim ''max'' (PFloat (Fin 100))) = Inr (Fin 1)"
    by (simp_all add: dict_get_def)
  have c: "py_float (PFloat (Fin 1)) = Inr (Fin 1)" by simp
  have s: "fadd (Fin 1) (Fin (1 / 2 ^ 60)) = Fin 1"
    using round_double_examples(2) by simp
  show ?thesis
    unfolding gen_ramp_rule[OF p c] s by simp
qed

text \<open>
  C7. In mode ramp with parameters that convert to floats, for every current value
  \<open>cur\<close> that \<^verbatim>\<open>float()\<close> converts, to \<open>c\<close>, the output is the float sum
  \<open>c + step\<close>, except that it is \<open>min\<close> when \<open>c + step > max\<close> and otherwise \<open>max\<close>
  when \<open>c + step < min\<close>. \<^verbatim>\<open>float()\<close> converts every numeric value within the range
  of a double: every bool, every float and every integer \<open>n\<close> with
  \<open>\<bar>n\<bar> < 2 ^ 1024 - 2 ^ 970\<close>, an integer with \<open>\<bar>n\<bar> \<le> 2 ^ 53\<close> exactly. The sum is
  rounded to a double: with step \<open>2 ^ -60\<close> and max 1, the value 1.0 stays 1.0. For
  the RPM variable of the example configuration (min 0, max 3000, step 150, type int), a
  due tick takes 2850 to 3000 and 3000 to 0.
\<close>

theorem ramp_wraps_beyond_max:
  "(py_float (dict_get (simulation b) ''step'' (PFloat (Fin 1))) = Inr step \<and>
    py_float (dict_get (simulation b) ''min'' (PFloat (Fin 0))) = Inr mn \<and>
    py_float (dict_get (simulation b) ''max'' (PFloat (Fin 100))) = Inr mx \<and>
    mode_of rp (simulation b) = ''ramp'' \<and> py_float cur = Inr c
      \<longrightarrow> generate rp env i b cur =
            Inr (PFloat (if flt mx (fadd c step) then mn
                         else if flt (fadd c step) mn then mx else fadd c step), b)) \<and>
   py_float (PBool x) = Inr (Fin (if x then 1 else 0)) \<and>
   py_float (PFloat f) = Inr f \<and>
   (\<bar>n\<bar> < 2 ^ 1024 - 2 ^ 970 \<longrightarrow> (\<exists>r. py_float (PInt n) = Inr (Fin r))) \<and>
   (\<bar>n\<bar> \<le> 2 ^ 53 \<longrightarrow> py_float (PInt n) = Inr (Fin (of_int n))) \<and>
   gen_ramp [''step'' \<mapsto> PFloat (Fin (1 / 2 ^ 60)), ''max'' \<mapsto> PFloat (Fin 1)] (PFloat (Fin 1))
     = Inr (PFloat (Fin 1)) \<and>
   tick_binding rp d 1 calm (rpm_binding, holding (node rpm_binding) (PInt 2850)) =
     Inr (rpm_binding\<lparr>next_due := 9 / 5\<rparr>,
          \<lparr>nodes = [], held = [''ns=2;s=Machine.RPM'' \<mapsto> PInt 3000],
           calls = [ReadValue ''ns=2;s=Machine.RPM'', WriteValue ''ns=2;s=Machine.RPM'' (PInt 3000)]\<rparr>) \<and>
   tick_binding rp d 1 calm (rpm_binding, holding (node rpm_binding) (PInt 3000)) =
     Inr (rpm_binding\<lparr>next_due := 9 / 5\<rparr>,
          \<lparr>nodes = [], held = [''ns=2;s=Machine.RPM'' \<mapsto> PInt 0],
           calls = [ReadValue ''ns=2;s=Machine.RPM'', WriteValue ''ns=2;s=Machine.RPM'' (PInt 0)]\<rparr>)"
proof -
  have rule: "py_float (dict_get (simulation b) ''step'' (PFloat (Fin 1))) = Inr step \<and>
    py_float (dict_get (simulation b) ''min'' (PFloat (Fin 0))) = Inr mn \<and>
    py_float (dict_get (simulation b) ''max'' (PFloat (Fin 100))) = Inr mx \<and>
    mode_of rp (simulation b) = ''ramp'' \<and> py_float cur = Inr c
      \<longrightarrow> generate rp env i b cur =
            Inr (PFloat (if flt mx (fadd c step) then mn
                         else if flt (fadd c step) mn then mx else fadd c step), b)"
    using generate_ramp[of b step mn mx rp cur c] by blast
  have bool: "py_float (PBool x) = Inr (Fin (if x then 1 else 0))" by simp
  have float: "py_float (PFloat f) = Inr f" by simp
  have inside: "\<bar>n\<bar> < 2 ^ 1024 - 2 ^ 970 \<longrightarrow> (\<exists>r. py_float (PInt n) = Inr (Fin r))"
    using float_of_int_finite[of n] by simp
  have small: "\<bar>n\<bar> \<le> 2 ^ 53 \<longrightarrow> py_float (PInt n) = Inr (Fin (of_int n))"
    using float_of_int_exact[of n] by simp
  have t1: "tick_binding rp d 1 calm (rpm_binding, holding (node rpm_binding) (PInt 2850)) =
     Inr (rpm_binding\<lparr>next_due := 9 / 5\<rparr>,
          \<lparr>nodes = [], held = [''ns=2;s=Machine.RPM'' \<mapsto> PInt 3000],
           calls = [ReadValue ''ns=2;s=Machine.RPM'', WriteValue ''ns=2;s=Machine.RPM'' (PInt 3000)]\<rparr>)"
    using rpm_tick[of 2850 rp d] by simp
  have t2: "tick_binding rp d 1 calm (rpm_binding, holding (node rpm_binding) (PInt 3000)) =
     Inr (rpm_binding\<lparr>next_due := 9 / 5\<rparr>,
          \<lparr>nodes = [], held = [''ns=2;s=Machine.RPM'' \<mapsto> PInt 0],
           calls = [ReadValue ''ns=2;s=Machine.RPM'', WriteValue ''ns=2;s=Machine.RPM'' (PInt 0)]\<rparr>)"
    using rpm_tick[of 3000 rp d] by simp
  show ?thesis
    by (intro conjI rule bool float inside small ramp_below_one_ulp t1 t2)
qed

theorem ramp_wraps_beyond_max_witness:
  "py_float (dict_get (simulation rpm_binding) ''step'' (PFloat (Fin 1))) = Inr (Fin 150) \<and>
   py_float (dict_get (simulation rpm_binding) ''min'' (PFloat (Fin 0))) = Inr (Fin 0) \<and>
   py_float (dict_get (simulation rpm_binding) ''max'' (PFloat (Fin 100))) = Inr (Fin 3000) \<and>
   mode_of plain_repr (simulation rpm_binding) = ''ramp'' \<and>
   \<bar>3000 :: int\<bar> \<le> 2 ^ 53 \<and>
   \<bar>3000 :: int\<bar> < 2 ^ 1024 - 2 ^ 970 \<and>
   py_float (PInt 3000) = Inr (Fin 3000) \<and>
   generate plain_repr calm 800 rpm_binding (PInt 3000) = Inr (PFloat (Fin 0), rpm_binding)"
proof -
  have p: "py_float (dict_get (simulation rpm_binding) ''step'' (PFloat (Fin 1))) = Inr (Fin 150)"
    "py_float (dict_get (simulation rpm_binding) ''min'' (PFloat (Fin 0))) = Inr (Fin 0)"
    "py_float (dict_get (simulation rpm_binding) ''max'' (PFloat (Fin 100))) = Inr (Fin 3000)"
    by (simp_all add: rpm_binding_def rpm_params)
  have m: "mode_of plain_repr (simulation rpm_binding) = ''ramp''"
    by (simp add: rpm_binding_def rpm_facts)
  have small: "\<bar>3000 :: int\<bar> \<le> 2 ^ 53" "\<bar>3000 :: int\<bar> < 2 ^ 1024 - 2 ^ 970" by simp_all
  have s: "fadd (Fin 3000) (Fin 150) = Fin 3150"
    using round_double_int_exact[of 3150] by simp
  have c: "py_float (PInt 3000) = Inr (Fin (of_int 3000))"
    using small(1)
      ramp_wraps_beyond_max[of rpm_binding "Fin 150" "Fin 0" "Fin 3000" plain_repr "PInt 3000"
        "Fin 3000" calm 800 True NaN 3000 500]
    by blast
  then have c': "py_float (PInt 3000) = Inr (Fin 3000)" by simp
  have "generate plain_repr calm 800 rpm_binding (PInt 3000) =
          Inr (PFloat (if flt (Fin 3000) (fadd (Fin 3000) (Fin 150)) then Fin 0
                       else if flt (fadd (Fin 3000) (Fin 150)) (Fin 0) then Fin 3000
                       else fadd (Fin 3000) (Fin 150)), rpm_binding)"
    using p m c'
      ramp_wraps_beyond_max[of rpm_binding "Fin 150" "Fin 0" "Fin 3000" plain_repr "PInt 3000"
        "Fin 3000" calm 800 True NaN 3000 500]
    by blast
  then have g: "generate plain_repr calm 800 rpm_binding (PInt 3000) = Inr (PFloat (Fin 0), rpm_binding)"
    unfolding s by simp
  show ?thesis using p m small c' g by simp
qed

section \<open>A mode that is not one of the six\<close>

lemma generate_other:
  assumes "mode_of rp (simulation b) \<notin>
             {''toggle'', ''random_walk'', ''random_choice'', ''cycle'', ''ramp'', ''sine''}"
  shows "generate rp env i b cur = Inr (cur, b)"
  using assms by (simp add: generate_def)

text \<open>The values that coercion to their own type returns as they are.\<close>

lemma cast_fixed_points:
  "cast rp ''bool'' (PBool x) = Inr (PBool x)"
  "cast rp ''string'' (PStr s) = Inr (PStr s)"
  "cast rp ''float'' (PFloat f) = Inr (PFloat f)"
  "\<bar>n\<bar> \<le> 2 ^ 53 \<Longrightarrow> cast rp ''int'' (PInt n) = Inr (PInt n)"
  by (simp_all add: cast_bool_tag cast_string_tag cast_float_tag cast_small_int)

text \<open>
  C8, as amended. A due binding whose mode is empty or none of the six known modes,
  and whose read succeeds, has the coerced value written back: after the tick the node
  holds \<^verbatim>\<open>_cast(dtype, value read)\<close> if the write succeeded and the value read if
  it failed, and the generator state is untouched; if the coercion raises, the tick
  raises. The value is therefore unchanged whenever the value read is a fixed point of
  the coercion, as is a bool under type bool, a string under type string, a float under
  type float, and an integer \<open>n\<close> with \<open>\<bar>n\<bar> \<le> 2 ^ 53\<close> under type int.
\<close>

theorem unknown_mode_writes_coerced_value:
  assumes "mode_of rp (simulation b) \<notin>
             {''toggle'', ''random_walk'', ''random_choice'', ''cycle'', ''ramp'', ''sine''}"
    and "interval_of d (simulation b) = Inr i"
    and "\<not> now < next_due b"
    and "\<not> read_fails env" and "held sub (node b) = Some cur"
  shows "(\<forall>e. cast rp (dtype b) cur = Inl e \<longrightarrow> tick_binding rp d now env (b, sub) = Inl e) \<and>
         (\<forall>c. cast rp (dtype b) cur = Inr c \<longrightarrow>
            (\<exists>sub'. tick_binding rp d now env (b, sub) =
                       Inr (b\<lparr>next_due := now + of_int i / 1000\<rparr>, sub') \<and>
                    held sub' (node b) = Some (if write_fails env then cur else c))) \<and>
         (cast rp (dtype b) cur = Inr cur \<longrightarrow>
            (\<exists>sub'. tick_binding rp d now env (b, sub) =
                       Inr (b\<lparr>next_due := now + of_int i / 1000\<rparr>, sub') \<and>
                    held sub' (node b) = Some cur)) \<and>
         cast rp ''bool'' (PBool x) = Inr (PBool x) \<and>
         cast rp ''string'' (PStr s) = Inr (PStr s) \<and>
         cast rp ''float'' (PFloat f) = Inr (PFloat f) \<and>
         (\<bar>n\<bar> \<le> 2 ^ 53 \<longrightarrow> cast rp ''int'' (PInt n) = Inr (PInt n))"
proof -
  have g: "generate rp env i b cur = Inr (cur, b)"
    using assms(1) by (rule generate_other)
  have written: "\<exists>sub'. tick_binding rp d now env (b, sub) =
                       Inr (b\<lparr>next_due := now + of_int i / 1000\<rparr>, sub') \<and>
                    held sub' (node b) = Some (if write_fails env then cur else c)"
    if c: "cast rp (dtype b) cur = Inr c" for c
  proof -
    let ?sub' = "write_value env (sub\<lparr>calls := calls sub @ [ReadValue (node b)]\<rparr>) (node b) c"
    have "tick_binding rp d now env (b, sub) = Inr (b\<lparr>next_due := now + of_int i / 1000\<rparr>, ?sub')"
      using assms(2-5) g c by (rule tick_binding_written)
    moreover have "held ?sub' (node b) = Some (if write_fails env then cur else c)"
      using assms(5) by (simp add: write_value_def)
    ultimately show ?thesis by blast
  qed
  have raised: "tick_binding rp d now env (b, sub) = Inl e" if "cast rp (dtype b) cur = Inl e" for e
    using assms(2-5) g that by (rule tick_binding_cast_raised)
  have fixed: "\<exists>sub'. tick_binding rp d now env (b, sub) =
                       Inr (b\<lparr>next_due := now + of_int i / 1000\<rparr>, sub') \<and>
                    held sub' (node b) = Some cur"
    if "cast rp (dtype b) cur = Inr cur"
    using written[OF that] by auto
  have small: "\<bar>n\<bar> \<le> 2 ^ 53 \<longrightarrow> cast rp ''int'' (PInt n) = Inr (PInt n)"
    using cast_fixed_points(4)[of n rp] by blast
  show ?thesis
    using written raised fixed small cast_fixed_points(1)[of rp x] cast_fixed_points(2)[of rp s]
      cast_fixed_points(3)[of rp f]
    by blast
qed

theorem unknown_mode_writes_coerced_value_witness:
  "mode_of plain_repr (simulation (rpm_binding\<lparr>simulation := [''mode'' \<mapsto> PStr ''hold'']\<rparr>)) \<notin>
     {''toggle'', ''random_walk'', ''random_choice'', ''cycle'', ''ramp'', ''sine''} \<and>
   interval_of 500 (simulation (rpm_binding\<lparr>simulation := [''mode'' \<mapsto> PStr ''hold'']\<rparr>)) = Inr 500 \<and>
   \<not> (1::real) < next_due (rpm_binding\<lparr>simulation := [''mode'' \<mapsto> PStr ''hold'']\<rparr>) \<and>
   \<not> read_fails calm \<and>
   held (holding ''ns=2;s=Machine.RPM'' (PInt 450))
        (node (rpm_binding\<lparr>simulation := [''mode'' \<mapsto> PStr ''hold'']\<rparr>)) = Some (PInt 450) \<and>
   \<bar>450 :: int\<bar> \<le> 2 ^ 53 \<and>
   cast plain_repr (dtype (rpm_binding\<lparr>simulation := [''mode'' \<mapsto> PStr ''hold'']\<rparr>)) (PInt 450)
     = Inr (PInt 450) \<and>
   (\<exists>sub'. tick_binding plain_repr 500 1 calm
              (rpm_binding\<lparr>simulation := [''mode'' \<mapsto> PStr ''hold'']\<rparr>,
               holding ''ns=2;s=Machine.RPM'' (PInt 450)) =
              Inr (rpm_binding\<lparr>simulation := [''mode'' \<mapsto> PStr ''hold''], next_due := 3 / 2\<rparr>, sub') \<and>
            held sub' ''ns=2;s=Machine.RPM'' = Some (PInt 450))"
proof -
  let ?b = "rpm_binding\<lparr>simulation := [''mode'' \<mapsto> PStr ''hold'']\<rparr>"
  let ?sub = "holding ''ns=2;s=Machine.RPM'' (PInt 450)"
  have m: "mode_of plain_repr (simulation ?b) \<notin>
     {''toggle'', ''random_walk'', ''random_choice'', ''cycle'', ''ramp'', ''sine''}"
    by (simp add: mode_of_def dict_get_def str_defs)
  have i: "interval_of 500 (simulation ?b) = Inr 500"
    by (simp add: interval_of_def dict_get_def)
  have due: "\<not> (1::real) < next_due ?b" by (simp add: rpm_binding_def)
  have r: "\<not> read_fails calm" by (simp add: calm_def)
  have h: "held ?sub (node ?b) = Some (PInt 450)" by (simp add: holding_def rpm_binding_def)
  have small: "\<bar>450 :: int\<bar> \<le> 2 ^ 53" by simp
  have dt: "dtype ?b = ''int''" by (simp add: rpm_binding_def)
  have c: "cast plain_repr (dtype ?b) (PInt 450) = Inr (PInt 450)"
    unfolding dt
    using small unknown_mode_writes_coerced_value[OF m i due r h, of True "[]" NaN 450]
    by blast
  have "\<exists>sub'. tick_binding plain_repr 500 1 calm (?b, ?sub) =
                 Inr (?b\<lparr>next_due := 1 + of_int 500 / 1000\<rparr>, sub') \<and>
               held sub' (node ?b) = Some (PInt 450)"
    using unknown_mode_writes_coerced_value[OF m i due r h, of True "[]" NaN 450] c by blast
  then have "\<exists>sub'. tick_binding plain_repr 500 1 calm (?b, ?sub) =
                 Inr (rpm_binding\<lparr>simulation := [''mode'' \<mapsto> PStr ''hold''], next_due := 3 / 2\<rparr>, sub') \<and>
               held sub' ''ns=2;s=Machine.RPM'' = Some (PInt 450)"
    by (simp add: rpm_binding_def)
  then show ?thesis using m i due r h small c by blast
qed

text \<open>C8 as stated fails for an integer that is not a double: an int binding with the
  unknown mode \<^verbatim>\<open>hold\<close> whose node holds \<open>2 ^ 53 + 1 = 9007199254740993\<close> writes
  \<^verbatim>\<open>int(float(9007199254740993)) = 9007199254740992\<close>, and the node holds that
  after the tick.\<close>

theorem unknown_mode_rounds_large_int:
  "tick_binding plain_repr 500 1 calm
     (rpm_binding\<lparr>simulation := [''mode'' \<mapsto> PStr ''hold'']\<rparr>,
      holding ''ns=2;s=Machine.RPM'' (PInt 9007199254740993)) =
   Inr (rpm_binding\<lparr>simulation := [''mode'' \<mapsto> PStr ''hold''], next_due := 3 / 2\<rparr>,
        \<lparr>nodes = [], held = [''ns=2;s=Machine.RPM'' \<mapsto> PInt 9007199254740992],
         calls = [ReadValue ''ns=2;s=Machine.RPM'',
                  WriteValue ''ns=2;s=Machine.RPM'' (PInt 9007199254740992)]\<rparr>)"
proof -
  let ?b = "rpm_binding\<lparr>simulation := [''mode'' \<mapsto> PStr ''hold'']\<rparr>"
  let ?sub = "holding ''ns=2;s=Machine.RPM'' (PInt 9007199254740993)"
  have m: "mode_of plain_repr (simulation ?b) \<notin>
     {''toggle'', ''random_walk'', ''random_choice'', ''cycle'', ''ramp'', ''sine''}"
    by (simp add: mode_of_def dict_get_def str_defs)
  have g: "generate plain_repr calm 500 ?b (PInt 9007199254740993) = Inr (PInt 9007199254740993, ?b)"
    using m by (rule generate_other)
  have i: "interval_of 500 (simulation ?b) = Inr 500"
    by (simp add: interval_of_def dict_get_def)
  have due: "\<not> (1::real) < next_due ?b" by (simp add: rpm_binding_def)
  have r: "\<not> read_fails calm" by (simp add: calm_def)
  have h: "held ?sub (node ?b) = Some (PInt 9007199254740993)"
    by (simp add: holding_def rpm_binding_def)
  have f: "float_of_int 9007199254740993 = Inr (Fin 9007199254740992)"
    using round_double_examples(1) by (simp add: float_of_int_def)
  have c: "cast plain_repr (dtype ?b) (PInt 9007199254740993) = Inr (PInt 9007199254740992)"
    by (simp add: rpm_binding_def cast_int_of_int f)
  show ?thesis
    using tick_binding_written[OF i due r h g c]
    by (simp add: write_value_def calm_def holding_def rpm_binding_def)
qed

section \<open>What leaves the tick loop\<close>

lemma same_config_refl: "same_config b b"
  by (simp add: same_config_def)

lemma same_config_trans: "same_config a b \<Longrightarrow> same_config b c \<Longrightarrow> same_config a c"
  by (simp add: same_config_def)

lemma conversions_succeed_same_config:
  assumes "conversions_succeed rp d b" and "same_config b b'"
  shows "conversions_succeed rp d b'"
proof -
  from assms(1) obtain i where i: "interval_of d (simulation b) = Inr i"
    and all: "\<And>env cur b0. same_config b b0 \<Longrightarrow>
                \<exists>v b1 c. generate rp env i b0 cur = Inr (v, b1) \<and> cast rp (dtype b) v = Inr c"
    by (auto simp: conversions_succeed_def)
  have eq: "simulation b' = simulation b" "dtype b' = dtype b"
    using assms(2) by (simp_all add: same_config_def)
  have "\<exists>v b1 c. generate rp env i b0 cur = Inr (v, b1) \<and> cast rp (dtype b') v = Inr c"
    if "same_config b' b0" for env cur b0
    using all[OF same_config_trans[OF assms(2) that], of env cur] eq by simp
  then show ?thesis using i eq by (auto simp: conversions_succeed_def)
qed

lemma tick_binding_returns:
  assumes "conversions_succeed rp d b"
  shows "\<exists>b' sub'. tick_binding rp d now env (b, sub) = Inr (b', sub')"
proof -
  from assms obtain i where i: "interval_of d (simulation b) = Inr i"
    and all: "\<And>env cur b0. same_config b b0 \<Longrightarrow>
                \<exists>v b1 c. generate rp env i b0 cur = Inr (v, b1) \<and> cast rp (dtype b) v = Inr c"
    by (auto simp: conversions_succeed_def)
  show ?thesis
  proof (cases "now < next_due b")
    case True
    then show ?thesis using tick_binding_not_due[OF i True] by blast
  next
    case due: False
    show ?thesis
    proof (cases "read_fails env \<or> held sub (node b) = None")
      case True
      then show ?thesis using tick_binding_read_failed[OF i due True] by blast
    next
      case False
      then obtain cur where cur: "\<not> read_fails env" "held sub (node b) = Some cur" by auto
      obtain v b1 c where g: "generate rp env i b cur = Inr (v, b1)"
        and c: "cast rp (dtype b) v = Inr c"
        using all[OF same_config_refl, of env cur] by blast
      show ?thesis using tick_binding_written[OF i due cur g c] by blast
    qed
  qed
qed

lemma tick_from_returns:
  assumes "list_all (conversions_succeed rp d) bs"
  shows "\<exists>bs' sub'. tick_from rp d now envs k bs sub = Inr (bs', sub') \<and>
                     list_all (conversions_succeed rp d) bs'"
  using assms
proof (induction bs arbitrary: k sub)
  case Nil
  then show ?case by simp
next
  case (Cons b bs)
  then have cb: "conversions_succeed rp d b" and cbs: "list_all (conversions_succeed rp d) bs"
    by simp_all
  obtain b1 sub1 where hd: "tick_binding rp d now (envs k) (b, sub) = Inr (b1, sub1)"
    using tick_binding_returns[OF cb] by blast
  have cb1: "conversions_succeed rp d b1"
    using cb tick_binding_same_config[OF hd] by (rule conversions_succeed_same_config)
  obtain bs1 sub2 where tl: "tick_from rp d now envs (Suc k) bs sub1 = Inr (bs1, sub2)"
    and cbs1: "list_all (conversions_succeed rp d) bs1"
    using Cons.IH[OF cbs] by blast
  have "tick_from rp d now envs k (b # bs) sub = Inr (b1 # bs1, sub2)"
    using hd tl by simp
  then show ?case using cb1 cbs1 by simp
qed

lemma run_returns:
  assumes "list_all (conversions_succeed rp d) bs"
  shows "\<exists>st'. run rp d ts (bs, sub) = Inr st'"
  using assms
proof (induction ts arbitrary: bs sub)
  case Nil
  then show ?case by simp
next
  case (Cons t ts)
  obtain now envs where t: "t = (now, envs)" by (cases t)
  obtain bs1 sub1 where one: "tick_from rp d now envs 0 bs sub = Inr (bs1, sub1)"
    and c1: "list_all (conversions_succeed rp d) bs1"
    using tick_from_returns[OF Cons.prems] by blast
  obtain st' where "run rp d ts (bs1, sub1) = Inr st'"
    using Cons.IH[OF c1] by blast
  then have "run rp d (t # ts) (bs, sub) = Inr st'"
    using t one by (simp add: tick_def)
  then show ?case by blast
qed

lemma toggle_bool_conversions:
  assumes "mode_of rp (simulation b) = ''toggle''" and "dtype b = ''bool''"
    and "interval_of d (simulation b) = Inr i"
  shows "conversions_succeed rp d b"
proof -
  have "\<exists>v b1 c. generate rp env i b0 cur = Inr (v, b1) \<and> cast rp (dtype b) v = Inr c"
    if "same_config b b0" for env cur b0
  proof -
    have "mode_of rp (simulation b0) = ''toggle''"
      using that assms(1) by (simp add: same_config_def)
    then have "generate rp env i b0 cur = Inr (PBool (\<not> to_bool rp cur), b0)"
      by (rule generate_toggle)
    moreover have "cast rp (dtype b) (PBool (\<not> to_bool rp cur)) = Inr (PBool (\<not> to_bool rp cur))"
      using assms(2) by (simp add: cast_bool_tag)
    ultimately show ?thesis by blast
  qed
  then show ?thesis using assms(3) by (auto simp: conversions_succeed_def)
qed

text \<open>The loop body raises exactly when one of its conversions raises.\<close>

lemma tick_binding_raises_iff:
  "(\<exists>e. tick_binding rp d now env (b, sub) = Inl e) \<longleftrightarrow>
     (\<exists>e. interval_of d (simulation b) = Inl e) \<or>
     (\<not> now < next_due b \<and> \<not> read_fails env \<and>
      (\<exists>i cur. interval_of d (simulation b) = Inr i \<and> held sub (node b) = Some cur \<and>
         ((\<exists>e. generate rp env i b cur = Inl e) \<or>
          (\<exists>v b1 e. generate rp env i b cur = Inr (v, b1) \<and> cast rp (dtype b) v = Inl e))))"
proof (cases "interval_of d (simulation b)")
  case (Inl e)
  then show ?thesis using tick_binding_no_interval[OF Inl] by auto
next
  case i: (Inr i)
  show ?thesis
  proof (cases "now < next_due b")
    case True
    then show ?thesis using tick_binding_not_due[OF i True] i by auto
  next
    case due: False
    show ?thesis
    proof (cases "read_fails env \<or> held sub (node b) = None")
      case True
      then show ?thesis using tick_binding_read_failed[OF i due True] i by auto
    next
      case False
      then obtain cur where cur: "\<not> read_fails env" "held sub (node b) = Some cur" by auto
      show ?thesis
      proof (cases "generate rp env i b cur")
        case (Inl e)
        then show ?thesis
          using tick_binding_generate_raised[OF i due cur Inl] i due cur by auto
      next
        case (Inr r)
        obtain v b1 where g: "generate rp env i b cur = Inr (v, b1)" using Inr by (cases r) simp
        show ?thesis
        proof (cases "cast rp (dtype b) v")
          case (Inl e)
          then show ?thesis
            using tick_binding_cast_raised[OF i due cur g Inl] i due cur g by auto
        next
          case c: (Inr c)
          then show ?thesis
            using tick_binding_written[OF i due cur g c] i due cur g by auto
        qed
      qed
    qed
  qed
qed

text \<open>
  C2, as amended. A tick absorbs the failures of the substrate: whether the read and
  the write fail has no part in whether the loop body raises. It raises exactly when
  a conversion of its own raises (\<^verbatim>\<open>int()\<close> of the interval, \<^verbatim>\<open>float()\<close> of a
  parameter or of the value read, \<^verbatim>\<open>math.sin\<close>, \<^verbatim>\<open>_cast\<close> of the new value), and
  then the exception leaves the loop. When no conversion of any binding can raise,
  as for a toggling variable of type bool with an integer interval, the loop runs for
  any number of ticks, whatever the clock and the substrate do.
\<close>

theorem tick_raises_only_conversion_errors:
  "((\<exists>e. tick_binding rp d now env (b, sub) = Inl e) \<longleftrightarrow>
      (\<exists>e. interval_of d (simulation b) = Inl e) \<or>
      (\<not> now < next_due b \<and> \<not> read_fails env \<and>
       (\<exists>i cur. interval_of d (simulation b) = Inr i \<and> held sub (node b) = Some cur \<and>
          ((\<exists>e. generate rp env i b cur = Inl e) \<or>
           (\<exists>v b1 e. generate rp env i b cur = Inr (v, b1) \<and> cast rp (dtype b) v = Inl e))))) \<and>
   (list_all (conversions_succeed rp d) bs \<longrightarrow> (\<exists>st'. run rp d ts (bs, sub') = Inr st')) \<and>
   (mode_of rp (simulation b) = ''toggle'' \<and> dtype b = ''bool'' \<and>
    interval_of d (simulation b) = Inr j \<longrightarrow> conversions_succeed rp d b)"
  using tick_binding_raises_iff[of rp d now env b sub] run_returns[of rp d bs ts sub']
    toggle_bool_conversions[of rp b d j]
  by blast

theorem tick_raises_only_conversion_errors_witness:
  "list_all (conversions_succeed plain_repr 500) [running_binding] \<and>
   (\<exists>st'. run plain_repr 500
            [(3, \<lambda>k. calm\<lparr>read_fails := True\<rparr>), (7, \<lambda>k. calm\<lparr>write_fails := True\<rparr>)]
            ([running_binding], holding (node running_binding) (PBool False)) = Inr st') \<and>
   mode_of plain_repr (simulation running_binding) = ''toggle'' \<and>
   dtype running_binding = ''bool'' \<and>
   interval_of 500 (simulation running_binding) = Inr 3000 \<and>
   conversions_succeed plain_repr 500 running_binding"
proof -
  have m: "mode_of plain_repr (simulation running_binding) = ''toggle''"
    and t: "dtype running_binding = ''bool''"
    and i: "interval_of 500 (simulation running_binding) = Inr 3000"
    by (simp_all add: running_binding_def running_facts)
  have c: "conversions_succeed plain_repr 500 running_binding"
    using m t i
      tick_raises_only_conversion_errors[of plain_repr 500 0 calm running_binding
        "holding (node running_binding) (PBool False)" "[]" "[]"
        "holding (node running_binding) (PBool False)" 3000]
    by blast
  then have l: "list_all (conversions_succeed plain_repr 500) [running_binding]" by simp
  have "\<exists>st'. run plain_repr 500
            [(3, \<lambda>k. calm\<lparr>read_fails := True\<rparr>), (7, \<lambda>k. calm\<lparr>write_fails := True\<rparr>)]
            ([running_binding], holding (node running_binding) (PBool False)) = Inr st'"
    using l
      tick_raises_only_conversion_errors[of plain_repr 500 0 calm running_binding
        "holding (node running_binding) (PBool False)" "[running_binding]"
        "[(3, \<lambda>k. calm\<lparr>read_fails := True\<rparr>), (7, \<lambda>k. calm\<lparr>write_fails := True\<rparr>)]"
        "holding (node running_binding) (PBool False)" 3000]
    by blast
  then show ?thesis using m t i c l by blast
qed

text \<open>C2 as stated fails: a string variable that holds \<^verbatim>\<open>"Idle"\<close> and is simulated
  with mode ramp makes \<^verbatim>\<open>float(current)\<close> raise \<^verbatim>\<open>ValueError\<close>; nothing in
  \<^verbatim>\<open>_tick\<close> or \<^verbatim>\<open>run\<close> catches it, and the loop ends.\<close>

theorem ramp_on_text_raises:
  "tick_binding plain_repr 500 1 calm
     (text_ramp_binding, holding (node text_ramp_binding) (PStr ''Idle'')) = Inl ValueError \<and>
   run plain_repr 500 [(1, \<lambda>k. calm)]
     ([text_ramp_binding], holding (node text_ramp_binding) (PStr ''Idle'')) = Inl ValueError"
proof -
  let ?sub = "holding (node text_ramp_binding) (PStr ''Idle'')"
  have i: "interval_of 500 (simulation text_ramp_binding) = Inr 500"
    by (simp add: text_ramp_binding_def interval_of_def dict_get_def)
  have due: "\<not> (1::real) < next_due text_ramp_binding" by (simp add: text_ramp_binding_def)
  have r: "\<not> read_fails calm" by (simp add: calm_def)
  have h: "held ?sub (node text_ramp_binding) = Some (PStr ''Idle'')" by (simp add: holding_def)
  have m: "mode_of plain_repr (simulation text_ramp_binding) = ''ramp''"
    by (simp add: text_ramp_binding_def mode_of_def dict_get_def str_defs)
  have p: "parse_float ''Idle'' = Inl ValueError"
    by (simp add: num_defs str_defs)
  have "gen_ramp (simulation text_ramp_binding) (PStr ''Idle'') = Inl ValueError"
    using p by (simp add: gen_ramp_def text_ramp_binding_def dict_get_def)
  then have g: "generate plain_repr calm 500 text_ramp_binding (PStr ''Idle'') = Inl ValueError"
    using m by (simp add: generate_def)
  have t: "tick_binding plain_repr 500 1 calm (text_ramp_binding, ?sub) = Inl ValueError"
    using i due r h g by (rule tick_binding_generate_raised)
  then show ?thesis by (simp add: tick_def)
qed

section \<open>Setup: the initial value and the node identifier\<close>

lemma ensure_cached:
  "fst cs (clean_path path) = Some h \<Longrightarrow> ensure_object_path cs ns_idx path = (h, cs)"
  by (subst ensure_object_path.simps) simp

lemma ensure_same_clean_path:
  assumes "clean_path p = clean_path q"
  shows "ensure_object_path cs ns_idx p = ensure_object_path cs ns_idx q"
  using ensure_object_path.simps[of cs ns_idx p] ensure_object_path.simps[of cs ns_idx q] assms
  by simp

lemma var_dtype_of_name:
  "item_type item = Some (PStr ''bool'') \<Longrightarrow> var_dtype rp item = ''bool''"
  "item_type item = Some (PStr ''int'') \<Longrightarrow> var_dtype rp item = ''int''"
  "item_type item = Some (PStr ''float'') \<Longrightarrow> var_dtype rp item = ''float''"
  "item_type item = Some (PStr ''string'') \<Longrightarrow> var_dtype rp item = ''string''"
  "item_type item = None \<Longrightarrow> var_dtype rp item = ''float''"
  by (simp_all add: var_dtype_def get_or_def str_defs)

lemma setup_item_creates:
  assumes "setup_item rp d ns_idx root_name now item st = Inr st'"
  shows "\<exists>v parent. var_initial rp item = Inr v \<and>
           last (nodes (space st')) =
             \<lparr>n_id = var_node_id rp ns_idx root_name item,
              n_name = snd (split_path (var_path rp root_name item)),
              n_parent = parent, n_initial = Some v, n_writable = var_writable item\<rparr> \<and>
           held (space st') (var_node_id rp ns_idx root_name item) = Some v"
proof -
  from assms obtain v where v: "var_initial rp item = Inr v"
    by (auto simp: setup_item_def Let_def and_then_eq_Inr)
  obtain parent cache1 sub1 where e:
    "ensure_object_path (cache st, space st) ns_idx (fst (split_path (var_path rp root_name item)))
       = (parent, cache1, sub1)"
    by (cases "ensure_object_path (cache st, space st) ns_idx
                 (fst (split_path (var_path rp root_name item)))") auto
  let ?nid = "var_node_id rp ns_idx root_name item"
  let ?sub2 = "add_variable sub1 parent ?nid (snd (split_path (var_path rp root_name item))) v
                 (var_writable item)"
  from assms v e have "space st' = ?sub2"
    by (auto simp: setup_item_def Let_def and_then_eq_Inr)
  then show ?thesis using v by (auto simp: add_variable_def)
qed

text \<open>
  C10. A descriptor without the key \<^verbatim>\<open>initial\<close> gets
  \<^verbatim>\<open>_cast(dtype, False)\<close> when the lower-cased type is \<^verbatim>\<open>bool\<close> and
  \<^verbatim>\<open>_cast(dtype, 0)\<close> otherwise, and the variable node is created holding that
  value: an int variable starts at 0, a float variable (also one with no type) at 0.0,
  a bool variable at false, and a string variable at the string \<^verbatim>\<open>"0"\<close>.
\<close>

theorem omitted_initial_defaults:
  "(item_initial item = None \<longrightarrow>
      var_initial rp item =
        cast rp (var_dtype rp item) (if var_dtype rp item = ''bool'' then PBool False else PInt 0)) \<and>
   (item_initial item = None \<and> setup_item rp d ns_idx root_name now item st = Inr st' \<longrightarrow>
      (\<exists>v. cast rp (var_dtype rp item)
               (if var_dtype rp item = ''bool'' then PBool False else PInt 0) = Inr v \<and>
            n_initial (last (nodes (space st'))) = Some v \<and>
            held (space st') (var_node_id rp ns_idx root_name item) = Some v)) \<and>
   var_initial rp (item\<lparr>item_type := Some (PStr ''bool''), item_initial := None\<rparr>) = Inr (PBool False) \<and>
   var_initial rp (item\<lparr>item_type := Some (PStr ''int''), item_initial := None\<rparr>) = Inr (PInt 0) \<and>
   var_initial rp (item\<lparr>item_type := Some (PStr ''float''), item_initial := None\<rparr>) = Inr (PFloat (Fin 0)) \<and>
   var_initial rp (item\<lparr>item_type := None, item_initial := None\<rparr>) = Inr (PFloat (Fin 0)) \<and>
   var_initial rp (item\<lparr>item_type := Some (PStr ''string''), item_initial := None\<rparr>) = Inr (PStr ''0'') \<and>
   PStr ''0'' \<noteq> PStr ''''"
proof -
  have general: "item_initial item = None \<longrightarrow>
      var_initial rp item =
        cast rp (var_dtype rp item) (if var_dtype rp item = ''bool'' then PBool False else PInt 0)"
    by (simp add: var_initial_def Let_def)
  have created: "item_initial item = None \<and> setup_item rp d ns_idx root_name now item st = Inr st' \<longrightarrow>
      (\<exists>v. cast rp (var_dtype rp item)
               (if var_dtype rp item = ''bool'' then PBool False else PInt 0) = Inr v \<and>
            n_initial (last (nodes (space st'))) = Some v \<and>
            held (space st') (var_node_id rp ns_idx root_name item) = Some v)"
  proof
    assume a: "item_initial item = None \<and> setup_item rp d ns_idx root_name now item st = Inr st'"
    then obtain v parent where v: "var_initial rp item = Inr v"
      and n: "last (nodes (space st')) =
             \<lparr>n_id = var_node_id rp ns_idx root_name item,
              n_name = snd (split_path (var_path rp root_name item)),
              n_parent = parent, n_initial = Some v, n_writable = var_writable item\<rparr>"
      and h: "held (space st') (var_node_id rp ns_idx root_name item) = Some v"
      using setup_item_creates by blast
    have "cast rp (var_dtype rp item)
               (if var_dtype rp item = ''bool'' then PBool False else PInt 0) = Inr v"
      using a v general by simp
    then show "\<exists>v. cast rp (var_dtype rp item)
               (if var_dtype rp item = ''bool'' then PBool False else PInt 0) = Inr v \<and>
            n_initial (last (nodes (space st'))) = Some v \<and>
            held (space st') (var_node_id rp ns_idx root_name item) = Some v"
      using n h by simp
  qed
  have b: "var_initial rp (item\<lparr>item_type := Some (PStr ''bool''), item_initial := None\<rparr>) = Inr (PBool False)"
    by (simp add: var_initial_def Let_def var_dtype_of_name cast_bool_tag)
  have i: "var_initial rp (item\<lparr>item_type := Some (PStr ''int''), item_initial := None\<rparr>) = Inr (PInt 0)"
    by (simp add: var_initial_def Let_def var_dtype_of_name cast_int_tag)
  have f: "var_initial rp (item\<lparr>item_type := Some (PStr ''float''), item_initial := None\<rparr>) = Inr (PFloat (Fin 0))"
    by (simp add: var_initial_def Let_def var_dtype_of_name cast_float_tag)
  have n: "var_initial rp (item\<lparr>item_type := None, item_initial := None\<rparr>) = Inr (PFloat (Fin 0))"
    by (simp add: var_initial_def Let_def var_dtype_of_name cast_float_tag)
  have s: "var_initial rp (item\<lparr>item_type := Some (PStr ''string''), item_initial := None\<rparr>) = Inr (PStr ''0'')"
    by (simp add: var_initial_def Let_def var_dtype_of_name cast_string_tag num_defs)
  show ?thesis using general created b i f n s by simp
qed

lemmas path_defs = clean_path_def split_path_def rsplit1_def derived_id_def objects_node_def

lemma setup_root:
  "sim_setup rp d 2 ''Machine'' clock (Some []) = Inr machine_state"
proof -
  let ?cs = "([[] \<mapsto> objects_node], \<lparr>nodes = [], held = Map.empty, calls = []\<rparr>)"
  have c: "clean_path ''Machine'' = ''Machine''" by (simp add: path_defs)
  have s: "split_path ''Machine'' = ([], ''Machine'')" by (simp add: path_defs)
  have top: "ensure_object_path ?cs 2 [] = (objects_node, ?cs)"
    by (rule ensure_cached) (simp add: path_defs)
  have "ensure_object_path ?cs 2 ''Machine'' =
          (''ns=2;s=Machine'', [[] \<mapsto> ''i=85'', ''Machine'' \<mapsto> ''ns=2;s=Machine''],
           \<lparr>nodes = [\<lparr>n_id = ''ns=2;s=Machine'', n_name = ''Machine'', n_parent = ''i=85'',
                       n_initial = None, n_writable = False\<rparr>],
            held = Map.empty, calls = []\<rparr>)"
    by (subst ensure_object_path.simps)
       (simp add: c s top Let_def, simp add: path_defs add_object_def str_defs num_defs)
  then show ?thesis by (simp add: sim_setup_def machine_state_def)
qed

lemma setup_label:
  "setup_item rp d 2 ''Machine'' now label_item machine_state =
     Inr \<lparr>cache = [[] \<mapsto> ''i=85'', ''Machine'' \<mapsto> ''ns=2;s=Machine''],
          space = \<lparr>nodes = [\<lparr>n_id = ''ns=2;s=Machine'', n_name = ''Machine'', n_parent = ''i=85'',
                             n_initial = None, n_writable = False\<rparr>,
                            \<lparr>n_id = ''ns=2;s=Machine.Label'', n_name = ''Label'',
                             n_parent = ''ns=2;s=Machine'', n_initial = Some (PStr ''0''),
                             n_writable = True\<rparr>],
                   held = [''ns=2;s=Machine.Label'' \<mapsto> PStr ''0''], calls = []\<rparr>,
          bindings = []\<rparr>"
proof -
  have n: "var_name rp label_item = ''Label''"
    unfolding var_name_def get_or_def label_item_def item0_def by simp
  have p: "var_path rp ''Machine'' label_item = ''Machine/Label''"
    unfolding var_path_def n unfolding get_or_def label_item_def item0_def by simp
  have fields: "item_initial label_item = None" "item_node_id label_item = None"
    "item_writable label_item = None" "item_simulation label_item = None"
    "item_type label_item = Some (PStr ''string'')"
    by (simp_all add: label_item_def item0_def)
  have t: "var_dtype rp label_item = ''string''"
    by (simp add: var_dtype_of_name fields)
  have i: "var_initial rp label_item = Inr (PStr ''0'')"
    by (simp add: var_initial_def t fields cast_string_tag num_defs)
  have s: "split_path ''Machine/Label'' = (''Machine'', ''Label'')" by (simp add: path_defs)
  have e: "ensure_object_path (cache machine_state, space machine_state) 2 ''Machine'' =
             (''ns=2;s=Machine'', cache machine_state, space machine_state)"
    by (rule ensure_cached) (simp add: path_defs machine_state_def)
  have nid: "var_node_id rp 2 ''Machine'' label_item = ''ns=2;s=Machine.Label''"
    by (simp add: var_node_id_def p fields derived_id_def str_defs num_defs)
  have w: "var_writable label_item" by (simp add: var_writable_def fields)
  have b: "var_binding rp d now ''ns=2;s=Machine.Label'' ''string'' label_item = Inr None"
    by (simp add: var_binding_def fields)
  show ?thesis
    by (simp add: setup_item_def p t i s e nid w b add_variable_def)
       (simp add: machine_state_def Let_def)
qed

theorem omitted_initial_defaults_witness:
  "item_initial label_item = None \<and>
   var_initial plain_repr label_item = Inr (PStr ''0'') \<and>
   setup_item plain_repr 500 2 ''Machine'' 0 label_item machine_state =
     Inr \<lparr>cache = [[] \<mapsto> ''i=85'', ''Machine'' \<mapsto> ''ns=2;s=Machine''],
          space = \<lparr>nodes = [\<lparr>n_id = ''ns=2;s=Machine'', n_name = ''Machine'', n_parent = ''i=85'',
                             n_initial = None, n_writable = False\<rparr>,
                            \<lparr>n_id = ''ns=2;s=Machine.Label'', n_name = ''Label'',
                             n_parent = ''ns=2;s=Machine'', n_initial = Some (PStr ''0''),
                             n_writable = True\<rparr>],
                   held = [''ns=2;s=Machine.Label'' \<mapsto> PStr ''0''], calls = []\<rparr>,
          bindings = []\<rparr> \<and>
   cast plain_repr (var_dtype plain_repr label_item) (PInt 0) = Inr (PStr ''0'')"
proof -
  let ?st' = "\<lparr>cache = [[] \<mapsto> ''i=85'', ''Machine'' \<mapsto> ''ns=2;s=Machine''],
          space = \<lparr>nodes = [\<lparr>n_id = ''ns=2;s=Machine'', n_name = ''Machine'', n_parent = ''i=85'',
                             n_initial = None, n_writable = False\<rparr>,
                            \<lparr>n_id = ''ns=2;s=Machine.Label'', n_name = ''Label'',
                             n_parent = ''ns=2;s=Machine'', n_initial = Some (PStr ''0''),
                             n_writable = True\<rparr>],
                   held = [''ns=2;s=Machine.Label'' \<mapsto> PStr ''0''], calls = []\<rparr>,
          bindings = []\<rparr>"
  have a: "item_initial label_item = None" by (simp add: label_item_def item0_def)
  have t: "var_dtype plain_repr label_item = ''string''"
    by (simp add: var_dtype_of_name label_item_def)
  have s: "setup_item plain_repr 500 2 ''Machine'' 0 label_item machine_state = Inr ?st'"
    by (rule setup_label)
  show ?thesis
    using a t s
      omitted_initial_defaults[of label_item plain_repr 500 2 "''Machine''" 0 machine_state ?st']
    by simp
qed

section \<open>The identifier of a variable node\<close>

lemma var_node_id_derived:
  "var_node_id rp ns_idx root_name (item\<lparr>item_node_id := None\<rparr>) =
     derived_id ns_idx (str_replace CHR ''/'' CHR ''.'' (var_path rp root_name item))"
proof -
  have "var_path rp root_name (item\<lparr>item_node_id := None\<rparr>) = var_path rp root_name item"
    by (simp add: var_path_def var_name_def)
  then show ?thesis by (simp add: var_node_id_def)
qed

lemma slashed_facts:
  "var_path rp root_name slashed_item = ''Machine//Running''"
  "var_node_id rp 2 root_name slashed_item = ''ns=2;s=Machine..Running''"
  "var_path rp root_name plain_item = ''Machine/Running''"
  "var_node_id rp 2 root_name plain_item = ''ns=2;s=Machine.Running''"
proof -
  have f: "item_path slashed_item = Some (PStr ''Machine//Running'')"
    "item_node_id slashed_item = None"
    "item_path plain_item = Some (PStr ''Machine/Running'')"
    "item_node_id plain_item = None"
    by (simp_all add: slashed_item_def plain_item_def item0_def)
  show p: "var_path rp root_name slashed_item = ''Machine//Running''"
    unfolding var_path_def f get_or_def by simp
  show q: "var_path rp root_name plain_item = ''Machine/Running''"
    unfolding var_path_def f get_or_def by simp
  show "var_node_id rp 2 root_name slashed_item = ''ns=2;s=Machine..Running''"
    by (simp add: var_node_id_def p f derived_id_def str_defs num_defs)
  show "var_node_id rp 2 root_name plain_item = ''ns=2;s=Machine.Running''"
    by (simp add: var_node_id_def q f derived_id_def str_defs num_defs)
qed

lemma green_id:
  "var_node_id rp 2 root_name example_green = ''ns=2;s=Machine.StackLight.Green''"
proof -
  have f: "item_path example_green = Some (PStr ''Machine/StackLight/Green'')"
    "item_node_id example_green = None"
    by (simp_all add: example_green_def)
  have p: "var_path rp root_name example_green = ''Machine/StackLight/Green''"
    unfolding var_path_def f get_or_def by simp
  show ?thesis
    by (simp add: var_node_id_def p f derived_id_def str_defs num_defs)
qed

lemma setup_slashed:
  "setup_item rp d 2 ''Machine'' now slashed_item machine_state =
     Inr \<lparr>cache = [[] \<mapsto> ''i=85'', ''Machine'' \<mapsto> ''ns=2;s=Machine''],
          space = \<lparr>nodes = [\<lparr>n_id = ''ns=2;s=Machine'', n_name = ''Machine'', n_parent = ''i=85'',
                             n_initial = None, n_writable = False\<rparr>,
                            \<lparr>n_id = ''ns=2;s=Machine..Running'', n_name = ''Running'',
                             n_parent = ''ns=2;s=Machine'', n_initial = Some (PFloat (Fin 0)),
                             n_writable = True\<rparr>],
                   held = [''ns=2;s=Machine..Running'' \<mapsto> PFloat (Fin 0)], calls = []\<rparr>,
          bindings = []\<rparr>"
proof -
  have fields: "item_initial slashed_item = None" "item_node_id slashed_item = None"
    "item_writable slashed_item = None" "item_simulation slashed_item = None"
    "item_type slashed_item = None"
    by (simp_all add: slashed_item_def item0_def)
  have t: "var_dtype rp slashed_item = ''float''"
    by (simp add: var_dtype_of_name fields)
  have i: "var_initial rp slashed_item = Inr (PFloat (Fin 0))"
    by (simp add: var_initial_def t fields cast_float_tag)
  have s: "split_path ''Machine//Running'' = (''Machine'', ''Running'')" by (simp add: path_defs)
  have e: "ensure_object_path (cache machine_state, space machine_state) 2 ''Machine'' =
             (''ns=2;s=Machine'', cache machine_state, space machine_state)"
    by (rule ensure_cached) (simp add: path_defs machine_state_def)
  have w: "var_writable slashed_item" by (simp add: var_writable_def fields)
  have b: "var_binding rp d now ''ns=2;s=Machine..Running'' ''float'' slashed_item = Inr None"
    by (simp add: var_binding_def fields)
  show ?thesis
    by (simp add: setup_item_def slashed_facts t i s e w b add_variable_def)
       (simp add: machine_state_def Let_def)
qed

text \<open>
  C1. The identifier of a variable without an explicit one is
  \<^verbatim>\<open>ns=<index>;s=<path with "/" replaced by ".">\<close>, and for the path
  \<^verbatim>\<open>Machine/StackLight/Green\<close> and index 2 it is the identifier the claim gives. But
  the path it is derived from is the descriptor's path as written, not the normalised
  one: \<^verbatim>\<open>Machine//Running\<close> and \<^verbatim>\<open>Machine/Running\<close> normalise to the same
  string and receive different identifiers, while \<^verbatim>\<open>_ensure_object_path\<close> treats the
  two paths alike and \<^verbatim>\<open>_split_path\<close> gives both variables the parent
  \<^verbatim>\<open>Machine\<close> and the name \<^verbatim>\<open>Running\<close>.
\<close>

theorem variable_id_from_unnormalised_path:
  "var_node_id rp 2 root_name example_green = ''ns=2;s=Machine.StackLight.Green'' \<and>
   var_node_id rp ns_idx root_name (item\<lparr>item_node_id := None\<rparr>) =
     derived_id ns_idx (str_replace CHR ''/'' CHR ''.'' (var_path rp root_name item)) \<and>
   var_path rp root_name slashed_item = ''Machine//Running'' \<and>
   var_path rp root_name plain_item = ''Machine/Running'' \<and>
   clean_path ''Machine//Running'' = clean_path ''Machine/Running'' \<and>
   var_node_id rp 2 root_name slashed_item = ''ns=2;s=Machine..Running'' \<and>
   var_node_id rp 2 root_name plain_item = ''ns=2;s=Machine.Running'' \<and>
   ensure_object_path cs 2 ''Machine//Running'' = ensure_object_path cs 2 ''Machine/Running'' \<and>
   split_path ''Machine//Running'' = split_path ''Machine/Running'' \<and>
   setup_item rp d 2 ''Machine'' now slashed_item machine_state =
     Inr \<lparr>cache = [[] \<mapsto> ''i=85'', ''Machine'' \<mapsto> ''ns=2;s=Machine''],
          space = \<lparr>nodes = [\<lparr>n_id = ''ns=2;s=Machine'', n_name = ''Machine'', n_parent = ''i=85'',
                             n_initial = None, n_writable = False\<rparr>,
                            \<lparr>n_id = ''ns=2;s=Machine..Running'', n_name = ''Running'',
                             n_parent = ''ns=2;s=Machine'', n_initial = Some (PFloat (Fin 0)),
                             n_writable = True\<rparr>],
                   held = [''ns=2;s=Machine..Running'' \<mapsto> PFloat (Fin 0)], calls = []\<rparr>,
          bindings = []\<rparr>"
proof -
  have c: "clean_path ''Machine//Running'' = clean_path ''Machine/Running''"
    by (simp add: clean_path_def)
  have e: "ensure_object_path cs 2 ''Machine//Running'' = ensure_object_path cs 2 ''Machine/Running''"
    using c by (rule ensure_same_clean_path)
  have s: "split_path ''Machine//Running'' = split_path ''Machine/Running''"
    using c by (simp add: split_path_def)
  show ?thesis
    using green_id[of rp root_name] var_node_id_derived[of rp ns_idx root_name item]
      slashed_facts[of rp root_name] c e s setup_slashed[of rp d now]
    by simp
qed

section \<open>The schedule\<close>

lemma tick_from_Cons_Inr:
  assumes "tick_from rp d now envs k (b # bs) sub = Inr (bs', sub')"
  obtains b1 sub1 bs1 where "tick_binding rp d now (envs k) (b, sub) = Inr (b1, sub1)"
    and "tick_from rp d now envs (Suc k) bs sub1 = Inr (bs1, sub')" and "bs' = b1 # bs1"
proof -
  from assms obtain r1 where r1: "tick_binding rp d now (envs k) (b, sub) = Inr r1"
    and rest: "(case r1 of (b1, sub1) \<Rightarrow>
                 and_then (tick_from rp d now envs (Suc k) bs sub1)
                   (\<lambda>(bs1, sub2). Inr (b1 # bs1, sub2))) = Inr (bs', sub')"
    by (auto simp: and_then_eq_Inr)
  obtain b1 sub1 where p: "r1 = (b1, sub1)" by (cases r1)
  from rest p obtain r2 where r2: "tick_from rp d now envs (Suc k) bs sub1 = Inr r2"
    and fin: "(case r2 of (bs1, sub2) \<Rightarrow> Inr (b1 # bs1, sub2)) = (Inr (bs', sub') :: error + _)"
    by (auto simp: and_then_eq_Inr)
  obtain bs1 sub2 where q: "r2 = (bs1, sub2)" by (cases r2)
  show ?thesis using that[of b1 sub1 bs1] r1 p r2 q fin by simp
qed

lemma scheduled_later:
  assumes "scheduled d t b" and "t \<le> t'"
  shows "scheduled d t' b"
proof -
  from assms(1) obtain i where i: "interval_of d (simulation b) = Inr i"
    and n: "next_due b \<le> t + of_int i / 1000"
    by (auto simp: scheduled_def)
  have "next_due b \<le> t' + of_int i / 1000" using n assms(2) by linarith
  then show ?thesis using i by (auto simp: scheduled_def)
qed

text \<open>A tick that runs when the clock reads \<open>now\<close>, not before the binding was scheduled,
  replaces \<^verbatim>\<open>next_due = t0 + interval\<close> by \<^verbatim>\<open>now + interval\<close> with the same
  interval, or leaves it.\<close>

lemma tick_binding_scheduled:
  assumes "tick_binding rp d now env (b, sub) = Inr (b', sub')"
    and "scheduled d t b" and "t \<le> now"
  shows "next_due b \<le> next_due b' \<and> scheduled d now b'"
proof -
  from assms(2) obtain j where j: "interval_of d (simulation b) = Inr j"
    and n: "next_due b \<le> t + of_int j / 1000"
    by (auto simp: scheduled_def)
  have later: "scheduled d now b" using assms(2,3) by (rule scheduled_later)
  from assms(1) show ?thesis
  proof (cases rule: tick_binding_cases)
    case (not_due i)
    then show ?thesis using later by simp
  next
    case (read_failed i)
    then show ?thesis using later by simp
  next
    case (written i cur v b1 c)
    have ij: "i = j" using written(1) j by simp
    have cfg: "simulation b1 = simulation b"
      using generate_same_config[OF written(5)] by (simp add: same_config_def)
    have nd: "next_due b' = now + of_int j / 1000" using written(7) ij by simp
    have "next_due b \<le> next_due b'" using n nd assms(3) by linarith
    moreover have "scheduled d now b'"
      using j nd cfg written(7) by (auto simp: scheduled_def)
    ultimately show ?thesis by simp
  qed
qed

lemma advanced_refl: "advanced b b"
  by (simp add: advanced_def same_config_def)

lemma advanced_trans: "advanced a b \<Longrightarrow> advanced b c \<Longrightarrow> advanced a c"
  by (auto simp: advanced_def same_config_def)

lemma tick_from_scheduled:
  assumes "tick_from rp d now envs k bs sub = Inr (bs', sub')"
    and "list_all (scheduled d t) bs" and "t \<le> now"
  shows "list_all2 advanced bs bs' \<and> list_all (scheduled d now) bs'"
  using assms(1,2)
proof (induction bs arbitrary: k sub bs')
  case Nil
  then show ?case by simp
next
  case (Cons b bs)
  from Cons.prems(1) obtain b1 sub1 bs1 where
    hd: "tick_binding rp d now (envs k) (b, sub) = Inr (b1, sub1)"
    and tl: "tick_from rp d now envs (Suc k) bs sub1 = Inr (bs1, sub')"
    and eq: "bs' = b1 # bs1"
    by (rule tick_from_Cons_Inr)
  have sb: "scheduled d t b" and sbs: "list_all (scheduled d t) bs"
    using Cons.prems(2) by simp_all
  have one: "next_due b \<le> next_due b1 \<and> scheduled d now b1"
    using hd sb assms(3) by (rule tick_binding_scheduled)
  then have "advanced b b1"
    using tick_binding_same_config[OF hd] by (simp add: advanced_def)
  moreover have "list_all2 advanced bs bs1 \<and> list_all (scheduled d now) bs1"
    using tl sbs by (rule Cons.IH)
  ultimately show ?case using eq one by simp
qed

lemma run_scheduled:
  assumes "run rp d ts (bs, sub) = Inr (bs', sub')"
    and "list_all (scheduled d t) bs" and "sorted (t # map fst ts)"
  shows "list_all2 advanced bs bs'"
  using assms
proof (induction ts arbitrary: bs sub t)
  case Nil
  then show ?case by (simp add: list_all2_refl advanced_refl)
next
  case (Cons x ts)
  obtain now envs where x: "x = (now, envs)" by (cases x)
  from Cons.prems(1) x obtain st1 where
    one: "tick rp d now envs (bs, sub) = Inr st1" and more: "run rp d ts st1 = Inr (bs', sub')"
    by (auto simp: and_then_eq_Inr)
  obtain bs1 sub1 where st1: "st1 = (bs1, sub1)" by (cases st1)
  have le: "t \<le> now" and rest: "sorted (now # map fst ts)"
    using Cons.prems(3) x by simp_all
  have tf: "tick_from rp d now envs 0 bs sub = Inr (bs1, sub1)"
    using one st1 by (simp add: tick_def)
  have a1: "list_all2 advanced bs bs1 \<and> list_all (scheduled d now) bs1"
    using tf Cons.prems(2) le by (rule tick_from_scheduled)
  have "list_all2 advanced bs1 bs'"
    using Cons.IH[of bs1 sub1 now] more st1 a1 rest by simp
  then show ?case
    using a1 list_all2_trans[of advanced advanced advanced bs bs1 bs'] advanced_trans by blast
qed

text \<open>The bindings that \<^verbatim>\<open>setup\<close> creates are scheduled at the clock readings of
  \<^verbatim>\<open>setup\<close>.\<close>

lemma var_binding_scheduled:
  assumes "var_binding rp d t nid dt item = Inr (Some b)"
  shows "scheduled d t b"
proof (cases "item_simulation item")
  case None
  then show ?thesis using assms by (simp add: var_binding_def)
next
  case (Some sim_cfg)
  show ?thesis
  proof (cases "truthy (dict_get sim_cfg ''mode'' PNone)")
    case False
    then show ?thesis using assms Some by (simp add: var_binding_def)
  next
    case True
    then obtain i where i: "py_int (dict_get sim_cfg ''interval_ms'' (PInt d)) = Inr i"
      and b: "b = \<lparr>node = nid, node_id = nid, dtype = dt, simulation = sim_cfg,
                   next_due = t + of_int i / 1000, cycle_index = 0, phase = Fin 0\<rparr>"
      using assms Some by (auto simp: var_binding_def and_then_eq_Inr)
    show ?thesis using i b by (simp add: scheduled_def interval_of_def)
  qed
qed

lemma setup_item_scheduled:
  assumes "setup_item rp d ns_idx root_name now item st = Inr st'"
    and "list_all (scheduled d t) (bindings st)" and "now \<le> t"
  shows "list_all (scheduled d t) (bindings st')"
proof -
  obtain parent cache1 sub1 where e:
    "ensure_object_path (cache st, space st) ns_idx (fst (split_path (var_path rp root_name item)))
       = (parent, cache1, sub1)"
    by (cases "ensure_object_path (cache st, space st) ns_idx
                 (fst (split_path (var_path rp root_name item)))") auto
  from assms(1) e obtain nb where
    nb: "var_binding rp d now (var_node_id rp ns_idx root_name item) (var_dtype rp item) item = Inr nb"
    and bs: "bindings st' = (case nb of None \<Rightarrow> bindings st | Some b \<Rightarrow> bindings st @ [b])"
    by (auto simp: setup_item_def Let_def and_then_eq_Inr)
  show ?thesis
  proof (cases nb)
    case None
    then show ?thesis using bs assms(2) by simp
  next
    case (Some b)
    have "scheduled d now b" using nb Some var_binding_scheduled by blast
    then have "scheduled d t b" using assms(3) by (rule scheduled_later)
    then show ?thesis using bs Some assms(2) by simp
  qed
qed

lemma setup_vars_scheduled:
  assumes "setup_vars rp d ns_idx root_name clock k items st = Inr st'"
    and "list_all (scheduled d t) (bindings st)" and "\<forall>j. clock j \<le> t"
  shows "list_all (scheduled d t) (bindings st')"
  using assms(1,2)
proof (induction items arbitrary: k st)
  case Nil
  then show ?case by simp
next
  case (Cons x items)
  show ?case
  proof (cases x)
    case None
    then show ?thesis using Cons by simp
  next
    case (Some item)
    from Cons.prems(1) Some obtain st1 where
      one: "setup_item rp d ns_idx root_name (clock k) item st = Inr st1"
      and more: "setup_vars rp d ns_idx root_name clock (Suc k) items st1 = Inr st'"
      by (auto simp: and_then_eq_Inr)
    have "clock k \<le> t" using assms(3) by simp
    then have "list_all (scheduled d t) (bindings st1)"
      using setup_item_scheduled[OF one Cons.prems(2)] by simp
    then show ?thesis using Cons.IH[OF more] by simp
  qed
qed

lemma sim_setup_scheduled:
  assumes "sim_setup rp d ns_idx root_name clock variables = Inr st" and "\<forall>j. clock j \<le> t"
  shows "list_all (scheduled d t) (bindings st)"
proof -
  obtain root_node cache1 sub1 where e:
    "ensure_object_path ([[] \<mapsto> objects_node], \<lparr>nodes = [], held = Map.empty, calls = []\<rparr>)
       ns_idx root_name = (root_node, cache1, sub1)"
    by (cases "ensure_object_path ([[] \<mapsto> objects_node], \<lparr>nodes = [], held = Map.empty, calls = []\<rparr>)
                 ns_idx root_name") auto
  from assms(1) e obtain items where
    "setup_vars rp d ns_idx root_name clock 0 items \<lparr>cache = cache1, space = sub1, bindings = []\<rparr>
       = Inr st"
    by (cases variables) (simp_all add: sim_setup_def)
  then show ?thesis
    using setup_vars_scheduled[where st = "\<lparr>cache = cache1, space = sub1, bindings = []\<rparr>"] assms(2)
    by simp
qed

text \<open>The variable with the negative interval, from \<^verbatim>\<open>setup\<close> at clock 6 through two
  ticks.\<close>

lemma hasty_facts:
  "interval_of d (simulation hasty_binding) = Inr (- 1000)"
  "mode_of rp (simulation hasty_binding) = ''toggle''"
  "dtype hasty_binding = ''bool''"
  "node hasty_binding = ''ns=2;s=Machine.Running''"
  "next_due hasty_binding = 5"
  by (simp_all add: hasty_binding_def interval_of_def mode_of_def dict_get_def str_defs)

lemma hasty_tick:
  assumes "same_config hasty_binding b" and "\<not> now < next_due b"
    and "held sub (node b) = Some (PBool x)"
  shows "tick_binding rp d now calm (b, sub) =
           Inr (b\<lparr>next_due := now - 1\<rparr>,
                sub\<lparr>held := (held sub)(node b \<mapsto> PBool (\<not> x)),
                    calls := calls sub @ [ReadValue (node b), WriteValue (node b) (PBool (\<not> x))]\<rparr>)"
proof -
  have sim: "simulation b = simulation hasty_binding" and dt: "dtype b = ''bool''"
    using assms(1) by (simp_all add: same_config_def hasty_facts)
  have i: "interval_of d (simulation b) = Inr (- 1000)" by (simp add: sim hasty_facts)
  have r: "\<not> read_fails calm" by (simp add: calm_def)
  have g: "generate rp calm (- 1000) b (PBool x) = Inr (PBool (\<not> x), b)"
    using generate_toggle[of rp b calm "- 1000" "PBool x"] by (simp add: sim hasty_facts)
  have c: "cast rp (dtype b) (PBool (\<not> x)) = Inr (PBool (\<not> x))"
    by (simp add: dt cast_bool_tag)
  show ?thesis
    using tick_binding_written[OF i assms(2) r assms(3) g c]
    by (simp add: write_value_def calm_def)
qed

lemma hasty_setup:
  "sim_setup rp d 2 ''Machine'' (\<lambda>k. 6) (Some [Some hasty_item]) = Inr hasty_state"
proof -
  let ?cs = "([[] \<mapsto> objects_node], \<lparr>nodes = [], held = Map.empty, calls = []\<rparr>)"
  have c: "clean_path ''Machine'' = ''Machine''" by (simp add: path_defs)
  have s: "split_path ''Machine'' = ([], ''Machine'')" by (simp add: path_defs)
  have top: "ensure_object_path ?cs 2 [] = (objects_node, ?cs)"
    by (rule ensure_cached) (simp add: path_defs)
  have root: "ensure_object_path ?cs 2 ''Machine'' =
          (''ns=2;s=Machine'', cache machine_state, space machine_state)"
    by (subst ensure_object_path.simps)
       (simp add: c s top Let_def, simp add: path_defs add_object_def str_defs num_defs machine_state_def)
  have fields: "item_path hasty_item = Some (PStr ''Machine/Running'')"
    "item_node_id hasty_item = None" "item_type hasty_item = Some (PStr ''bool'')"
    "item_initial hasty_item = Some (PBool False)" "item_writable hasty_item = Some (PBool True)"
    "item_simulation hasty_item =
       Some [''mode'' \<mapsto> PStr ''toggle'', ''interval_ms'' \<mapsto> PInt (- 1000)]"
    by (simp_all add: hasty_item_def example_running_def)
  have p: "var_path rp ''Machine'' hasty_item = ''Machine/Running''"
    unfolding var_path_def fields get_or_def by simp
  have t: "var_dtype rp hasty_item = ''bool''"
    by (simp add: var_dtype_of_name fields)
  have i: "var_initial rp hasty_item = Inr (PBool False)"
    by (simp add: var_initial_def t fields cast_bool_tag)
  have sp: "split_path ''Machine/Running'' = (''Machine'', ''Running'')" by (simp add: path_defs)
  have e: "ensure_object_path (cache machine_state, space machine_state) 2 ''Machine'' =
             (''ns=2;s=Machine'', cache machine_state, space machine_state)"
    by (rule ensure_cached) (simp add: path_defs machine_state_def)
  have nid: "var_node_id rp 2 ''Machine'' hasty_item = ''ns=2;s=Machine.Running''"
    by (simp add: var_node_id_def p fields derived_id_def str_defs num_defs)
  have w: "var_writable hasty_item" by (simp add: var_writable_def fields)
  have b: "var_binding rp d 6 ''ns=2;s=Machine.Running'' ''bool'' hasty_item = Inr (Some hasty_binding)"
    by (simp add: var_binding_def fields dict_get_def hasty_binding_def)
  have item: "setup_item rp d 2 ''Machine'' 6 hasty_item machine_state = Inr hasty_state"
    by (simp add: setup_item_def p t i sp e nid w b add_variable_def)
       (simp add: machine_state_def hasty_state_def Let_def)
  have "\<lparr>cache = cache machine_state, space = space machine_state, bindings = []\<rparr> = machine_state"
    by (simp add: machine_state_def)
  then show ?thesis by (simp add: sim_setup_def root item)
qed

lemma hasty_run:
  "run rp d [(13 / 2, \<lambda>k. calm), (7, \<lambda>k. calm)] (bindings hasty_state, space hasty_state) =
     Inr ([hasty_binding\<lparr>next_due := 6\<rparr>],
          (space hasty_state)
            \<lparr>calls := [ReadValue ''ns=2;s=Machine.Running'',
                       WriteValue ''ns=2;s=Machine.Running'' (PBool True),
                       ReadValue ''ns=2;s=Machine.Running'',
                       WriteValue ''ns=2;s=Machine.Running'' (PBool False)]\<rparr>)"
proof -
  let ?n = "''ns=2;s=Machine.Running''"
  let ?s0 = "space hasty_state"
  let ?b1 = "hasty_binding\<lparr>next_due := 11 / 2\<rparr>"
  let ?s1 = "?s0\<lparr>held := [?n \<mapsto> PBool True],
                 calls := [ReadValue ?n, WriteValue ?n (PBool True)]\<rparr>"
  let ?b2 = "hasty_binding\<lparr>next_due := 6\<rparr>"
  let ?s2 = "?s0\<lparr>calls := [ReadValue ?n, WriteValue ?n (PBool True),
                          ReadValue ?n, WriteValue ?n (PBool False)]\<rparr>"
  have bs: "bindings hasty_state = [hasty_binding]" by (simp add: hasty_state_def)
  have h0: "held ?s0 = [?n \<mapsto> PBool False]" "calls ?s0 = []" by (simp_all add: hasty_state_def)
  have t1: "tick_binding rp d (13 / 2) calm (hasty_binding, ?s0) = Inr (?b1, ?s1)"
    using hasty_tick[of hasty_binding "13 / 2" ?s0 False rp d]
    by (simp add: same_config_def hasty_facts h0)
  have t2: "tick_binding rp d 7 calm (?b1, ?s1) = Inr (?b2, ?s2)"
    using hasty_tick[of ?b1 7 ?s1 True rp d]
    by (simp add: same_config_def hasty_facts h0)
  show ?thesis
    unfolding bs
    by (simp add: tick_single[where envs = "\<lambda>k. calm", OF t1]
        tick_single[where envs = "\<lambda>k. calm", OF t2])
qed

text \<open>
  C9. \<^verbatim>\<open>next_due\<close> never decreases. The clock of \<^verbatim>\<open>time.monotonic()\<close> does not go
  backwards, so the clock readings of \<^verbatim>\<open>setup\<close> and of the ticks that follow form a
  non-decreasing sequence. A binding's \<^verbatim>\<open>next_due\<close> is \<open>t0 + interval_ms / 1000\<close> for an
  earlier clock reading \<open>t0\<close>, from \<^verbatim>\<open>setup\<close> or from a tick, and the interval of a
  binding never changes; a tick at \<open>now\<close> that assigns \<^verbatim>\<open>next_due\<close> assigns
  \<open>now + interval_ms / 1000\<close>, which is at least the old value whatever the sign of the
  interval. So neither the loop body for one binding nor any run of ticks after
  \<^verbatim>\<open>setup\<close> decreases \<^verbatim>\<open>next_due\<close>, whatever the substrate does; the bindings
  stay in their positions.
\<close>

theorem next_due_never_decreases:
  "(scheduled d t b \<and> t \<le> now \<and> tick_binding rp d now env (b, sub) = Inr (b', sub')
      \<longrightarrow> next_due b \<le> next_due b' \<and> scheduled d now b') \<and>
   (sim_setup rp d ns_idx root_name clock variables = Inr st \<and> (\<forall>j. clock j \<le> t)
      \<longrightarrow> list_all (scheduled d t) (bindings st)) \<and>
   (list_all (scheduled d t) bs \<and> sorted (t # map fst ts) \<and>
    run rp d ts (bs, sub) = Inr (bs', sub'')
      \<longrightarrow> length bs' = length bs \<and> (\<forall>k<length bs. next_due (bs ! k) \<le> next_due (bs' ! k)))"
proof (intro conjI impI)
  assume "scheduled d t b \<and> t \<le> now \<and> tick_binding rp d now env (b, sub) = Inr (b', sub')"
  then have "next_due b \<le> next_due b' \<and> scheduled d now b'"
    using tick_binding_scheduled[of rp d now env b sub b' sub' t] by blast
  then show "next_due b \<le> next_due b'" and "scheduled d now b'" by simp_all
next
  assume "sim_setup rp d ns_idx root_name clock variables = Inr st \<and> (\<forall>j. clock j \<le> t)"
  then show "list_all (scheduled d t) (bindings st)"
    using sim_setup_scheduled[of rp d ns_idx root_name clock variables st t] by blast
next
  assume a: "list_all (scheduled d t) bs \<and> sorted (t # map fst ts) \<and>
    run rp d ts (bs, sub) = Inr (bs', sub'')"
  then have adv: "list_all2 advanced bs bs'"
    using run_scheduled[of rp d ts bs sub bs' sub'' t] by blast
  then show "length bs' = length bs" by (simp add: list_all2_lengthD)
  show "\<forall>k<length bs. next_due (bs ! k) \<le> next_due (bs' ! k)"
    using adv by (auto simp: list_all2_conv_all_nth advanced_def)
qed

theorem next_due_never_decreases_witness:
  "sim_setup plain_repr 500 2 ''Machine'' (\<lambda>k. 6) (Some [Some hasty_item]) = Inr hasty_state \<and>
   bindings hasty_state = [hasty_binding] \<and>
   interval_of 500 (simulation hasty_binding) = Inr (- 1000) \<and>
   next_due hasty_binding = 5 \<and>
   scheduled 500 6 hasty_binding \<and>
   (6::real) \<le> 13 / 2 \<and>
   tick_binding plain_repr 500 (13 / 2) calm (hasty_binding, space hasty_state) =
     Inr (hasty_binding\<lparr>next_due := 11 / 2\<rparr>,
          (space hasty_state)
            \<lparr>held := [''ns=2;s=Machine.Running'' \<mapsto> PBool True],
             calls := [ReadValue ''ns=2;s=Machine.Running'',
                       WriteValue ''ns=2;s=Machine.Running'' (PBool True)]\<rparr>) \<and>
   next_due hasty_binding \<le> next_due (hasty_binding\<lparr>next_due := 11 / 2\<rparr>) \<and>
   scheduled 500 (13 / 2) (hasty_binding\<lparr>next_due := 11 / 2\<rparr>) \<and>
   sorted (6 # map fst [(13 / 2 :: real, \<lambda>k :: nat. calm), (7, \<lambda>k. calm)]) \<and>
   run plain_repr 500 [(13 / 2, \<lambda>k. calm), (7, \<lambda>k. calm)] (bindings hasty_state, space hasty_state) =
     Inr ([hasty_binding\<lparr>next_due := 6\<rparr>],
          (space hasty_state)
            \<lparr>calls := [ReadValue ''ns=2;s=Machine.Running'',
                       WriteValue ''ns=2;s=Machine.Running'' (PBool True),
                       ReadValue ''ns=2;s=Machine.Running'',
                       WriteValue ''ns=2;s=Machine.Running'' (PBool False)]\<rparr>) \<and>
   next_due (bindings hasty_state ! 0) \<le> next_due ([hasty_binding\<lparr>next_due := 6\<rparr>] ! 0)"
proof -
  let ?n = "''ns=2;s=Machine.Running''"
  let ?ts = "[(13 / 2 :: real, \<lambda>k :: nat. calm), (7, \<lambda>k. calm)]"
  let ?b1 = "hasty_binding\<lparr>next_due := 11 / 2\<rparr>"
  let ?s1 = "(space hasty_state)\<lparr>held := [?n \<mapsto> PBool True],
                 calls := [ReadValue ?n, WriteValue ?n (PBool True)]\<rparr>"
  let ?bs2 = "[hasty_binding\<lparr>next_due := 6\<rparr>]"
  let ?s2 = "(space hasty_state)\<lparr>calls := [ReadValue ?n, WriteValue ?n (PBool True),
                          ReadValue ?n, WriteValue ?n (PBool False)]\<rparr>"
  have su: "sim_setup plain_repr 500 2 ''Machine'' (\<lambda>k. 6) (Some [Some hasty_item]) = Inr hasty_state"
    by (rule hasty_setup)
  have bs: "bindings hasty_state = [hasty_binding]" by (simp add: hasty_state_def)
  have h0: "held (space hasty_state) = [?n \<mapsto> PBool False]" "calls (space hasty_state) = []"
    by (simp_all add: hasty_state_def)
  have clock: "\<forall>j :: nat. (6::real) \<le> 6" by simp
  have le: "(6::real) \<le> 13 / 2" by simp
  have so: "sorted (6 # map fst ?ts)" by simp
  have t1: "tick_binding plain_repr 500 (13 / 2) calm (hasty_binding, space hasty_state) = Inr (?b1, ?s1)"
    using hasty_tick[of hasty_binding "13 / 2" "space hasty_state" False plain_repr 500]
    by (simp add: same_config_def hasty_facts h0)
  have r: "run plain_repr 500 ?ts (bindings hasty_state, space hasty_state) = Inr (?bs2, ?s2)"
    by (rule hasty_run)
  have all: "list_all (scheduled 500 6) (bindings hasty_state)"
    using su clock
      next_due_never_decreases[of 500 6 hasty_binding "13 / 2" plain_repr calm "space hasty_state"
        ?b1 ?s1 2 "''Machine''" "\<lambda>k. 6" "Some [Some hasty_item]" hasty_state
        "bindings hasty_state" ?ts ?bs2 ?s2]
    by blast
  then have sch: "scheduled 500 6 hasty_binding" using bs by simp
  have one: "next_due hasty_binding \<le> next_due ?b1 \<and> scheduled 500 (13 / 2) ?b1"
    using sch le t1
      next_due_never_decreases[of 500 6 hasty_binding "13 / 2" plain_repr calm "space hasty_state"
        ?b1 ?s1 2 "''Machine''" "\<lambda>k. 6" "Some [Some hasty_item]" hasty_state
        "bindings hasty_state" ?ts ?bs2 ?s2]
    by blast
  have many: "\<forall>k<length (bindings hasty_state).
                next_due (bindings hasty_state ! k) \<le> next_due (?bs2 ! k)"
    using all so r
      next_due_never_decreases[of 500 6 hasty_binding "13 / 2" plain_repr calm "space hasty_state"
        ?b1 ?s1 2 "''Machine''" "\<lambda>k. 6" "Some [Some hasty_item]" hasty_state
        "bindings hasty_state" ?ts ?bs2 ?s2]
    by blast
  then have last: "next_due (bindings hasty_state ! 0) \<le> next_due (?bs2 ! 0)"
    using bs by simp
  show ?thesis
    using su bs hasty_facts(1)[of 500] hasty_facts(5) sch le t1 one so r last by blast
qed

end
